(* ===== verification/Prelude.thy ===== *)
theory Prelude
  imports Main "HOL-Library.Word" "HOL-Library.Sublist"
begin

text \<open>
  Shared ground of the development: the C types at their widths, undefined behaviour as a
  value, and the functions of the C library that the program uses (string search, bounded
  printing, number printing and parsing), each written from its documented behaviour.

  A \<open>char\<close> of the program is a HOL \<open>char\<close> (a byte), a \<open>uint8_t\<close> an \<open>8 word\<close>. A C string is
  the list of its characters before the terminating NUL. A pointer into a string, as
  \<open>strstr\<close> returns it, is the suffix it points to. Sizes and indices that the code bounds far
  below \<open>2 ^ 32\<close> are \<open>nat\<close>; addresses, values and counters keep their width.
\<close>

section \<open>Types\<close>

type_synonym byte = "8 word"
type_synonym u32 = "32 word"
type_synonym u64 = "64 word"

text \<open>
  What the C standard leaves undefined is a value of its own, so that every theorem about a
  result also says that the execution is defined.
\<close>

datatype ub =
    Shift_Range      \<comment> \<open>a shift by at least the width of the operand\<close>
  | Out_Of_Bounds    \<comment> \<open>an access outside an array\<close>
  | Use_After_Free   \<comment> \<open>an access to a freed allocation\<close>
  | Uninitialised    \<comment> \<open>a read of a local variable that was never written\<close>

type_synonym 'a c_result = "ub + 'a"

named_theorems plain_intros "closure rules of the printable (JSON safe) strings"
named_theorems frame_simps "fields that an operation leaves unchanged"

section \<open>Lists\<close>

lemma set_takeWhile_not: "c \<notin> set (takeWhile (\<lambda>x. x \<noteq> c) xs)"
  using set_takeWhileD by fastforce

lemma takeWhile_not_idem: "c \<notin> set xs \<Longrightarrow> takeWhile (\<lambda>x. x \<noteq> c) xs = xs"
  by (metis (mono_tags, lifting) takeWhile_eq_all_conv)

section \<open>Characters\<close>

abbreviation ord :: "char \<Rightarrow> nat" where
  "ord c \<equiv> of_char c"

abbreviation NUL :: char where "NUL \<equiv> CHR 0x00"
abbreviation LF :: char where "LF \<equiv> CHR 0x0A"
abbreviation CR :: char where "CR \<equiv> CHR 0x0D"
abbreviation TAB :: char where "TAB \<equiv> CHR 0x09"
abbreviation DQ :: char where "DQ \<equiv> CHR 0x22"
abbreviation BS :: char where "BS \<equiv> CHR 0x5C"
abbreviation SP :: char where "SP \<equiv> CHR 0x20"

text \<open>The conversions \<open>(char)(x & 0xff)\<close> and \<open>(uint8_t)(x & 0xff)\<close> of a 64-bit value.\<close>

definition char_of_u64 :: "u64 \<Rightarrow> char" where
  "char_of_u64 v = char_of (unat v)"

definition byte_of_u64 :: "u64 \<Rightarrow> byte" where
  "byte_of_u64 v = ucast v"

definition char_of_byte :: "byte \<Rightarrow> char" where
  "char_of_byte b = char_of (unat b)"

lemma ord_char_of_byte [simp]: "ord (char_of_byte b) = unat b"
proof -
  have "unat b < 256" using unsigned_less [of b, where ?'a = nat] by simp
  then show ?thesis by (simp add: char_of_byte_def)
qed

lemma char_of_byte_blank [simp]: "char_of_byte 0x20 = SP"
  by (simp add: char_of_byte_def char_of_eq_iff)

lemma char_of_u64_byte: "char_of_u64 v = char_of_byte (byte_of_u64 v)"
proof -
  have "unat (byte_of_u64 v) = unat v mod 256"
    by (simp add: byte_of_u64_def unsigned_ucast_eq take_bit_eq_mod)
  then show ?thesis
    by (simp add: char_of_u64_def char_of_byte_def)
qed

section \<open>C strings\<close>

text \<open>The C string that a buffer holds: its characters before the first NUL.\<close>

definition c_str :: "char list \<Rightarrow> string" where
  "c_str b = takeWhile (\<lambda>c. c \<noteq> NUL) b"

text \<open>
  \<open>snprintf(out, n, ...)\<close> of the text \<open>s\<close>: the buffer then holds the first \<open>n - 1\<close>
  characters (nothing is written when \<open>n\<close> is 0); the value returned is \<open>length s\<close>.
\<close>

definition snprintf :: "nat \<Rightarrow> string \<Rightarrow> string" where
  "snprintf n s = take (n - 1) s"

text \<open>\<open>strstr\<close>: the suffix of \<open>h\<close> that starts at the first occurrence of \<open>n\<close>.\<close>

fun strstr :: "string \<Rightarrow> string \<Rightarrow> string option" where
  "strstr [] n = (if n = [] then Some [] else None)"
| "strstr (c # h) n = (if prefix n (c # h) then Some (c # h) else strstr h n)"

text \<open>\<open>strchr\<close>: the suffix that starts at the first \<open>c\<close>.\<close>

definition strchr :: "string \<Rightarrow> char \<Rightarrow> string option" where
  "strchr s c = (case dropWhile (\<lambda>x. x \<noteq> c) s of [] \<Rightarrow> None | y # ys \<Rightarrow> Some (y # ys))"

lemma strstr_None_iff: "strstr h n = None \<longleftrightarrow> \<not> sublist n h"
  by (induction h) (auto simp: sublist_Cons_right)

lemma strstr_found: "(strstr h n \<noteq> None) = sublist n h"
  by (simp add: strstr_None_iff)

lemma strstr_prefix: "prefix n h \<Longrightarrow> strstr h n = Some h"
  by (cases h) auto

lemma strstr_head: "strstr (n @ t) n = Some (n @ t)"
  by (simp add: strstr_prefix)

lemma strstr_skip:
  "n \<noteq> [] \<Longrightarrow> \<forall>c \<in> set u. c \<noteq> hd n \<Longrightarrow> strstr (u @ r) n = strstr r n"
proof (induction u)
  case (Cons c u)
  then show ?case by (cases n) auto
qed simp

end
