(* ===== verification/CText.thy ===== *)
theory CText
  imports Prelude
begin

text \<open>
  Printing and parsing of numbers as the C library documents them: the conversions \<open>%u\<close>,
  \<open>%llu\<close>, \<open>%zu\<close>, \<open>%d\<close>, \<open>%02x\<close>/\<open>%04x\<close> and the function \<open>strtoull\<close> with base 0; and the
  text that is safe on one line of the protocol (no control characters).
\<close>

section \<open>Printing\<close>

definition digit :: "nat \<Rightarrow> char" where
  "digit d = ''0123456789abcdef'' ! d"

fun dec :: "nat \<Rightarrow> string" where
  "dec n = (if n < 10 then [digit n] else dec (n div 10) @ [digit (n mod 10)])"

declare dec.simps [simp del]

definition dec_int :: "int \<Rightarrow> string" where
  "dec_int i = (if i < 0 then CHR ''-'' # dec (nat (- i)) else dec (nat i))"

definition hex2 :: "byte \<Rightarrow> string" where
  "hex2 b = [digit (unat (and (drop_bit 4 b) 0xf)), digit (unat (and b 0xf))]"

definition hex4 :: "nat \<Rightarrow> string" where
  "hex4 n = [digit (n div 4096 mod 16), digit (n div 256 mod 16), digit (n div 16 mod 16),
             digit (n mod 16)]"

definition json_bool :: "bool \<Rightarrow> string" where
  "json_bool b = (if b then ''true'' else ''false'')"

section \<open>Parsing\<close>

definition digit_val :: "char \<Rightarrow> nat option" where
  "digit_val c =
     (let n = ord c in
      if 48 \<le> n \<and> n \<le> 57 then Some (n - 48)
      else if 97 \<le> n \<and> n \<le> 122 then Some (n - 87)
      else if 65 \<le> n \<and> n \<le> 90 then Some (n - 55)
      else None)"

definition is_digit :: "nat \<Rightarrow> char \<Rightarrow> bool" where
  "is_digit base c = (case digit_val c of None \<Rightarrow> False | Some d \<Rightarrow> d < base)"

definition digits_value :: "nat \<Rightarrow> string \<Rightarrow> nat" where
  "digits_value base s = foldl (\<lambda>v c. v * base + the (digit_val c)) 0 s"

definition is_space :: "char \<Rightarrow> bool" where
  "is_space c \<longleftrightarrow> ord c = 32 \<or> (9 \<le> ord c \<and> ord c \<le> 13)"

definition sign_of :: "string \<Rightarrow> bool \<times> string" where
  "sign_of s = (if s \<noteq> [] \<and> hd s = CHR ''-'' then (True, tl s)
                else if s \<noteq> [] \<and> hd s = CHR ''+'' then (False, tl s) else (False, s))"

definition base_of :: "string \<Rightarrow> nat \<times> string" where
  "base_of s =
     (if 2 < length s \<and> s ! 0 = CHR ''0'' \<and> (s ! 1 = CHR ''x'' \<or> s ! 1 = CHR ''X'') \<and> is_digit 16 (s ! 2)
      then (16, drop 2 s)
      else if s \<noteq> [] \<and> hd s = CHR ''0'' then (8, s) else (10, s))"

text \<open>
  \<open>strtoull(s, &end, 0)\<close>; \<open>None\<close> when there is no number (\<open>end == s\<close>). A value above the
  range saturates; a minus sign negates in the unsigned type.
\<close>

definition strtoull0 :: "string \<Rightarrow> u64 option" where
  "strtoull0 s =
     (let (neg, s) = sign_of (dropWhile is_space s);
          (base, s) = base_of s;
          ds = takeWhile (is_digit base) s;
          v = digits_value base ds
      in if ds = [] then None
         else if 2 ^ 64 \<le> v then Some (- 1)
         else Some (if neg then - of_nat v else of_nat v))"

text \<open>
  \<open>atoi(s)\<close>, as the usual C library has it: \<open>strtol\<close> with base 10, which saturates at the
  bounds of a 64-bit \<open>long\<close>, cut to a 32-bit \<open>int\<close>; 0 when there is no number.
\<close>

definition strtol10 :: "string \<Rightarrow> int" where
  "strtol10 s =
     (let (neg, s) = sign_of (dropWhile is_space s);
          v = int (digits_value 10 (takeWhile (is_digit 10) s))
      in if neg then max (- (2 ^ 63)) (- v) else min (2 ^ 63 - 1) v)"

definition atoi :: "string \<Rightarrow> int" where
  "atoi s = sint (word_of_int (strtol10 s) :: u32)"

section \<open>Decimal numerals\<close>

lemma less_10_cases: "(d::nat) < 10 \<Longrightarrow> d = 0 \<or> d = 1 \<or> d = 2 \<or> d = 3 \<or> d = 4 \<or> d = 5 \<or> d = 6 \<or> d = 7 \<or> d = 8 \<or> d = 9"
  by auto

lemma less_16_cases:
  "(d::nat) < 16 \<Longrightarrow> d < 10 \<or> d = 10 \<or> d = 11 \<or> d = 12 \<or> d = 13 \<or> d = 14 \<or> d = 15"
  by auto

lemma ord_digit: "d < 10 \<Longrightarrow> ord (digit d) = 48 + d"
  by (drule less_10_cases) (auto simp: digit_def)

lemma ord_digit_hex: "d < 16 \<Longrightarrow> ord (digit d) = (if d < 10 then 48 + d else 87 + d)"
  by (drule less_16_cases) (auto simp: digit_def ord_digit [unfolded digit_def])

lemma digit_val_digit [simp]: "d < 16 \<Longrightarrow> digit_val (digit d) = Some d"
  by (simp add: digit_val_def ord_digit_hex)

lemma dec_nonempty [simp]: "dec n \<noteq> []"
  by (subst dec.simps) simp

lemma dec_chars: "c \<in> set (dec n) \<Longrightarrow> \<exists>d < 10. c = digit d"
proof (induction n rule: dec.induct)
  case (1 n)
  show ?case
  proof (cases "n < 10")
    case True
    with "1.prems" show ?thesis by (subst (asm) dec.simps) auto
  next
    case False
    with "1.prems" have "c \<in> set (dec (n div 10)) \<or> c = digit (n mod 10)"
      by (subst (asm) dec.simps) auto
    then show ?thesis using "1.IH" [OF False] by (metis mod_less_divisor zero_less_numeral)
  qed
qed

lemma dec_length: "0 < k \<Longrightarrow> n < 10 ^ k \<Longrightarrow> length (dec n) \<le> k"
proof (induction n arbitrary: k rule: dec.induct)
  case (1 n)
  show ?case
  proof (cases "n < 10")
    case True
    with 1 show ?thesis by (subst dec.simps) simp
  next
    case False
    obtain j where j: "k = Suc j" using "1.prems" by (cases k) auto
    have "0 < j" using "1.prems" False j by (cases j) auto
    moreover have "n div 10 < 10 ^ j" using "1.prems" j by (simp add: div_less_iff_less_mult mult.commute)
    ultimately have "length (dec (n div 10)) \<le> j" using "1.IH" [OF False] by blast
    then show ?thesis using j False by (subst dec.simps) simp
  qed
qed

lemma dec_u64_length: "length (dec (unat (x :: u64))) \<le> 20"
proof -
  have "unat x < 2 ^ 64" using unsigned_less [of x, where ?'a = nat] by simp
  then show ?thesis by (intro dec_length) auto
qed

lemma dec_u32_length: "length (dec (unat (x :: u32))) \<le> 10"
proof -
  have "unat x < 2 ^ 32" using unsigned_less [of x, where ?'a = nat] by simp
  then show ?thesis by (intro dec_length) auto
qed

lemma dec_int_length:
  assumes "- (2 ^ 31) \<le> i" "i < 2 ^ 31"
  shows "length (dec_int i) \<le> 11"
proof -
  have "length (dec (nat (- i))) \<le> 10" "length (dec (nat i)) \<le> 10"
    using assms by (auto intro!: dec_length simp: nat_less_iff)
  then show ?thesis by (simp add: dec_int_def)
qed

lemma dec_value: "digits_value 10 (dec n) = n"
proof (induction n rule: dec.induct)
  case (1 n)
  then show ?case by (subst dec.simps) (auto simp: digits_value_def)
qed

lemma dec_is_digit: "c \<in> set (dec n) \<Longrightarrow> is_digit 10 c"
  by (auto simp: is_digit_def dest!: dec_chars)

lemma digit_0_iff: "d < 10 \<Longrightarrow> digit d = CHR ''0'' \<longleftrightarrow> d = 0"
  by (drule less_10_cases) (auto simp: digit_def)

lemma hd_dec_0: "hd (dec n) = CHR ''0'' \<longleftrightarrow> n = 0"
proof (induction n rule: dec.induct)
  case (1 n)
  show ?case
  proof (cases "n < 10")
    case True
    then show ?thesis by (subst dec.simps) (simp add: digit_0_iff)
  next
    case False
    then have "hd (dec n) = hd (dec (n div 10))" by (subst dec.simps) simp
    then show ?thesis using "1.IH" [OF False] False by auto
  qed
qed

lemma dec_0: "dec 0 = ''0''"
  by (subst dec.simps) (simp add: digit_def)

lemma sign_of_digit: "s \<noteq> [] \<Longrightarrow> is_digit 10 (hd s) \<Longrightarrow> sign_of s = (False, s)"
  by (auto simp: sign_of_def is_digit_def digit_val_def)

lemma is_space_digit: "is_digit 10 c \<Longrightarrow> \<not> is_space c"
  by (auto simp: is_digit_def digit_val_def is_space_def Let_def split: if_splits)

lemma takeWhile_digits:
  "\<forall>c \<in> set ds. P c \<Longrightarrow> (r = [] \<or> \<not> P (hd r)) \<Longrightarrow> takeWhile P (ds @ r) = ds"
  by (cases r) (auto simp: takeWhile_append)

text \<open>Parsing what \<open>%llu\<close> printed gives the number back.\<close>

lemma strtoull0_dec:
  assumes "n < 2 ^ 64" "rest = [] \<or> \<not> is_digit 16 (hd rest) \<and> hd rest \<noteq> CHR ''x'' \<and> hd rest \<noteq> CHR ''X''"
  shows "strtoull0 (dec n @ rest) = Some (of_nat n)"
proof -
  have hd: "is_digit 10 (hd (dec n))" using dec_is_digit [OF hd_in_set] by simp
  have nospace: "dropWhile is_space (dec n @ rest) = dec n @ rest"
    using is_space_digit [OF hd] by (cases "dec n") auto
  have "is_digit 8 c \<Longrightarrow> is_digit 16 c" "is_digit 10 c \<Longrightarrow> is_digit 16 c" for c
    by (auto simp: is_digit_def split: option.splits)
  with assms(2) have stop: "rest = [] \<or> \<not> is_digit 8 (hd rest)" "rest = [] \<or> \<not> is_digit 10 (hd rest)"
    by auto
  have sign: "sign_of (dec n @ rest) = (False, dec n @ rest)"
    using hd sign_of_digit [of "dec n @ rest"] by simp
  show ?thesis
  proof (cases "n = 0")
    case True
    have "base_of (dec n @ rest) = (8, dec n @ rest)"
      using assms(2) True by (cases rest) (auto simp: base_of_def dec_0)
    moreover have "takeWhile (is_digit 8) (dec n @ rest) = dec n"
      using stop(1) True by (intro takeWhile_digits) (auto simp: dec_0 is_digit_def digit_val_def)
    moreover have "digits_value 8 (dec n) = n"
      using True by (simp add: dec_0 digits_value_def digit_val_def)
    ultimately show ?thesis
      using assms(1) by (simp add: strtoull0_def nospace sign Let_def)
  next
    case False
    then have "base_of (dec n @ rest) = (10, dec n @ rest)"
      using hd_dec_0 [of n] by (cases "dec n") (auto simp: base_of_def)
    moreover have "takeWhile (is_digit 10) (dec n @ rest) = dec n"
      using stop(2) dec_is_digit by (intro takeWhile_digits) auto
    ultimately show ?thesis
      using assms(1) by (simp add: strtoull0_def nospace sign dec_value Let_def)
  qed
qed

lemma atoi_range: "- (2 ^ 31) \<le> atoi s" "atoi s < 2 ^ 31"
  using sint_range_size [of "word_of_int (strtol10 s) :: u32"] by (simp_all add: atoi_def word_size)

lemma atoi_dec:
  assumes "n < 2 ^ 31"
  shows "atoi (dec n) = int n"
proof -
  have hd: "is_digit 10 (hd (dec n))" using dec_is_digit [OF hd_in_set] by simp
  have "dropWhile is_space (dec n) = dec n" using is_space_digit [OF hd] by (cases "dec n") auto
  moreover have "sign_of (dec n) = (False, dec n)" using hd by (simp add: sign_of_digit)
  moreover have tw: "takeWhile (is_digit 10) (dec n) = dec n"
    using dec_is_digit by (simp add: takeWhile_eq_all_conv)
  ultimately have "strtol10 (dec n) = int n" using assms by (simp add: strtol10_def dec_value tw)
  moreover have "sint (word_of_int (int n) :: u32) = int n"
    using assms unfolding int_word_sint by simp
  ultimately show ?thesis by (simp add: atoi_def)
qed

section \<open>Hexadecimal bytes\<close>

definition unhex2 :: "char \<Rightarrow> char \<Rightarrow> byte option" where
  "unhex2 a b = (case (digit_val a, digit_val b) of
     (Some x, Some y) \<Rightarrow> if x < 16 \<and> y < 16 then Some (of_nat (16 * x + y)) else None
   | _ \<Rightarrow> None)"

text \<open>The reader of a hex dump: two digits for every byte.\<close>

fun unhex :: "string \<Rightarrow> byte list option" where
  "unhex [] = Some []"
| "unhex [a] = None"
| "unhex (a # b # s) =
     (case (unhex2 a b, unhex s) of (Some x, Some xs) \<Rightarrow> Some (x # xs) | _ \<Rightarrow> None)"

lemma low_nibble: "unat (and (x :: byte) 0xf) = unat x mod 16"
proof -
  have "and x 0xf = take_bit 4 x" by (simp add: take_bit_eq_mask mask_eq_exp_minus_1)
  then show ?thesis by (simp add: take_bit_eq_mod unat_mod)
qed

lemma nibbles:
  "unat (and (drop_bit 4 (b :: byte)) 0xf) = unat b div 16"
  "unat (and b 0xf) = unat b mod 16"
proof -
  have "unat b < 256" using unsigned_less [of b, where ?'a = nat] by simp
  then show "unat (and (drop_bit 4 b) 0xf) = unat b div 16"
    unfolding low_nibble by (simp add: unat_div drop_bit_eq_div less_mult_imp_div_less)
  show "unat (and b 0xf) = unat b mod 16" by (rule low_nibble)
qed

lemma hex2_digits: "hex2 b = [digit (unat b div 16), digit (unat b mod 16)]"
  unfolding hex2_def by (subst nibbles(1), subst nibbles(2), rule refl)

lemma unhex_hex2: "unhex (hex2 b @ s) = map_option (Cons b) (unhex s)"
proof -
  have b: "unat b < 256" using unsigned_less [of b, where ?'a = nat] by simp
  have "(of_nat (unat b div 16) * 16 + of_nat (unat b mod 16) :: byte) = of_nat (unat b div 16 * 16 + unat b mod 16)"
    by (simp only: of_nat_add of_nat_mult of_nat_numeral)
  also have "\<dots> = b" by (simp only: div_mult_mod_eq of_nat_unat ucast_id)
  finally have "unhex2 (digit (unat b div 16)) (digit (unat b mod 16)) = Some b"
    using b by (simp add: unhex2_def less_mult_imp_div_less mult.commute)
  then show ?thesis by (simp add: hex2_digits split: option.split)
qed

lemma unhex_dump: "unhex (concat (map hex2 bs)) = Some bs"
  by (induction bs) (simp_all add: unhex_hex2)

section \<open>Text that stays on one line\<close>

definition plain :: "string \<Rightarrow> bool" where
  "plain s \<longleftrightarrow> (\<forall>c \<in> set s. 32 \<le> ord c)"

lemma plain_append [simp]: "plain (s @ t) \<longleftrightarrow> plain s \<and> plain t"
  by (auto simp: plain_def)

lemma plain_Nil [simp]: "plain []"
  by (simp add: plain_def)

lemma plain_Cons [simp]: "plain (c # s) \<longleftrightarrow> 32 \<le> ord c \<and> plain s"
  by (simp add: plain_def)

lemma plain_take: "plain s \<Longrightarrow> plain (take n s)"
  by (auto simp: plain_def dest: in_set_takeD)

lemma plain_concat: "\<forall>s \<in> set ss. plain s \<Longrightarrow> plain (concat ss)"
  by (auto simp: plain_def)

lemma plain_digit: "d < 16 \<Longrightarrow> 32 \<le> ord (digit d)"
  by (simp add: ord_digit_hex)

lemma plain_dec [simp, plain_intros]: "plain (dec n)"
  using dec_chars plain_digit by (fastforce simp: plain_def)

lemma plain_dec_int [simp, plain_intros]: "plain (dec_int i)"
  by (simp add: dec_int_def)

lemma plain_hex2 [simp, plain_intros]: "plain (hex2 b)"
proof -
  have "unat b < 256" using unsigned_less [of b, where ?'a = nat] by simp
  then show ?thesis by (simp add: hex2_digits plain_digit less_mult_imp_div_less)
qed

lemma plain_hex4 [simp, plain_intros]: "plain (hex4 n)"
  by (simp add: hex4_def plain_digit)

lemma plain_bool [simp, plain_intros]: "plain (json_bool b)"
  by (simp add: json_bool_def)

lemma plain_no_LF: "plain s \<Longrightarrow> LF \<notin> set s"
  by (auto simp: plain_def)

lemma plain_no_NUL: "plain s \<Longrightarrow> NUL \<notin> set s"
  by (auto simp: plain_def)

lemma c_str_plain: "plain s \<Longrightarrow> c_str s = s"
  by (simp add: c_str_def takeWhile_not_idem plain_no_NUL)

end
