(* ===== verification/Interfaces.thy ===== *)
theory Interfaces
  imports CText
begin

text \<open>
  The contracts between the components, as locales: what a client calls (\<open>fixes\<close>), what
  the provider promises (\<open>assumes\<close>), and what follows for every client (the lemmas). Each
  locale is interpreted, in the theory of the component that provides the operations, on
  that component's own definitions.

  \<^item> \<open>store_sink\<close>, \<open>tracking_sink\<close>: a consumer of guest stores (the VGA shadow, the
    hypercall window), as the memory callback of the plugin calls it;
  \<^item> \<open>text_codec\<close>: an encoder of console text on the plugin's side and its decoder on the
    client's side of the socket;
  \<^item> \<open>line_service\<close>: the request handler that the socket server calls for every line.

  A fourth one, \<open>reply_view\<close> of \<open>Client\<close>, stands beside the polling loop that uses it.
\<close>

section \<open>Consumers of guest stores\<close>

text \<open>A guest store is its physical address, its value and its size in bytes.\<close>

type_synonym guest_write = "u64 \<times> u64 \<times> nat"

definition small_write :: "guest_write \<Rightarrow> bool" where
  "small_write w = (case w of (p, v, n) \<Rightarrow> 0 < n \<and> n \<le> 8)"

lemma small_write_iff [simp]: "small_write (p, v, n) \<longleftrightarrow> 0 < n \<and> n \<le> 8"
  by (simp add: small_write_def)

text \<open>
  Guest memory from addresses (or offsets into a window) to bytes: a store writes the bytes
  of the value in little endian order.
\<close>

type_synonym vmem = "nat \<Rightarrow> byte"

definition guest_store :: "nat \<Rightarrow> u64 \<Rightarrow> nat \<Rightarrow> vmem \<Rightarrow> vmem" where
  "guest_store off value sz m =
     (\<lambda>k. if off \<le> k \<and> k < off + sz then byte_of_u64 (drop_bit (8 * (k - off)) value) else m k)"

lemma guest_store_0 [simp]: "guest_store off value 0 m = m"
  by (rule ext) (auto simp add: guest_store_def)

lemma guest_store_Suc:
  "guest_store off value (Suc i) m =
     (guest_store off value i m)(off + i := byte_of_u64 (drop_bit (8 * i) value))"
  by (auto simp: guest_store_def fun_eq_iff less_Suc_eq)

fun run_stores ::
    "(u64 \<Rightarrow> u64 \<Rightarrow> nat \<Rightarrow> 's \<Rightarrow> 's c_result) \<Rightarrow> guest_write list \<Rightarrow> 's \<Rightarrow> 's c_result" where
  "run_stores note [] s = Inr s"
| "run_stores note ((p, v, n) # ws) s =
     (case note p v n s of Inl e \<Rightarrow> Inl e | Inr s' \<Rightarrow> run_stores note ws s')"

lemma run_stores_append:
  "run_stores note (xs @ ys) s =
     (case run_stores note xs s of Inl e \<Rightarrow> Inl e | Inr s' \<Rightarrow> run_stores note ys s')"
proof (induction xs arbitrary: s)
  case Nil
  then show ?case by simp
next
  case (Cons w xs)
  then show ?case by (cases w) (auto split: sum.split)
qed

locale store_sink =
  fixes note_fn :: "u64 \<Rightarrow> u64 \<Rightarrow> nat \<Rightarrow> 's \<Rightarrow> 's c_result"
    and hit :: "u64 \<Rightarrow> nat \<Rightarrow> bool"
    and inv :: "'s \<Rightarrow> bool"
  assumes miss: "\<not> hit p n \<Longrightarrow> note_fn p v n s = Inr s"
    and defined: "inv s \<Longrightarrow> 0 < n \<Longrightarrow> n \<le> 8 \<Longrightarrow> \<exists>s'. note_fn p v n s = Inr s' \<and> inv s'"
begin

lemma run_filter:
  "run_stores note_fn ws s = run_stores note_fn (filter (\<lambda>(p, v, n). hit p n) ws) s"
proof (induction ws arbitrary: s)
  case Nil
  then show ?case by simp
next
  case (Cons w ws)
  then show ?case by (cases w) (auto simp: miss split: sum.split)
qed

lemma run_defined:
  "inv s \<Longrightarrow> list_all small_write ws \<Longrightarrow> \<exists>s'. run_stores note_fn ws s = Inr s' \<and> inv s'"
proof (induction ws arbitrary: s)
  case Nil
  then show ?case by simp
next
  case (Cons w ws)
  obtain p v n where w: "w = (p, v, n)" by (cases w)
  with Cons.prems have "0 < n" "n \<le> 8" by auto
  then obtain s' where "note_fn p v n s = Inr s'" "inv s'"
    using defined Cons.prems(1) by blast
  with Cons w show ?case by simp
qed

end

fun upd_all ::
    "(u64 \<Rightarrow> nat \<Rightarrow> bool) \<Rightarrow> (u64 \<Rightarrow> u64 \<Rightarrow> nat \<Rightarrow> 'm \<Rightarrow> 'm) \<Rightarrow> guest_write list \<Rightarrow> 'm \<Rightarrow> 'm" where
  "upd_all hit upd [] m = m"
| "upd_all hit upd ((p, v, n) # ws) m =
     upd_all hit upd ws (if hit p n then upd p v n m else m)"

text \<open>
  A sink that tracks a part of guest memory: \<open>view s m\<close> says that the sink \<open>s\<close> shows the
  abstract memory \<open>m\<close>, and \<open>upd\<close> is what a store does to that memory.
\<close>

locale tracking_sink = store_sink note_fn hit inv
  for note_fn :: "u64 \<Rightarrow> u64 \<Rightarrow> nat \<Rightarrow> 's \<Rightarrow> 's c_result"
    and hit :: "u64 \<Rightarrow> nat \<Rightarrow> bool"
    and inv :: "'s \<Rightarrow> bool" +
  fixes view :: "'s \<Rightarrow> 'm \<Rightarrow> bool"
    and upd :: "u64 \<Rightarrow> u64 \<Rightarrow> nat \<Rightarrow> 'm \<Rightarrow> 'm"
  assumes track:
    "inv s \<Longrightarrow> view s m \<Longrightarrow> hit p n \<Longrightarrow> 0 < n \<Longrightarrow> n \<le> 8 \<Longrightarrow>
       note_fn p v n s = Inr s' \<Longrightarrow> view s' (upd p v n m)"
begin

lemma run_tracks:
  "inv s \<Longrightarrow> view s m \<Longrightarrow> list_all small_write ws \<Longrightarrow>
     \<exists>s'. run_stores note_fn ws s = Inr s' \<and> inv s' \<and> view s' (upd_all hit upd ws m)"
proof (induction ws arbitrary: s m)
  case Nil
  then show ?case by simp
next
  case (Cons w ws)
  obtain p v n where w: "w = (p, v, n)" by (cases w)
  with Cons.prems have n: "0 < n" "n \<le> 8" by auto
  obtain s' where s': "note_fn p v n s = Inr s'" "inv s'"
    using defined Cons.prems(1) n by blast
  have "view s' (if hit p n then upd p v n m else m)"
    using track [OF Cons.prems(1,2) _ n s'(1)] miss [of p n v s] s'(1) Cons.prems(2) by auto
  with Cons s' w show ?case by simp
qed

end

section \<open>The request handler of the server\<close>

text \<open>
  A service for lines: with the state in its invariant, every line without a NUL is
  answered by one non-empty response that stays on one line and leaves room for the newline
  and the NUL in a buffer of \<open>max_resp\<close> bytes, and the invariant holds again.
\<close>

locale line_service =
  fixes handle :: "string \<Rightarrow> 's \<Rightarrow> (string \<times> 's) c_result"
    and inv :: "'s \<Rightarrow> bool"
    and max_resp :: nat
  assumes serve: "inv s \<Longrightarrow> NUL \<notin> set line \<Longrightarrow>
    \<exists>resp s'. handle line s = Inr (resp, s') \<and> inv s' \<and>
      resp \<noteq> [] \<and> plain resp \<and> length resp + 1 < max_resp"

text \<open>The responses to a sequence of lines, in order.\<close>

fun serve_all :: "(string \<Rightarrow> 's \<Rightarrow> (string \<times> 's) c_result) \<Rightarrow> string list \<Rightarrow> 's \<Rightarrow> (string list \<times> 's) c_result" where
  "serve_all handle [] s = Inr ([], s)"
| "serve_all handle (l # ls) s =
     (case handle l s of
        Inl e \<Rightarrow> Inl e
      | Inr (resp, s) \<Rightarrow>
          (case serve_all handle ls s of Inl e \<Rightarrow> Inl e | Inr (rs, s) \<Rightarrow> Inr (resp # rs, s)))"

context line_service
begin

lemma serve_all_ok:
  "inv s \<Longrightarrow> \<forall>l \<in> set ls. NUL \<notin> set l \<Longrightarrow>
     \<exists>rs s'. serve_all handle ls s = Inr (rs, s') \<and> inv s' \<and> length rs = length ls \<and>
       (\<forall>r \<in> set rs. r \<noteq> [] \<and> plain r \<and> length r + 1 < max_resp)"
proof (induction ls arbitrary: s)
  case Nil
  then show ?case by simp
next
  case (Cons l ls)
  then obtain resp s1 where h: "handle l s = Inr (resp, s1)" "inv s1"
    and r: "resp \<noteq> []" "plain resp" "length resp + 1 < max_resp"
    using serve [of s l] by auto
  with Cons.IH [of s1] Cons.prems(2) obtain rs s' where
    "serve_all handle ls s1 = Inr (rs, s')" "inv s'" "length rs = length ls"
    "\<forall>r \<in> set rs. r \<noteq> [] \<and> plain r \<and> length r + 1 < max_resp"
    by auto
  with h r show ?case by auto
qed

end

section \<open>Text between the two ends of the socket\<close>

text \<open>
  An encoder of single characters and a decoder of a quoted field with a bounded buffer:
  the decoder shows \<open>view c\<close> for every encoded character \<open>c\<close>, up to its buffer's size, and
  stops at the closing quote. Characters with \<open>view c = [c]\<close> survive.
\<close>

locale text_codec =
  fixes enc :: "char \<Rightarrow> string"
    and decode :: "nat \<Rightarrow> string \<Rightarrow> string"
    and view :: "char \<Rightarrow> string"
  assumes decode_enc: "NUL \<notin> set s \<Longrightarrow> 0 < n \<Longrightarrow>
    decode n (concat (map enc s) @ DQ # rest) = take (n - 1) (concat (map view s))"
begin

lemma decode_clean:
  assumes "NUL \<notin> set s" "\<forall>c \<in> set s. view c = [c]" "length s < n"
  shows "decode n (concat (map enc s) @ DQ # rest) = s"
proof -
  have "concat (map view s) = s" using assms(2) by (induction s) auto
  then show ?thesis using decode_enc [OF assms(1), of n rest] assms(3) by simp
qed

text \<open>Clean texts are told apart by their encodings.\<close>

lemma enc_inj:
  assumes "concat (map enc s) @ DQ # r = concat (map enc t) @ DQ # r'"
    and "NUL \<notin> set s" "\<forall>c \<in> set s. view c = [c]" "NUL \<notin> set t" "\<forall>c \<in> set t. view c = [c]"
  shows "s = t"
proof -
  let ?n = "Suc (max (length s) (length t))"
  have "decode ?n (concat (map enc s) @ DQ # r) = s" "decode ?n (concat (map enc t) @ DQ # r') = t"
    using assms(2-5) by (simp_all add: decode_clean)
  then show ?thesis using assms(1) by simp
qed

text \<open>Waiting for a text: the needle is found in the decoded field iff it is in the text.\<close>

lemma needle_found:
  assumes "NUL \<notin> set s" "\<forall>c \<in> set s. view c = [c]" "length s < n"
  shows "strstr (decode n (concat (map enc s) @ DQ # rest)) needle \<noteq> None \<longleftrightarrow> sublist needle s"
  by (simp only: decode_clean [OF assms] strstr_found)

end

end
