(* ===== verification/Vga.thy ===== *)
theory Vga
  imports Prelude Interfaces
begin

text \<open>
  plugin/vga.c: the host side shadow of the 80x25 VGA text buffer. The state is the record
  \<open>qc_vga_state\<close> (the mutex is left out: every operation holds it for its whole body, so an
  operation is one atomic step). A pointer \<open>qc_vga_state_t *\<close> that may be NULL is an
  \<open>option\<close>. The loops of the code are recursive functions over the loop variables.

  Main results: the store and refresh operations implement an abstract video memory
  (\<open>vga_shadow\<close>, \<open>guest_store\<close>), and the snapshot loop is a bounded copy of the rows
  joined by newlines.
\<close>

section \<open>State\<close>

abbreviation (input) VGA_PHYS :: u64 where "VGA_PHYS \<equiv> 0xB8000"
abbreviation (input) VGA_COLS :: nat where "VGA_COLS \<equiv> 80"
abbreviation (input) VGA_ROWS :: nat where "VGA_ROWS \<equiv> 25"
abbreviation (input) VGA_TEXT :: nat where "VGA_TEXT \<equiv> 2000"
abbreviation (input) VGA_BYTES :: nat where "VGA_BYTES \<equiv> 4000"

record qc_vga_state =
  vtext :: "char list"
  write_count :: u64
  dirty :: bool

definition vga_wf :: "qc_vga_state \<Rightarrow> bool" where
  "vga_wf s \<longleftrightarrow> length (vtext s) = VGA_TEXT"

section \<open>Operations\<close>

definition qc_vga_init :: qc_vga_state where
  "qc_vga_init = \<lparr>vtext = replicate VGA_TEXT SP, write_count = 0, dirty = False\<rparr>"

text \<open>
  The loop of \<open>qc_vga_note_store\<close> over the bytes of the store. The shift
  \<open>value >> (8 * i)\<close> of a 64-bit value is defined for \<open>8 * i < 64\<close> only.
\<close>

function note_loop :: "nat \<Rightarrow> nat \<Rightarrow> u64 \<Rightarrow> u64 \<Rightarrow> qc_vga_state \<Rightarrow> qc_vga_state c_result" where
  "note_loop i sz off value s =
     (if i < sz then
        (let b = off + of_nat i in
         if of_nat VGA_BYTES \<le> b then Inr s
         else if b mod 2 = 0 then
           (let ti = unat (b div 2) in
            if ti < VGA_TEXT then
              (if 64 \<le> 8 * i then Inl Shift_Range
               else note_loop (Suc i) sz off value
                      (s\<lparr>vtext := (vtext s)[ti := char_of_u64 (drop_bit (8 * i) value)],
                         dirty := True\<rparr>))
            else note_loop (Suc i) sz off value s)
         else note_loop (Suc i) sz off value s)
      else Inr s)"
  by pat_completeness auto
termination
  by (relation "measure (\<lambda>(i, sz, off, value, s). sz - i)") auto

declare note_loop.simps [simp del]

definition qc_vga_note_store ::
    "qc_vga_state option \<Rightarrow> u64 \<Rightarrow> u64 \<Rightarrow> nat \<Rightarrow> qc_vga_state option c_result" where
  "qc_vga_note_store vga hwaddr value sz =
     (case vga of
        None \<Rightarrow> Inr None
      | Some s \<Rightarrow>
          if sz = 0 then Inr (Some s)
          else if hwaddr < VGA_PHYS \<or> VGA_PHYS + of_nat VGA_BYTES \<le> hwaddr then Inr (Some s)
          else
            (case note_loop 0 sz (hwaddr - VGA_PHYS) value s of
               Inl e \<Rightarrow> Inl e
             | Inr s' \<Rightarrow> Inr (Some (s'\<lparr>write_count := write_count s' + 1\<rparr>))))"

text \<open>
  \<open>qc_vga_load_cells\<close>: \<open>raw\<close> has \<open>len\<close> bytes; the first loop copies the character of every
  complete cell, the second one blanks the rest of the shadow.
\<close>

definition qc_vga_load_cells ::
    "qc_vga_state option \<Rightarrow> byte list option \<Rightarrow> qc_vga_state option" where
  "qc_vga_load_cells vga raw =
     (case (vga, raw) of
        (Some s, Some bytes) \<Rightarrow>
          (let cells = min VGA_TEXT (length bytes div 2);
               copied = map (\<lambda>i. char_of_byte (bytes ! (i * 2))) [0..<cells];
               blanks = map (\<lambda>_. SP) [cells..<VGA_TEXT]
           in Some (s\<lparr>vtext := copied @ blanks, dirty := True,
                       write_count := write_count s + 1\<rparr>))
      | _ \<Rightarrow> vga)"

text \<open>
  The two nested loops of \<open>qc_vga_snapshot_text\<close>; \<open>acc\<close> is what \<open>out\<close> holds so far, so
  \<open>n\<close> is its length, and the early returns give \<open>acc\<close>.
\<close>

function snap_loop :: "char list \<Rightarrow> nat \<Rightarrow> nat \<Rightarrow> nat \<Rightarrow> char list \<Rightarrow> char list" where
  "snap_loop cells out_len row col acc =
     (if row < VGA_ROWS then
        (if col < VGA_COLS then
           (if out_len \<le> length acc + 1 then acc
            else snap_loop cells out_len row (Suc col)
                   (acc @ [cells ! (row * VGA_COLS + col)]))
         else if row + 1 < VGA_ROWS then
           (if out_len \<le> length acc + 1 then acc
            else snap_loop cells out_len (Suc row) 0 (acc @ [LF]))
         else snap_loop cells out_len (Suc row) 0 acc)
      else acc)"
  by pat_completeness auto
termination
  by (relation "measures [\<lambda>(cells, out_len, row, col, acc). VGA_ROWS - row,
                          \<lambda>(cells, out_len, row, col, acc). VGA_COLS - col]") auto

declare snap_loop.simps [simp del]

text \<open>
  The result is the value returned, what \<open>out\<close> holds before its terminating NUL
  (\<open>None\<close>: nothing was written), and the state.
\<close>

definition qc_vga_snapshot_text ::
    "qc_vga_state option \<Rightarrow> nat \<Rightarrow> nat \<times> char list option \<times> qc_vga_state option" where
  "qc_vga_snapshot_text vga out_len =
     (if out_len = 0 then (0, None, vga)
      else (case vga of
              None \<Rightarrow> (0, Some [], None)
            | Some s \<Rightarrow>
                (let out = snap_loop (vtext s) out_len 0 0 []
                 in (length out, Some out, Some (s\<lparr>dirty := False\<rparr>)))))"

definition qc_vga_write_count :: "qc_vga_state option \<Rightarrow> u64" where
  "qc_vga_write_count vga = (case vga of None \<Rightarrow> 0 | Some s \<Rightarrow> write_count s)"

section \<open>The shadow as an abstract video memory\<close>

text \<open>
  The guest's text buffer as a memory from byte offsets to bytes. The shadow shows the even
  bytes (the characters) as text.
\<close>

definition vga_shadow :: "vmem \<Rightarrow> char list" where
  "vga_shadow m = map (\<lambda>i. char_of_byte (m (2 * i))) [0..<VGA_TEXT]"

lemma length_vga_shadow [simp]: "length (vga_shadow m) = VGA_TEXT"
  by (simp add: vga_shadow_def)

lemma nth_vga_shadow: "i < VGA_TEXT \<Longrightarrow> vga_shadow m ! i = char_of_byte (m (2 * i))"
  by (simp add: vga_shadow_def)

lemma vga_shadow_eqI:
  "(\<And>k. k < VGA_BYTES \<Longrightarrow> m k = m' k) \<Longrightarrow> vga_shadow m = vga_shadow m'"
  by (rule nth_equalityI) (simp_all add: nth_vga_shadow)

lemma vga_shadow_upd_even:
  "even k \<Longrightarrow> vga_shadow (m(k := b)) = (vga_shadow m)[k div 2 := char_of_byte b]"
  by (rule nth_equalityI) (auto simp: nth_vga_shadow nth_list_update)

lemma vga_shadow_upd_odd: "odd k \<Longrightarrow> vga_shadow (m(k := b)) = vga_shadow m"
  by (rule nth_equalityI) (auto simp: nth_vga_shadow)

lemma unat_add_small:
  fixes a :: u64
  shows "unat a < 4000 \<Longrightarrow> i \<le> 8 \<Longrightarrow> unat (a + of_nat i) = unat a + i"
  by (simp add: unat_word_ariths unat_of_nat)

lemma note_loop_tracks:
  assumes "unat off < VGA_BYTES" "sz \<le> 8" "i \<le> sz"
    and "vtext s = vga_shadow (guest_store (unat off) value i m)"
  shows "\<exists>s'. note_loop i sz off value s = Inr s' \<and>
           vtext s' = vga_shadow (guest_store (unat off) value sz m) \<and>
           write_count s' = write_count s"
  using assms(2-4)
proof (induction "sz - i" arbitrary: i s)
  case 0
  then show ?case by (subst note_loop.simps) simp
next
  case (Suc d)
  then have i: "i < sz" by simp
  let ?b = "off + of_nat i"
  have b: "unat ?b = unat off + i"
    using assms(1) i Suc.prems(1) by (intro unat_add_small) auto
  show ?case
  proof (cases "VGA_BYTES \<le> unat off + i")
    case True
    have "vga_shadow (guest_store (unat off) value i m) =
          vga_shadow (guest_store (unat off) value sz m)"
      using True i by (intro vga_shadow_eqI) (auto simp: guest_store_def)
    with True i b Suc.prems(3) show ?thesis
      by (subst note_loop.simps) (simp add: word_le_nat_alt)
  next
    case False
    have small: "\<not> of_nat VGA_BYTES \<le> ?b"
      using False b by (simp add: word_le_nat_alt)
    have par: "?b mod 2 = 0 \<longleftrightarrow> even (unat off + i)"
      by (simp add: word_unat_eq_iff b unat_mod even_iff_mod_2_eq_zero)
    have half: "unat (?b div 2) = (unat off + i) div 2"
      by (simp add: unat_div b)
    show ?thesis
    proof (cases "even (unat off + i)")
      case True
      let ?s = "s\<lparr>vtext := (vtext s)[(unat off + i) div 2 := char_of_u64 (drop_bit (8 * i) value)], dirty := True\<rparr>"
      have "vtext ?s = vga_shadow (guest_store (unat off) value (Suc i) m)"
        using Suc.prems(3) True by (simp add: guest_store_Suc vga_shadow_upd_even char_of_u64_byte)
      from Suc.hyps(1) [OF _ _ _ this] Suc.hyps(2) Suc.prems(1) i
      have "\<exists>s'. note_loop (Suc i) sz off value ?s = Inr s' \<and>
           vtext s' = vga_shadow (guest_store (unat off) value sz m) \<and>
           write_count s' = write_count s" by simp
      moreover have "note_loop i sz off value s = note_loop (Suc i) sz off value ?s"
      proof -
        have "(unat off + i) div 2 < VGA_TEXT" using False by simp
        then show ?thesis
          using i small par True half Suc.prems(1)
          by (subst note_loop.simps) (simp add: Let_def)
      qed
      ultimately show ?thesis by simp
    next
      case odd: False
      have "vtext s = vga_shadow (guest_store (unat off) value (Suc i) m)"
        using Suc.prems(3) odd by (simp add: guest_store_Suc vga_shadow_upd_odd)
      from Suc.hyps(1) [OF _ _ _ this] Suc.hyps(2) Suc.prems(1) i
      have "\<exists>s'. note_loop (Suc i) sz off value s = Inr s' \<and>
           vtext s' = vga_shadow (guest_store (unat off) value sz m) \<and>
           write_count s' = write_count s" by simp
      moreover have "note_loop i sz off value s = note_loop (Suc i) sz off value s"
        using i small par odd by (subst note_loop.simps) (simp add: Let_def)
      ultimately show ?thesis by simp
    qed
  qed
qed

lemma vga_offset:
  fixes p :: u64
  assumes "VGA_PHYS \<le> p"
  shows "unat (p - VGA_PHYS) = unat p - unat VGA_PHYS"
  using assms by (simp add: unat_sub word_le_nat_alt)

definition vga_hit :: "u64 \<Rightarrow> bool" where
  "vga_hit p \<longleftrightarrow> VGA_PHYS \<le> p \<and> p < VGA_PHYS + of_nat VGA_BYTES"

lemma vga_hit_offset: "vga_hit p \<Longrightarrow> unat (p - VGA_PHYS) < VGA_BYTES"
  by (auto simp: vga_hit_def vga_offset word_le_nat_alt word_less_nat_alt)

lemma qc_vga_note_store_miss:
  "\<not> vga_hit p \<Longrightarrow> qc_vga_note_store vga p value sz = Inr vga"
  by (auto simp: qc_vga_note_store_def vga_hit_def not_le not_less split: option.split)

lemma qc_vga_note_store_tracks:
  assumes "vga_hit p" "0 < sz" "sz \<le> 8" "vtext s = vga_shadow m"
  shows "\<exists>s'. qc_vga_note_store (Some s) p value sz = Inr (Some s') \<and>
           vtext s' = vga_shadow (guest_store (unat p - unat VGA_PHYS) value sz m) \<and>
           write_count s' = write_count s + 1"
proof -
  let ?off = "p - VGA_PHYS"
  from note_loop_tracks [of "?off" sz 0 s "value" m] assms vga_hit_offset [OF assms(1)]
  obtain s' where s': "note_loop 0 sz ?off value s = Inr s'"
    "vtext s' = vga_shadow (guest_store (unat ?off) value sz m)"
    "write_count s' = write_count s" by auto
  have hit: "\<not> (p < VGA_PHYS \<or> VGA_PHYS + of_nat VGA_BYTES \<le> p)" "VGA_PHYS \<le> p"
    using assms(1) by (auto simp: vga_hit_def)
  show ?thesis
    using s' hit assms(2) vga_offset [OF hit(2)]
    by (simp add: qc_vga_note_store_def)
qed

lemma vga_wf_shadow: "vga_wf s \<Longrightarrow> \<exists>m. vtext s = vga_shadow m"
proof
  assume wf: "vga_wf s"
  show "vtext s = vga_shadow (\<lambda>k. of_nat (ord (vtext s ! (k div 2))))"
  proof (rule nth_equalityI)
    fix i assume "i < length (vtext s)"
    moreover have "unat (of_nat (ord c) :: byte) = ord c" for c :: char
      by (simp add: unat_of_nat)
    ultimately show "vtext s ! i = vga_shadow (\<lambda>k. of_nat (ord (vtext s ! (k div 2)))) ! i"
      using wf by (simp add: vga_wf_def nth_vga_shadow char_of_byte_def)
  qed (use wf in \<open>simp add: vga_wf_def\<close>)
qed

lemma note_loop_wide:
  assumes "unat off + 9 < VGA_BYTES" "sz = 16" "i \<le> 8 + unat off mod 2"
  shows "note_loop i sz off value s = Inl Shift_Range"
  using assms(3)
proof (induction "8 + unat off mod 2 - i" arbitrary: i s)
  case 0
  then have i: "i = 8 + unat off mod 2" by simp
  have ile: "i \<le> 9" using i by (simp add: mod_le_divisor)
  have b: "unat (off + of_nat i) = unat off + i"
    using assms(1) ile by (simp add: unat_word_ariths unat_of_nat)
  have "even (unat off + i)" using i by presburger
  then have "(off + of_nat i) mod 2 = 0"
    by (simp add: word_unat_eq_iff b unat_mod even_iff_mod_2_eq_zero)
  moreover have "\<not> of_nat VGA_BYTES \<le> off + of_nat i"
    using assms(1) ile b by (simp add: word_le_nat_alt)
  moreover have "unat ((off + of_nat i) div 2) < VGA_TEXT"
    using assms(1) ile b by (simp add: unat_div)
  ultimately show ?case
    using assms(2) ile i by (subst note_loop.simps) (simp add: Let_def)
next
  case (Suc d)
  then have i: "i < 8 + unat off mod 2" by simp
  then have ile: "i \<le> 8" by linarith
  have b: "unat (off + of_nat i) = unat off + i"
    using assms(1) ile by (simp add: unat_word_ariths unat_of_nat)
  have small: "\<not> of_nat VGA_BYTES \<le> off + of_nat i"
    using assms(1) ile b by (simp add: word_le_nat_alt)
  have par: "(off + of_nat i) mod 2 = 0 \<longleftrightarrow> even (unat off + i)"
    by (simp add: word_unat_eq_iff b unat_mod even_iff_mod_2_eq_zero)
  have next_: "note_loop (Suc i) sz off value t = Inl Shift_Range" for t
    using Suc.hyps(2) i by (intro Suc.hyps(1)) auto
  have "i < sz" using ile assms(2) by simp
  then show ?case
    using small next_ by (subst note_loop.simps) (simp add: Let_def)
qed

lemma qc_vga_note_store_wide:
  assumes "vga_hit p" "unat p - unat VGA_PHYS + 9 < VGA_BYTES"
  shows "qc_vga_note_store (Some s) p value 16 = Inl Shift_Range"
proof -
  have hit: "\<not> (p < VGA_PHYS \<or> VGA_PHYS + of_nat VGA_BYTES \<le> p)" "VGA_PHYS \<le> p"
    using assms(1) by (auto simp: vga_hit_def)
  have "note_loop 0 16 (p - VGA_PHYS) value s = Inl Shift_Range"
    using assms(2) vga_offset [OF hit(2)] by (intro note_loop_wide) auto
  then show ?thesis using hit by (simp add: qc_vga_note_store_def)
qed

section \<open>The snapshot loop\<close>

text \<open>
  \<open>screen_text\<close>: the 25 rows joined by newlines; \<open>snap_rest\<close>: what is left of it from a
  row and a column on. The loop, which stops one character before the end of the buffer,
  copies a prefix of it.
\<close>

fun screen_from :: "char list \<Rightarrow> nat \<Rightarrow> char list" where
 "screen_from cells 0 = []"
| "screen_from cells (Suc k) = 
    take VGA_COLS (drop ((VGA_ROWS - Suc k) * VGA_COLS) cells) @ (if k = 0 then [] else LF # screen_from cells k)"

definition screen_text :: "char list \<Rightarrow> string" where
  "screen_text cells = screen_from cells VGA_ROWS"

definition snap_rest :: "char list \<Rightarrow> nat \<Rightarrow> nat \<Rightarrow> char list" where
  "snap_rest cells row col = (if row < VGA_ROWS then take (VGA_COLS - col) (drop (row * VGA_COLS + col) cells) @ 
      (if row + 1 < VGA_ROWS then LF # screen_from cells (VGA_ROWS - Suc row) else []) else [])"

lemma snap_rest_col:
  assumes "row < VGA_ROWS" "col < VGA_COLS" "length cells = VGA_TEXT"
  shows "snap_rest cells row col = cells ! (row * VGA_COLS + col) # snap_rest cells row (Suc col)"
proof -
  have "row * VGA_COLS + col < length cells" using assms by simp
  then have "drop (row * VGA_COLS + col) cells =
      cells ! (row * VGA_COLS + col) # drop (Suc (row * VGA_COLS + col)) cells"
    by (rule Cons_nth_drop_Suc [symmetric])
  then show ?thesis using assms(1,2) by (simp add: snap_rest_def take_Cons')
qed

lemma snap_rest_row:
  assumes "row < VGA_ROWS" "row + 1 < VGA_ROWS" "VGA_COLS \<le> col"
  shows "snap_rest cells row col = LF # snap_rest cells (Suc row) 0"
proof -
  obtain k where k: "VGA_ROWS - Suc row = Suc k" using assms(2) by (metis Suc_diff_Suc Suc_eq_plus1)
  then have "VGA_ROWS - Suc k = Suc row" "VGA_ROWS - Suc (Suc row) = k" by auto
  then show ?thesis using assms k by (auto simp: snap_rest_def)
qed

lemma snap_rest_end:
  "\<not> row + 1 < VGA_ROWS \<Longrightarrow> VGA_COLS \<le> col \<Longrightarrow> snap_rest cells row col = []"
  by (simp add: snap_rest_def)

lemma snap_loop_eq:
  assumes "length cells = VGA_TEXT" "length acc < out_len"
  shows "snap_loop cells out_len row col acc =
           take (out_len - 1) (acc @ snap_rest cells row col)"
  using assms
proof (induction cells out_len row col acc rule: snap_loop.induct)
  case (1 cells out_len row col acc)
  consider (stop) "VGA_ROWS \<le> row" | (col) "row < VGA_ROWS" "col < VGA_COLS"
    | (row) "row + 1 < VGA_ROWS" "VGA_COLS \<le> col" | (last) "row < VGA_ROWS" "\<not> row + 1 < VGA_ROWS" "VGA_COLS \<le> col"
    by linarith
  then show ?case
  proof cases
    case stop
    then show ?thesis using "1.prems" by (subst snap_loop.simps) (simp add: snap_rest_def)
  next
    case col
    then show ?thesis
      using "1.IH"(1) "1.prems" by (subst snap_loop.simps) (auto simp: snap_rest_col)
  next
    case row
    then show ?thesis
      using "1.IH"(2) "1.prems" by (subst snap_loop.simps) (auto simp: snap_rest_row)
  next
    case last
    then show ?thesis
      using "1.IH"(3) "1.prems" by (subst snap_loop.simps) (auto simp: snap_rest_end snap_rest_def)
  qed
qed

lemma snap_rest_0: "snap_rest cells 0 0 = screen_text cells"
  using screen_from.simps(2) [of cells 24]
  by (simp add: snap_rest_def screen_text_def del: screen_from.simps)

lemma length_screen_from:
  "length cells = VGA_TEXT \<Longrightarrow> k \<le> VGA_ROWS \<Longrightarrow>
     length (screen_from cells k) = (if k = 0 then 0 else 81 * k - 1)"
  by (induction k) auto

lemma length_screen_text: "length cells = VGA_TEXT \<Longrightarrow> length (screen_text cells) = 2024"
  by (simp add: screen_text_def length_screen_from)

lemma snapshot_prefix:
  assumes "vga_wf s" "0 < out_len"
  shows "qc_vga_snapshot_text (Some s) out_len =
           (min (out_len - 1) 2024, Some (take (out_len - 1) (screen_text (vtext s))),
            Some (s\<lparr>dirty := False\<rparr>))"
proof -
  have "snap_loop (vtext s) out_len 0 0 [] = take (out_len - 1) (screen_text (vtext s))"
    using assms snap_loop_eq [of "vtext s" "[]" out_len 0 0]
    by (simp add: vga_wf_def snap_rest_0)
  then show ?thesis
    using assms by (simp add: qc_vga_snapshot_text_def length_screen_text vga_wf_def min.commute)
qed

lemma screen_from_nth:
  "length cells = VGA_TEXT \<Longrightarrow> r < k \<Longrightarrow> k \<le> VGA_ROWS \<Longrightarrow> c \<le> VGA_COLS \<Longrightarrow>
     (c = VGA_COLS \<longrightarrow> Suc r < k) \<Longrightarrow>
     screen_from cells k ! (81 * r + c) =
       (if c = VGA_COLS then LF else cells ! ((VGA_ROWS - k + r) * VGA_COLS + c))"
proof (induction k arbitrary: r)
  case 0
  then show ?case by simp
next
  case (Suc k)
  let ?row = "take VGA_COLS (drop ((VGA_ROWS - Suc k) * VGA_COLS) cells)"
  have row: "length ?row = VGA_COLS" using Suc.prems by simp
  show ?case
  proof (cases r)
    case 0
    then show ?thesis using Suc.prems row by (auto simp: nth_append add.commute)
  next
    case (Suc r')
    with Suc.prems have k: "0 < k" "r' < k" by auto
    have "screen_from cells (Suc k) ! (81 * r + c) = screen_from cells k ! (81 * r' + c)"
      using k row Suc by (simp add: nth_append)
    moreover have "VGA_ROWS - Suc k + r = VGA_ROWS - k + r'" using Suc Suc.prems by auto
    ultimately show ?thesis using Suc.IH [of r'] Suc.prems k Suc by auto
  qed
qed

lemma screen_text_nth:
  "length cells = VGA_TEXT \<Longrightarrow> r < VGA_ROWS \<Longrightarrow> c < VGA_COLS \<Longrightarrow>
     screen_text cells ! (81 * r + c) = cells ! (r * VGA_COLS + c)"
  using screen_from_nth [of cells r VGA_ROWS c] by (simp add: screen_text_def)

lemma screen_text_newline:
  "length cells = VGA_TEXT \<Longrightarrow> Suc r < VGA_ROWS \<Longrightarrow> screen_text cells ! (81 * r + 80) = LF"
  using screen_from_nth [of cells r VGA_ROWS 80] by (simp add: screen_text_def)

section \<open>The shadow as a store sink\<close>

definition vga_note :: "u64 \<Rightarrow> u64 \<Rightarrow> nat \<Rightarrow> qc_vga_state \<Rightarrow> qc_vga_state c_result" where
  "vga_note p v n s =
     (case qc_vga_note_store (Some s) p v n of
        Inl e \<Rightarrow> Inl e | Inr None \<Rightarrow> Inr s | Inr (Some s') \<Rightarrow> Inr s')"

definition vga_view :: "qc_vga_state \<Rightarrow> vmem \<times> u64 \<Rightarrow> bool" where
  "vga_view s mc \<longleftrightarrow> vtext s = vga_shadow (fst mc) \<and> write_count s = snd mc"

definition vga_upd :: "u64 \<Rightarrow> u64 \<Rightarrow> nat \<Rightarrow> vmem \<times> u64 \<Rightarrow> vmem \<times> u64" where
  "vga_upd p v n mc = (guest_store (unat p - unat VGA_PHYS) v n (fst mc), snd mc + 1)"

lemma vga_note_hit:
  assumes "vga_wf s" "vga_hit p" "0 < n" "n \<le> 8"
  shows "\<exists>s'. vga_note p v n s = Inr s' \<and> vga_wf s' \<and>
           (vga_view s mc \<longrightarrow> vga_view s' (vga_upd p v n mc))"
proof -
  from vga_wf_shadow [OF assms(1)] obtain m where m: "vtext s = vga_shadow m" ..
  from qc_vga_note_store_tracks [OF assms(2-4) m] obtain s' where
    s': "qc_vga_note_store (Some s) p v n = Inr (Some s')" and
    "vtext s' = vga_shadow (guest_store (unat p - unat VGA_PHYS) v n m)" by auto
  then have "vga_note p v n s = Inr s'" "vga_wf s'"
    by (simp_all add: vga_note_def vga_wf_def)
  moreover have "vga_view s' (vga_upd p v n mc)" if "vga_view s mc"
  proof -
    have "\<exists>t. qc_vga_note_store (Some s) p v n = Inr (Some t) \<and>
        vtext t = vga_shadow (guest_store (unat p - unat VGA_PHYS) v n (fst mc)) \<and>
        write_count t = write_count s + 1"
      using that by (intro qc_vga_note_store_tracks [OF assms(2-4)]) (simp add: vga_view_def)
    with s' that show ?thesis by (simp add: vga_view_def vga_upd_def)
  qed
  ultimately show ?thesis by blast
qed

interpretation vga_sink: tracking_sink vga_note "\<lambda>p n. vga_hit p" vga_wf vga_view vga_upd
proof
  show "vga_note p v n s = Inr s" if "\<not> vga_hit p" for p n v s
    using that by (simp add: vga_note_def qc_vga_note_store_miss)
  show "\<exists>s'. vga_note p v n s = Inr s' \<and> vga_wf s'"
    if "vga_wf s" "0 < n" "n \<le> 8" for s n p v
    using that vga_note_hit [of s p n v]
    by (cases "vga_hit p") (auto simp: vga_note_def qc_vga_note_store_miss)
  show "vga_view s' (vga_upd p v n m)"
    if "vga_wf s" "vga_view s m" "vga_hit p" "0 < n" "n \<le> 8" "vga_note p v n s = Inr s'"
    for s m p n v s'
    using vga_note_hit [OF that(1,3,4,5), of v m] that(2,6) by auto
qed

section \<open>Refresh\<close>

lemma load_cells_vtext:
  assumes "qc_vga_load_cells (Some s) (Some raw) = Some s'"
  shows "length (vtext s') = VGA_TEXT"
    and "i < VGA_TEXT \<Longrightarrow> vtext s' ! i =
           (if i < length raw div 2 then char_of_byte (raw ! (2 * i)) else SP)"
    and "write_count s' = write_count s + 1" and "dirty s'"
  using assms by (auto simp: qc_vga_load_cells_def Let_def nth_append mult.commute)

lemma vga_wf_init: "vga_wf qc_vga_init"
  by (simp add: vga_wf_def qc_vga_init_def)

lemma vga_shadow_init: "vtext qc_vga_init = vga_shadow (\<lambda>k. 0x20)"
  by (rule nth_equalityI)
     (simp_all add: qc_vga_init_def nth_vga_shadow)

lemma vga_view_init: "vga_view qc_vga_init (\<lambda>k. 0x20, 0)"
  using vga_shadow_init by (simp add: vga_view_def) (simp add: qc_vga_init_def)

section \<open>Properties\<close>

text \<open>
  The shadow implements the guest's text buffer. From any well formed shadow that shows
  a memory, every sequence of guest stores of 1 to 8 bytes is handled without undefined
  behaviour, and afterwards the shadow shows the memory to which exactly the stores that
  start in the window were applied, with one more write counted for each of them.
\<close>

theorem vga_tracks_guest_memory:
  assumes "vga_wf s" "vtext s = vga_shadow m" "list_all small_write ws"
  shows "\<exists>s'. run_stores vga_note ws s = Inr s' \<and> vga_wf s' \<and>
           vga_view s' (upd_all (\<lambda>p n. vga_hit p) vga_upd ws (m, write_count s))"
  using vga_sink.run_tracks [of s "(m, write_count s)" ws] assms by (simp add: vga_view_def)

theorem vga_tracks_guest_memory_witness:
  "\<exists>s'. run_stores vga_note [(0xB8000, 0x0F41, 2), (0xB8002, 0x0742, 2), (0x1000, 0x41, 1)]
          qc_vga_init = Inr s' \<and>
        vga_wf s' \<and>
        vga_view s'
          (vga_upd 0xB8002 0x0742 2 (vga_upd 0xB8000 0x0F41 2 (\<lambda>k. 0x20, 0)))"
  using vga_tracks_guest_memory
    [OF vga_wf_init vga_shadow_init, of "[(0xB8000, 0x0F41, 2), (0xB8002, 0x0742, 2), (0x1000, 0x41, 1)]"]
  by (simp add: vga_hit_def qc_vga_init_def)

text \<open>
  A store that starts below the window and reaches into it is not shown: the shadow
  stays as it was, although the guest's first character changed. (The hypercall window
  handles the same situation byte by byte.)
\<close>

theorem vga_straddling_store_lost:
  assumes "vga_wf s" "vtext s = vga_shadow m"
    and "off < n" "n \<le> 8" "0 < off"
    and "byte_of_u64 (drop_bit (8 * off) v) \<noteq> m 0"
  shows "vga_note (VGA_PHYS - of_nat off) v n s = Inr s \<and>
         vtext s \<noteq> vga_shadow (\<lambda>k. guest_store (unat VGA_PHYS - off) v n
                                      (\<lambda>a. m (a - unat VGA_PHYS)) (unat VGA_PHYS + k))"
proof
  have "unat (VGA_PHYS - of_nat off) = unat VGA_PHYS - off"
    using assms(3,4) by (simp add: unat_sub word_le_nat_alt unat_of_nat)
  then have "\<not> vga_hit (VGA_PHYS - of_nat off)"
    using assms(5) by (auto simp: vga_hit_def word_le_nat_alt)
  then show "vga_note (VGA_PHYS - of_nat off) v n s = Inr s" by (rule vga_sink.miss)
  let ?m' = "\<lambda>k. guest_store (unat VGA_PHYS - off) v n (\<lambda>a. m (a - unat VGA_PHYS)) (unat VGA_PHYS + k)"
  have "?m' 0 = byte_of_u64 (drop_bit (8 * off) v)"
    using assms(3-5) by (auto simp: guest_store_def)
  with assms(6) have "char_of_byte (m 0) \<noteq> char_of_byte (?m' 0)"
    by (metis ord_char_of_byte word_unat_eq_iff)
  then show "vtext s \<noteq> vga_shadow ?m'"
    using assms(2) nth_vga_shadow [of 0 m] nth_vga_shadow [of 0 ?m'] by auto
qed

theorem vga_straddling_store_lost_witness:
  "vga_note 0xB7FFF 0x4100 2 qc_vga_init = Inr qc_vga_init"
  using vga_straddling_store_lost [OF vga_wf_init vga_shadow_init, of 1 2 "0x4100"]
  by (simp add: byte_of_u64_def)

text \<open>
  The snapshot is a bounded copy of the screen. With a buffer of \<open>out_len\<close> bytes the
  loops write the first \<open>out_len - 1\<close> characters of the 2024-character screen text, whose
  character \<open>81 * r + c\<close> is the cell of row \<open>r\<close> and column \<open>c\<close> and which has a newline
  after every row but the last; only \<open>dirty\<close> changes.
\<close>

theorem vga_snapshot_bounded_copy:
  assumes "vga_wf s" "0 < out_len"
  shows "\<exists>screen. length screen = 2024 \<and>
           (\<forall>r < VGA_ROWS. \<forall>c < VGA_COLS. screen ! (81 * r + c) = vtext s ! (r * VGA_COLS + c)) \<and>
           (\<forall>r < VGA_ROWS - 1. screen ! (81 * r + 80) = LF) \<and>
           qc_vga_snapshot_text (Some s) out_len =
             (min (out_len - 1) 2024, Some (take (out_len - 1) screen),
              Some (s\<lparr>dirty := False\<rparr>))"
  using snapshot_prefix [OF assms] assms(1)
  by (intro exI [of _ "screen_text (vtext s)"])
     (auto simp: vga_wf_def length_screen_text screen_text_nth screen_text_newline)

theorem vga_snapshot_bounded_copy_witness:
  "fst (qc_vga_snapshot_text (Some qc_vga_init) 2033) = 2024 \<and>
   fst (qc_vga_snapshot_text (Some qc_vga_init) 11) = 10"
  using vga_snapshot_bounded_copy [OF vga_wf_init, of 2033]
    vga_snapshot_bounded_copy [OF vga_wf_init, of 11] by auto

end
