(* ===== verification/Queue.thy ===== *)
theory Queue
  imports Vga "HOL-Library.Signed_Division"
begin

text \<open>
  plugin/queue.c: the one-slot work queue on which the server thread leaves a job (refresh
  the VGA shadow, read guest memory) for a vCPU thread.

  The struct is the record \<open>qc_queue\<close>; the caller's buffers live in a heap from addresses to
  byte lists, so that writing to a freed buffer is visible. The code holds the lock except
  while it waits on the condition variable and while a vCPU reads guest memory. Each
  stretch between those points is one definition here (\<open>submit_arm\<close>, \<open>submit_timeout\<close>,
  \<open>submit_finish\<close>, \<open>drain_take\<close>, \<open>drain_commit\<close>); this theory composes them the way one
  thread sees them, theory \<open>Queue_Sched\<close> interleaves them.

  While a caller waits, time passes and vCPUs run. The list \<open>vcpu_env\<close> says what happens:
  each entry is the milliseconds until the next vCPU calls \<open>qc_queue_drain\<close> and the guest
  memory that it then reads (a function from address and length to QEMU's result code and
  the bytes, which is what \<open>qemu_plugin_read_memory_hwaddr\<close> returns). The end of the list
  means that no vCPU comes any more. \<open>QEMU_PLUGIN_HWADDR_OPERATION_OK\<close> is 0, as the
  name table of the protocol also has it.
\<close>

section \<open>State\<close>

datatype qc_queue_status =
    QC_QUEUE_OK | QC_QUEUE_TIMEOUT | QC_QUEUE_HW_FAIL
  | QC_QUEUE_BUSY | QC_QUEUE_DISABLED | QC_QUEUE_BAD_ARG

datatype qc_job_kind = QC_JOB_NONE | QC_JOB_VGA_REFRESH | QC_JOB_MEM_READ

record qc_queue =
  default_timeout_ms :: int
  q_pending :: bool
  q_done :: bool
  q_cancelled :: bool
  q_kind :: qc_job_kind
  q_status :: qc_queue_status
  q_hw_code :: int
  q_phys :: u64
  q_len :: nat
  q_out :: "nat option"
  q_data_len :: nat

record qc_queue_result =
  r_status :: qc_queue_status
  r_hw_code :: int
  r_data_len :: nat

abbreviation (input) QUEUE_TIMEOUT_MS_DEFAULT :: int where "QUEUE_TIMEOUT_MS_DEFAULT \<equiv> 250"
abbreviation (input) MEM_READ_MAX :: nat where "MEM_READ_MAX \<equiv> 4096"

type_synonym heap = "nat \<Rightarrow> byte list option"
type_synonym hw_answer = "int \<times> byte list"
type_synonym guest_reader = "u64 \<Rightarrow> nat \<Rightarrow> hw_answer"
type_synonym vcpu_env = "(int \<times> guest_reader) list"

text \<open>What the queue's operations touch: the queue, the callers' buffers, the shadow.\<close>

record qsys =
  sq :: qc_queue
  sheap :: heap
  svga :: "qc_vga_state option"

section \<open>Creation and parameters\<close>

definition qc_queue_create :: "bool \<Rightarrow> int \<Rightarrow> qc_queue option" where
  "qc_queue_create calloc_ok timeout_ms =
     (if \<not> calloc_ok then None
      else Some \<lparr>default_timeout_ms =
                   (if timeout_ms > 0 then timeout_ms else QUEUE_TIMEOUT_MS_DEFAULT),
                 q_pending = False, q_done = False, q_cancelled = False,
                 q_kind = QC_JOB_NONE, q_status = QC_QUEUE_OK, q_hw_code = 0, q_phys = 0,
                 q_len = 0, q_out = None, q_data_len = 0\<rparr>)"

text \<open>The state that \<open>qc_queue_destroy\<close> leaves for woken waiters, before it frees the queue.\<close>

definition qc_queue_destroy :: "qc_queue \<Rightarrow> qc_queue" where
  "qc_queue_destroy q = q\<lparr>q_cancelled := True, q_pending := False, q_done := True\<rparr>"

definition qc_queue_set_timeout_ms :: "qc_queue option \<Rightarrow> int \<Rightarrow> qc_queue option" where
  "qc_queue_set_timeout_ms q timeout_ms =
     map_option (\<lambda>q. q\<lparr>default_timeout_ms :=
       (if timeout_ms > 0 then timeout_ms else QUEUE_TIMEOUT_MS_DEFAULT)\<rparr>) q"

definition qc_queue_timeout_ms :: "qc_queue option \<Rightarrow> int" where
  "qc_queue_timeout_ms q =
     (case q of Some q \<Rightarrow> default_timeout_ms q | None \<Rightarrow> QUEUE_TIMEOUT_MS_DEFAULT)"

record timespec =
  tv_sec :: int
  tv_nsec :: int

definition timespec_add_ms :: "timespec \<Rightarrow> int \<Rightarrow> timespec" where
  "timespec_add_ms ts ms =
     (let ts = ts\<lparr>tv_sec := tv_sec ts + ms sdiv 1000,
                  tv_nsec := tv_nsec ts + (ms smod 1000) * 1000000\<rparr>
      in if 1000000000 \<le> tv_nsec ts
         then ts\<lparr>tv_sec := tv_sec ts + 1, tv_nsec := tv_nsec ts - 1000000000\<rparr>
         else ts)"

section \<open>The stretches under the lock\<close>

definition set_vga_job :: "qc_queue \<Rightarrow> qc_queue" where
  "set_vga_job q = q\<lparr>q_kind := QC_JOB_VGA_REFRESH, q_out := None, q_phys := VGA_PHYS,
                     q_len := VGA_BYTES\<rparr>"

definition set_mem_job :: "u64 \<Rightarrow> nat \<Rightarrow> nat \<Rightarrow> qc_queue \<Rightarrow> qc_queue" where
  "set_mem_job phys n out q = q\<lparr>q_kind := QC_JOB_MEM_READ, q_phys := phys, q_len := n,
                                q_out := Some out\<rparr>"

definition submit_busy :: "qc_queue \<Rightarrow> bool" where
  "submit_busy q \<longleftrightarrow> q_pending q \<and> \<not> q_done q"

definition submit_arm :: "qc_queue \<Rightarrow> qc_queue" where
  "submit_arm q = q\<lparr>q_pending := True, q_done := False, q_cancelled := False,
                    q_status := QC_QUEUE_TIMEOUT, q_hw_code := 0, q_data_len := 0\<rparr>"

definition submit_timeout :: "qc_queue \<Rightarrow> qc_queue" where
  "submit_timeout q = q\<lparr>q_cancelled := True, q_pending := False, q_done := True\<rparr>"

definition submit_finish :: "qc_queue \<Rightarrow> qc_queue_result \<times> qc_queue" where
  "submit_finish q =
     (\<lparr>r_status = q_status q, r_hw_code = q_hw_code q, r_data_len = q_data_len q\<rparr>,
      q\<lparr>q_pending := False, q_kind := QC_JOB_NONE\<rparr>)"

definition result_of :: "qc_queue_status \<Rightarrow> qc_queue_result" where
  "result_of st = \<lparr>r_status = st, r_hw_code = 0, r_data_len = 0\<rparr>"

record drain_job =
  j_kind :: qc_job_kind
  j_phys :: u64
  j_len :: nat
  j_out :: "nat option"

definition drain_take :: "qc_queue \<Rightarrow> (drain_job \<times> qc_queue) option" where
  "drain_take q =
     (if \<not> q_pending q \<or> q_done q \<or> q_cancelled q then None
      else Some (\<lparr>j_kind = q_kind q, j_phys = q_phys q, j_len = q_len q, j_out = q_out q\<rparr>,
                 q\<lparr>q_pending := False\<rparr>))"

text \<open>\<open>memcpy(out, bytes, length bytes)\<close> into a buffer of the heap.\<close>

definition heap_copy :: "heap \<Rightarrow> nat \<Rightarrow> byte list \<Rightarrow> heap c_result" where
  "heap_copy h p bytes =
     (case h p of
        None \<Rightarrow> Inl Use_After_Free
      | Some old \<Rightarrow>
          if length old < length bytes then Inl Out_Of_Bounds
          else Inr (h(p \<mapsto> bytes @ drop (length bytes) old)))"

definition drain_commit :: "drain_job \<Rightarrow> hw_answer \<Rightarrow> qsys \<Rightarrow> qsys c_result" where
  "drain_commit job ans s =
     (let q = sq s; (code, buf) = ans in
      if q_cancelled q then Inr (s\<lparr>sq := q\<lparr>q_done := True\<rparr>\<rparr>)
      else
        (let q = q\<lparr>q_hw_code := code\<rparr>;
             fin = (\<lambda>st n. q\<lparr>q_status := st, q_data_len := n, q_done := True\<rparr>)
         in
         if code = 0 \<and> 0 < length buf then
           (if j_kind job = QC_JOB_VGA_REFRESH \<and> svga s \<noteq> None then
              Inr (s\<lparr>svga := qc_vga_load_cells (svga s) (Some buf),
                     sq := fin QC_QUEUE_OK (length buf)\<rparr>)
            else if j_kind job = QC_JOB_MEM_READ \<and> j_out job \<noteq> None then
              (let n = (if length buf < j_len job then length buf else j_len job) in
               case heap_copy (sheap s) (the (j_out job)) (take n buf) of
                 Inl e \<Rightarrow> Inl e
               | Inr h \<Rightarrow> Inr (s\<lparr>sheap := h, sq := fin QC_QUEUE_OK n\<rparr>))
            else Inr (s\<lparr>sq := fin QC_QUEUE_HW_FAIL (q_data_len q)\<rparr>))
         else Inr (s\<lparr>sq := fin QC_QUEUE_HW_FAIL (q_data_len q)\<rparr>)))"

section \<open>The operations\<close>

definition qc_queue_drain :: "guest_reader \<Rightarrow> qsys \<Rightarrow> qsys c_result" where
  "qc_queue_drain rd s =
     (case drain_take (sq s) of
        None \<Rightarrow> Inr s
      | Some (job, q) \<Rightarrow> drain_commit job (rd (j_phys job) (j_len job)) (s\<lparr>sq := q\<rparr>))"

text \<open>
  The two waiting loops of \<open>submit_and_wait\<close>, with \<open>t\<close> milliseconds left. They return
  whether the awaited condition came before the deadline, what is left of the environment,
  and the state.
\<close>

fun wait_until :: "(qc_queue \<Rightarrow> bool) \<Rightarrow> int \<Rightarrow> vcpu_env \<Rightarrow> qsys \<Rightarrow> (bool \<times> vcpu_env \<times> qsys) c_result" where
  "wait_until cond t [] s = Inr (cond (sq s), [], s)"
| "wait_until cond t ((dt, rd) # env) s =
     (if cond (sq s) then Inr (True, (dt, rd) # env, s)
      else if t \<le> dt then Inr (False, (dt - t, rd) # env, s)
      else (case qc_queue_drain rd s of
              Inl e \<Rightarrow> Inl e
            | Inr s' \<Rightarrow> wait_until cond (t - dt) env s'))"

definition submit_and_wait ::
    "int \<Rightarrow> vcpu_env \<Rightarrow> qsys \<Rightarrow> (qc_queue_result \<times> vcpu_env \<times> qsys) c_result" where
  "submit_and_wait timeout_ms env s =
     (case wait_until (\<lambda>q. \<not> submit_busy q) timeout_ms env s of
        Inl e \<Rightarrow> Inl e
      | Inr (free, env, s) \<Rightarrow>
          if \<not> free then Inr (result_of QC_QUEUE_BUSY, env, s)
          else (case wait_until q_done timeout_ms env (s\<lparr>sq := submit_arm (sq s)\<rparr>) of
                  Inl e \<Rightarrow> Inl e
                | Inr (completed, env, s) \<Rightarrow>
                    if \<not> completed
                    then Inr (result_of QC_QUEUE_TIMEOUT, env, s\<lparr>sq := submit_timeout (sq s)\<rparr>)
                    else (let (r, q) = submit_finish (sq s) in Inr (r, env, s\<lparr>sq := q\<rparr>))))"

text \<open>\<open>q_null\<close>: the queue handle is NULL; the buffer of a read is an address of the heap.\<close>

definition qc_queue_request_vga_refresh ::
    "bool \<Rightarrow> int \<Rightarrow> vcpu_env \<Rightarrow> qsys \<Rightarrow> (qc_queue_result \<times> vcpu_env \<times> qsys) c_result" where
  "qc_queue_request_vga_refresh q_null timeout_override env s =
     (if q_null \<or> svga s = None then Inr (result_of QC_QUEUE_DISABLED, env, s)
      else
        (let timeout_ms = (if timeout_override > 0 then timeout_override
                           else default_timeout_ms (sq s))
         in submit_and_wait timeout_ms env (s\<lparr>sq := set_vga_job (sq s)\<rparr>)))"

definition qc_queue_request_mem_read ::
    "bool \<Rightarrow> u64 \<Rightarrow> nat \<Rightarrow> nat option \<Rightarrow> int \<Rightarrow> vcpu_env \<Rightarrow> qsys \<Rightarrow>
       (qc_queue_result \<times> vcpu_env \<times> qsys) c_result" where
  "qc_queue_request_mem_read q_null phys n out timeout_override env s =
     (if q_null \<or> out = None \<or> n = 0 \<or> MEM_READ_MAX < n
      then Inr (result_of QC_QUEUE_BAD_ARG, env, s)
      else
        (let timeout_ms = (if timeout_override > 0 then timeout_override
                           else default_timeout_ms (sq s))
         in submit_and_wait timeout_ms env (s\<lparr>sq := set_mem_job phys n (the out) (sq s)\<rparr>)))"

section \<open>One request at a time\<close>

text \<open>
  Between two requests of one client the slot is free. A request then arms it, and either
  the first vCPU to come in time serves it, or the deadline passes.
\<close>

definition slot_free :: "qc_queue \<Rightarrow> bool" where
  "slot_free q \<longleftrightarrow> \<not> q_pending q"

text \<open>The slot after a request: free again, with the same default timeout.\<close>

definition slot_after :: "qc_queue \<Rightarrow> qc_queue \<Rightarrow> bool" where
  "slot_after q q' \<longleftrightarrow> slot_free q' \<and> default_timeout_ms q' = default_timeout_ms q"

lemma slot_free_set_job [simp]:
  "slot_free (set_mem_job phys n out q) = slot_free q"
  "slot_free (set_vga_job q) = slot_free q"
  by (simp_all add: slot_free_def set_mem_job_def set_vga_job_def)

lemma wait_until_now: "cond (sq s) \<Longrightarrow> wait_until cond t env s = Inr (True, env, s)"
  by (cases env) auto

lemma slot_free_not_busy: "slot_free q \<Longrightarrow> \<not> submit_busy q"
  by (simp add: slot_free_def submit_busy_def)

definition armed_job :: "qc_queue \<Rightarrow> drain_job" where
  "armed_job q = \<lparr>j_kind = q_kind q, j_phys = q_phys q, j_len = q_len q, j_out = q_out q\<rparr>"

lemma armed_set_job [simp]:
  "armed_job (set_mem_job phys n p q) =
     \<lparr>j_kind = QC_JOB_MEM_READ, j_phys = phys, j_len = n, j_out = Some p\<rparr>"
  "armed_job (set_vga_job q) =
     \<lparr>j_kind = QC_JOB_VGA_REFRESH, j_phys = VGA_PHYS, j_len = VGA_BYTES, j_out = None\<rparr>"
  "q_phys (set_mem_job phys n p q) = phys" "q_len (set_mem_job phys n p q) = n"
  "q_phys (set_vga_job q) = VGA_PHYS" "q_len (set_vga_job q) = VGA_BYTES"
  by (simp_all add: armed_job_def set_mem_job_def set_vga_job_def)

lemma drain_take_armed:
  "drain_take (submit_arm q) = Some (armed_job q, (submit_arm q)\<lparr>q_pending := False\<rparr>)"
  by (simp add: drain_take_def submit_arm_def armed_job_def)

lemma drain_commit_done: "drain_commit job ans s = Inr s' \<Longrightarrow> q_done (sq s')"
  by (auto simp: drain_commit_def Let_def split: prod.splits if_splits sum.splits)

lemma drain_commit_pending:
  "drain_commit job ans s = Inr s' \<Longrightarrow> q_pending (sq s') = q_pending (sq s)"
  by (auto simp: drain_commit_def Let_def split: prod.splits if_splits sum.splits)

lemma submit_served:
  assumes "slot_free (sq s)" "dt < t"
    and "drain_commit (armed_job (sq s)) (rd (q_phys (sq s)) (q_len (sq s)))
           (s\<lparr>sq := (submit_arm (sq s))\<lparr>q_pending := False\<rparr>\<rparr>) = Inr s'"
  shows "submit_and_wait t ((dt, rd) # env) s =
           Inr (fst (submit_finish (sq s')), env, s'\<lparr>sq := snd (submit_finish (sq s'))\<rparr>)"
proof -
  have "qc_queue_drain rd (s\<lparr>sq := submit_arm (sq s)\<rparr>) = Inr s'"
    using assms(3) by (simp add: qc_queue_drain_def drain_take_armed) (simp add: armed_job_def)
  moreover have "\<not> q_done (submit_arm (sq s))" by (simp add: submit_arm_def)
  ultimately have "wait_until q_done t ((dt, rd) # env) (s\<lparr>sq := submit_arm (sq s)\<rparr>) =
      Inr (True, env, s')"
    using assms(2) drain_commit_done [OF assms(3)] by (simp add: wait_until_now)
  then show ?thesis
    using assms(1)
    by (simp add: submit_and_wait_def wait_until_now slot_free_not_busy split_beta)
qed

text \<open>No vCPU comes in time: the list is empty or its first entry is too late.\<close>

definition too_late :: "int \<Rightarrow> vcpu_env \<Rightarrow> bool" where
  "too_late t env \<longleftrightarrow> (case env of [] \<Rightarrow> True | (dt, rd) # _ \<Rightarrow> t \<le> dt)"

definition env_after :: "int \<Rightarrow> vcpu_env \<Rightarrow> vcpu_env" where
  "env_after t env = (case env of [] \<Rightarrow> [] | (dt, rd) # rest \<Rightarrow> (dt - t, rd) # rest)"

lemma submit_timed_out:
  assumes "slot_free (sq s)" "too_late t env"
  shows "submit_and_wait t env s =
           Inr (result_of QC_QUEUE_TIMEOUT, env_after t env,
                s\<lparr>sq := submit_timeout (submit_arm (sq s))\<rparr>)"
proof -
  have "wait_until q_done t env (s\<lparr>sq := submit_arm (sq s)\<rparr>) =
      Inr (False, env_after t env, s\<lparr>sq := submit_arm (sq s)\<rparr>)"
    using assms(2)
    by (cases env) (auto simp: submit_arm_def too_late_def env_after_def)
  then show ?thesis
    using assms(1) by (simp add: submit_and_wait_def wait_until_now slot_free_not_busy)
qed

lemma submit_arm_fields [simp]:
  "q_cancelled (submit_arm q) = False" "q_data_len (submit_arm q) = 0"
  "q_kind (submit_arm q) = q_kind q" "q_pending (submit_arm q)"
  by (simp_all add: submit_arm_def)

lemma timeout_kept [frame_simps]:
  "default_timeout_ms (submit_arm q) = default_timeout_ms q"
  "default_timeout_ms (set_mem_job phys n p q) = default_timeout_ms q"
  "default_timeout_ms (set_vga_job q) = default_timeout_ms q"
  by (simp_all add: submit_arm_def set_mem_job_def set_vga_job_def)

definition effective_timeout :: "int \<Rightarrow> qc_queue \<Rightarrow> int" where
  "effective_timeout timeout_override q =
     (if timeout_override > 0 then timeout_override else default_timeout_ms q)"

text \<open>What a served read leaves in the caller's buffer.\<close>

definition read_into :: "byte list \<Rightarrow> byte list \<Rightarrow> byte list" where
  "read_into bytes old = (let m = min (length bytes) (length old) in take m bytes @ drop m old)"

lemma mem_read_served:
  assumes "slot_free (sq s)" "0 < n" "n \<le> MEM_READ_MAX"
    and "sheap s p = Some old" "length old = n"
    and "dt < effective_timeout ovr (sq s)" "rd phys n = (code, buf)"
  shows "\<exists>q'. slot_after (sq s) q' \<and>
    qc_queue_request_mem_read False phys n (Some p) ovr ((dt, rd) # env) s =
      (if code = 0 \<and> buf \<noteq> []
       then Inr (\<lparr>r_status = QC_QUEUE_OK, r_hw_code = 0, r_data_len = min (length buf) n\<rparr>, env,
                 s\<lparr>sq := q', sheap := (sheap s)(p \<mapsto> read_into buf old)\<rparr>)
       else Inr (\<lparr>r_status = QC_QUEUE_HW_FAIL, r_hw_code = code, r_data_len = 0\<rparr>, env,
                 s\<lparr>sq := q'\<rparr>))"
proof -
  let ?s = "s\<lparr>sq := set_mem_job phys n p (sq s)\<rparr>"
  let ?t = "if ovr > 0 then ovr else default_timeout_ms (sq s)"
  let ?armed = "?s\<lparr>sq := (submit_arm (sq ?s))\<lparr>q_pending := False\<rparr>\<rparr>"
  have free: "slot_free (sq ?s)" using assms(1) by simp
  have t: "dt < ?t" using assms(6) by (simp add: effective_timeout_def)
  show ?thesis
  proof (cases "code = 0 \<and> buf \<noteq> []")
    case True
    let ?m = "min (length buf) n"
    have copy:
      "length buf < n \<Longrightarrow> heap_copy (sheap s) p buf = Inr ((sheap s)(p \<mapsto> read_into buf old))"
      "\<not> length buf < n \<Longrightarrow>
         heap_copy (sheap s) p (take n buf) = Inr ((sheap s)(p \<mapsto> read_into buf old))"
      using assms(4,5) by (simp_all add: heap_copy_def read_into_def min_def Let_def)
    let ?d = "?armed\<lparr>sheap := (sheap s)(p \<mapsto> read_into buf old),
                    sq := (sq ?armed)\<lparr>q_hw_code := 0, q_status := QC_QUEUE_OK,
                            q_data_len := ?m, q_done := True\<rparr>\<rparr>"
    have "drain_commit (armed_job (sq ?s)) (rd (q_phys (sq ?s)) (q_len (sq ?s))) ?armed = Inr ?d"
      using True copy by (simp add: drain_commit_def assms(7) Let_def)
    from submit_served [where rd = rd and env = env, OF free t this] True show ?thesis
      using assms(2,3)
      by (intro exI [of _ "snd (submit_finish (sq ?d))"])
        (auto simp: qc_queue_request_mem_read_def Let_def submit_finish_def slot_after_def slot_free_def timeout_kept)
  next
    case False
    let ?d = "?armed\<lparr>sq := (sq ?armed)\<lparr>q_hw_code := code, q_status := QC_QUEUE_HW_FAIL,
                            q_data_len := 0, q_done := True\<rparr>\<rparr>"
    from False have "drain_commit (armed_job (sq ?s)) (rd (q_phys (sq ?s)) (q_len (sq ?s))) ?armed
        = Inr ?d"
      by (auto simp: drain_commit_def assms(7) Let_def)
    from submit_served [where rd = rd and env = env, OF free t this] False show ?thesis
      using assms(2,3)
      by (intro exI [of _ "snd (submit_finish (sq ?d))"])
        (auto simp: qc_queue_request_mem_read_def Let_def submit_finish_def slot_after_def slot_free_def timeout_kept)
  qed
qed

lemma mem_read_too_late:
  assumes "slot_free (sq s)" "0 < n" "n \<le> MEM_READ_MAX"
    and "too_late (effective_timeout ovr (sq s)) env"
  shows "qc_queue_request_mem_read False phys n (Some p) ovr env s =
    Inr (result_of QC_QUEUE_TIMEOUT, env_after (effective_timeout ovr (sq s)) env,
         s\<lparr>sq := submit_timeout (submit_arm (set_mem_job phys n p (sq s)))\<rparr>)"
  using submit_timed_out [of "s\<lparr>sq := set_mem_job phys n p (sq s)\<rparr>"] assms
  by (simp add: qc_queue_request_mem_read_def effective_timeout_def Let_def)

lemma slot_free_timeout [simp]: "slot_free (submit_timeout q)"
  by (simp add: slot_free_def submit_timeout_def)

lemma slot_after_timeout [simp]:
  "slot_after q (submit_timeout (submit_arm (set_mem_job phys n p q)))"
  "slot_after q (submit_timeout (submit_arm (set_vga_job q)))"
  by (simp_all add: slot_after_def slot_free_def submit_timeout_def timeout_kept)

lemma refresh_served:
  assumes "slot_free (sq s)" "svga s = Some st"
    and "dt < effective_timeout ovr (sq s)" "rd VGA_PHYS VGA_BYTES = (code, buf)"
  shows "\<exists>q'. slot_after (sq s) q' \<and>
    qc_queue_request_vga_refresh False ovr ((dt, rd) # env) s =
      (if code = 0 \<and> buf \<noteq> []
       then Inr (\<lparr>r_status = QC_QUEUE_OK, r_hw_code = 0, r_data_len = length buf\<rparr>, env,
                 s\<lparr>sq := q', svga := qc_vga_load_cells (Some st) (Some buf)\<rparr>)
       else Inr (\<lparr>r_status = QC_QUEUE_HW_FAIL, r_hw_code = code, r_data_len = 0\<rparr>, env,
                 s\<lparr>sq := q'\<rparr>))"
proof -
  let ?s = "s\<lparr>sq := set_vga_job (sq s)\<rparr>"
  let ?t = "if ovr > 0 then ovr else default_timeout_ms (sq s)"
  let ?armed = "?s\<lparr>sq := (submit_arm (sq ?s))\<lparr>q_pending := False\<rparr>\<rparr>"
  let ?d = "if code = 0 \<and> buf \<noteq> []
     then ?armed\<lparr>svga := qc_vga_load_cells (Some st) (Some buf),
                 sq := (sq ?armed)\<lparr>q_hw_code := 0, q_status := QC_QUEUE_OK,
                         q_data_len := length buf, q_done := True\<rparr>\<rparr>
     else ?armed\<lparr>sq := (sq ?armed)\<lparr>q_hw_code := code, q_status := QC_QUEUE_HW_FAIL,
                         q_data_len := 0, q_done := True\<rparr>\<rparr>"
  have free: "slot_free (sq ?s)" using assms(1) by simp
  have t: "dt < ?t" using assms(3) by (simp add: effective_timeout_def)
  have "drain_commit (armed_job (sq ?s)) (rd (q_phys (sq ?s)) (q_len (sq ?s))) ?armed = Inr ?d"
    using assms(2) by (simp add: drain_commit_def assms(4) Let_def)
  from submit_served [where rd = rd and env = env, OF free t this] show ?thesis
    using assms(2)
    by (intro exI [of _ "snd (submit_finish (sq ?d))"])
      (auto simp: qc_queue_request_vga_refresh_def Let_def submit_finish_def slot_after_def slot_free_def timeout_kept)
qed

lemma refresh_too_late:
  assumes "slot_free (sq s)" "svga s \<noteq> None"
    and "too_late (effective_timeout ovr (sq s)) env"
  shows "qc_queue_request_vga_refresh False ovr env s =
    Inr (result_of QC_QUEUE_TIMEOUT, env_after (effective_timeout ovr (sq s)) env,
         s\<lparr>sq := submit_timeout (submit_arm (set_vga_job (sq s)))\<rparr>)"
  using submit_timed_out [of "s\<lparr>sq := set_vga_job (sq s)\<rparr>"] assms
  by (auto simp: qc_queue_request_vga_refresh_def effective_timeout_def Let_def)

lemma mem_read_outcome:
  assumes "slot_free (sq s)" and "sheap s p = Some old" and "length old = n"
  shows "\<exists>q'. slot_after (sq s) q' \<and>
    qc_queue_request_mem_read False phys n (Some p) ovr env s = Inr
      (if n = 0 \<or> MEM_READ_MAX < n then (result_of QC_QUEUE_BAD_ARG, env, s)
       else if too_late (effective_timeout ovr (sq s)) env
       then (result_of QC_QUEUE_TIMEOUT, env_after (effective_timeout ovr (sq s)) env,
             s\<lparr>sq := q'\<rparr>)
       else (let (code, buf) = snd (hd env) phys n in
             if code = 0 \<and> buf \<noteq> []
             then (\<lparr>r_status = QC_QUEUE_OK, r_hw_code = 0, r_data_len = min (length buf) n\<rparr>,
                   tl env, s\<lparr>sq := q', sheap := (sheap s)(p \<mapsto> read_into buf old)\<rparr>)
             else (\<lparr>r_status = QC_QUEUE_HW_FAIL, r_hw_code = code, r_data_len = 0\<rparr>,
                   tl env, s\<lparr>sq := q'\<rparr>)))"
proof (cases "n = 0 \<or> MEM_READ_MAX < n")
  case True
  with assms(1) show ?thesis by (intro exI [of _ "sq s"]) (auto simp: qc_queue_request_mem_read_def slot_after_def)
next
  case False
  then have n: "0 < n" "n \<le> MEM_READ_MAX" by auto
  show ?thesis
  proof (cases "too_late (effective_timeout ovr (sq s)) env")
    case True
    from mem_read_too_late [OF assms(1) n True] n show ?thesis
      by (intro exI [of _ "submit_timeout (submit_arm (set_mem_job phys n p (sq s)))"]) (simp add: True)
  next
    case late: False
    then obtain dt rd rest where env: "env = (dt, rd) # rest" "dt < effective_timeout ovr (sq s)"
      by (auto simp: too_late_def split: list.splits)
    obtain code buf where "rd phys n = (code, buf)" by fastforce
    from mem_read_served [where env = rest and rd = rd, OF assms(1) n assms(2,3) env(2) this] this n env late show ?thesis
      by auto
  qed
qed

lemma refresh_outcome:
  assumes "slot_free (sq s)" and "svga s = Some st"
  shows "\<exists>q'. slot_after (sq s) q' \<and>
    qc_queue_request_vga_refresh False ovr env s = Inr
      (if too_late (effective_timeout ovr (sq s)) env
       then (result_of QC_QUEUE_TIMEOUT, env_after (effective_timeout ovr (sq s)) env,
             s\<lparr>sq := q'\<rparr>)
       else (let (code, buf) = snd (hd env) VGA_PHYS VGA_BYTES in
             if code = 0 \<and> buf \<noteq> []
             then (\<lparr>r_status = QC_QUEUE_OK, r_hw_code = 0, r_data_len = length buf\<rparr>, tl env,
                   s\<lparr>sq := q', svga := qc_vga_load_cells (Some st) (Some buf)\<rparr>)
             else (\<lparr>r_status = QC_QUEUE_HW_FAIL, r_hw_code = code, r_data_len = 0\<rparr>, tl env,
                   s\<lparr>sq := q'\<rparr>)))"
proof (cases "too_late (effective_timeout ovr (sq s)) env")
  case True
  from refresh_too_late [OF assms(1) _ True] assms(2) show ?thesis
    by (intro exI [of _ "submit_timeout (submit_arm (set_vga_job (sq s)))"]) (simp add: True)
next
  case late: False
  then obtain dt rd rest where env: "env = (dt, rd) # rest" "dt < effective_timeout ovr (sq s)"
    by (auto simp: too_late_def split: list.splits)
  obtain code buf where rd: "rd VGA_PHYS VGA_BYTES = (code, buf)" by fastforce
  obtain q' where "slot_after (sq s) q'"
    and "qc_queue_request_vga_refresh False ovr ((dt, rd) # rest) s =
      (if code = 0 \<and> buf \<noteq> []
       then Inr (\<lparr>r_status = QC_QUEUE_OK, r_hw_code = 0, r_data_len = length buf\<rparr>, rest,
                 s\<lparr>sq := q', svga := qc_vga_load_cells (Some st) (Some buf)\<rparr>)
       else Inr (\<lparr>r_status = QC_QUEUE_HW_FAIL, r_hw_code = code, r_data_len = 0\<rparr>, rest,
                 s\<lparr>sq := q'\<rparr>))"
    using refresh_served [where env = rest and rd = rd, OF assms env(2) rd] by blast
  then show ?thesis using rd env late by (intro exI [of _ q']) simp
qed

section \<open>Properties\<close>

text \<open>
  C29: a request to read guest memory, made when no other request is under way, ends in one
  of four ways, and none of them is BUSY or undefined: a bad length is refused with nothing
  touched; if no vCPU comes before the deadline the result is TIMEOUT, and neither the
  buffer nor the shadow has changed; otherwise the first vCPU reads exactly the requested
  address and length, and either its bytes (cut to the buffer) are in the buffer and their
  number in the result, or its error code is in the result and the buffer is untouched. In
  every case the slot is free for the next request.
\<close>

theorem queue_mem_read_outcome:
  assumes "slot_free (sq s)" and "sheap s p = Some old" and "length old = n"
  shows "\<exists>q'. slot_after (sq s) q' \<and>
    qc_queue_request_mem_read False phys n (Some p) ovr env s = Inr
      (if n = 0 \<or> MEM_READ_MAX < n then (result_of QC_QUEUE_BAD_ARG, env, s)
       else if too_late (effective_timeout ovr (sq s)) env
       then (result_of QC_QUEUE_TIMEOUT, env_after (effective_timeout ovr (sq s)) env,
             s\<lparr>sq := q'\<rparr>)
       else (let (code, buf) = snd (hd env) phys n in
             if code = 0 \<and> buf \<noteq> []
             then (\<lparr>r_status = QC_QUEUE_OK, r_hw_code = 0, r_data_len = min (length buf) n\<rparr>,
                   tl env, s\<lparr>sq := q', sheap := (sheap s)(p \<mapsto> read_into buf old)\<rparr>)
             else (\<lparr>r_status = QC_QUEUE_HW_FAIL, r_hw_code = code, r_data_len = 0\<rparr>,
                   tl env, s\<lparr>sq := q'\<rparr>)))"
  using mem_read_outcome [OF assms] .

theorem queue_mem_read_outcome_witness:
  "\<exists>q' s'. qc_queue_request_mem_read False 0x1000 2 (Some 7) (- 1)
       [(5, \<lambda>p n. (0, [0xAA, 0xBB]))]
       \<lparr>sq = the (qc_queue_create True 250), sheap = [7 \<mapsto> [0, 0]], svga = None\<rparr>
     = Inr (\<lparr>r_status = QC_QUEUE_OK, r_hw_code = 0, r_data_len = 2\<rparr>, [], s')
       \<and> slot_free q' \<and> sq s' = q' \<and> sheap s' 7 = Some [0xAA, 0xBB]"
  using queue_mem_read_outcome
    [of "\<lparr>sq = the (qc_queue_create True 250), sheap = [7 \<mapsto> [0, 0]], svga = None\<rparr>" 7 "[0, 0]" 2
        "0x1000" "- 1" "[(5, \<lambda>p n. (0, [0xAA, 0xBB]))]"]
  by (auto simp: qc_queue_create_def slot_after_def slot_free_def effective_timeout_def too_late_def read_into_def)

text \<open>
  A refresh of the VGA shadow, made when no other request is under way, is never BUSY:
  without a vCPU in time it ends in TIMEOUT and the shadow is unchanged; otherwise the
  4000 bytes at 0xB8000 are read, and either the shadow is loaded from exactly those bytes,
  or the hardware code is reported and the shadow is unchanged. The callers' buffers are
  never touched and the slot is free afterwards.
\<close>

theorem queue_refresh_outcome:
  assumes "slot_free (sq s)" and "svga s = Some st"
  shows "\<exists>q'. slot_after (sq s) q' \<and>
    qc_queue_request_vga_refresh False ovr env s = Inr
      (if too_late (effective_timeout ovr (sq s)) env
       then (result_of QC_QUEUE_TIMEOUT, env_after (effective_timeout ovr (sq s)) env,
             s\<lparr>sq := q'\<rparr>)
       else (let (code, buf) = snd (hd env) VGA_PHYS VGA_BYTES in
             if code = 0 \<and> buf \<noteq> []
             then (\<lparr>r_status = QC_QUEUE_OK, r_hw_code = 0, r_data_len = length buf\<rparr>, tl env,
                   s\<lparr>sq := q', svga := qc_vga_load_cells (Some st) (Some buf)\<rparr>)
             else (\<lparr>r_status = QC_QUEUE_HW_FAIL, r_hw_code = code, r_data_len = 0\<rparr>, tl env,
                   s\<lparr>sq := q'\<rparr>)))"
  using refresh_outcome [OF assms] .

theorem queue_refresh_outcome_witness:
  "\<exists>s'. qc_queue_request_vga_refresh False 10 [(5, \<lambda>p n. (4, []))]
       \<lparr>sq = the (qc_queue_create True 250), sheap = Map.empty, svga = Some qc_vga_init\<rparr>
     = Inr (\<lparr>r_status = QC_QUEUE_HW_FAIL, r_hw_code = 4, r_data_len = 0\<rparr>, [], s')
       \<and> slot_free (sq s') \<and> svga s' = Some qc_vga_init"
  using queue_refresh_outcome
    [of "\<lparr>sq = the (qc_queue_create True 250), sheap = Map.empty, svga = Some qc_vga_init\<rparr>"
        qc_vga_init 10
        "[(5, \<lambda>p n. (4, []))]"]
  by (auto simp: qc_queue_create_def slot_after_def slot_free_def effective_timeout_def too_late_def)

end
