(* ===== verification/Queue_Sched.thy ===== *)
theory Queue_Sched
  imports Queue
begin

text \<open>
  plugin/queue.c under concurrency: the requesting thread (the socket server, the only
  caller of the two request functions) and any number of vCPU threads, interleaved at the
  points where the code drops the lock. A step of the relation \<open>sched\<close> is one stretch that
  the code runs under the lock, or the caller's use and release of its buffer in
  plugin/protocol.c between two requests.

  The parameter \<open>ans_ok\<close> says which answers a read of guest memory can give; \<open>full_reads\<close> is
  the documented one, an error code or all the bytes. With \<open>quiet\<close> the deadline
  of a wait does not pass while a vCPU is between taking the job and committing it; without
  it, any interleaving of the code is allowed.
\<close>

section \<open>States and steps\<close>

datatype request = Req_Refresh | Req_Read u64 nat

text \<open>
  Where the requesting thread is: outside the queue, in the first waiting loop of
  \<open>submit_and_wait\<close>, in the second, or returned with a result and still holding its buffer.
\<close>

datatype client_pc = C_idle | C_busy | C_wait | C_reply qc_queue_result

record csys =
  sys :: qsys
  cpc :: client_pc
  creq :: request
  cbuf :: nat
  vjob :: "nat \<Rightarrow> drain_job option"
  fault :: "ub option"
  replies :: "(request \<times> qc_queue_result \<times> byte list) list"

type_synonym answers = "u64 \<Rightarrow> nat \<Rightarrow> hw_answer \<Rightarrow> bool"

definition full_reads :: answers where
  "full_reads phys n ans \<longleftrightarrow> (fst ans = 0 \<longrightarrow> length (snd ans) = n)"

definition submit :: "qsys \<Rightarrow> client_pc \<times> qsys" where
  "submit s = (if submit_busy (sq s) then (C_busy, s) else (C_wait, s\<lparr>sq := submit_arm (sq s)\<rparr>))"

definition begin_refresh :: "qsys \<Rightarrow> client_pc \<times> qsys" where
  "begin_refresh s = submit (s\<lparr>sq := set_vga_job (sq s)\<rparr>)"

definition begin_read :: "u64 \<Rightarrow> nat \<Rightarrow> nat \<Rightarrow> byte list \<Rightarrow> qsys \<Rightarrow> client_pc \<times> qsys" where
  "begin_read phys n p old s =
     submit (s\<lparr>sheap := (sheap s)(p \<mapsto> old), sq := set_mem_job phys n p (sq s)\<rparr>)"

text \<open>
  What the handler of \<open>mem_read\<close> reads from its buffer: \<open>hex_encode\<close> goes over \<open>data_len\<close>
  bytes of it. A refresh has no buffer.
\<close>

definition reply_bytes :: "request \<Rightarrow> nat \<Rightarrow> qc_queue_result \<Rightarrow> heap \<Rightarrow> byte list c_result" where
  "reply_bytes req p r h =
     (case req of
        Req_Refresh \<Rightarrow> Inr []
      | Req_Read phys n \<Rightarrow>
          if r_status r \<noteq> QC_QUEUE_OK then Inr []
          else (case h p of
                  None \<Rightarrow> Inl Use_After_Free
                | Some b \<Rightarrow> if length b < r_data_len r then Inl Out_Of_Bounds
                            else Inr (take (r_data_len r) b)))"

definition release :: "request \<Rightarrow> nat \<Rightarrow> qsys \<Rightarrow> qsys" where
  "release req p s = (case req of Req_Refresh \<Rightarrow> s | Req_Read _ _ \<Rightarrow> s\<lparr>sheap := (sheap s)(p := None)\<rparr>)"

inductive sched :: "answers \<Rightarrow> bool \<Rightarrow> csys \<Rightarrow> csys \<Rightarrow> bool" for ans_ok quiet where
  c_refresh:
    "fault s = None \<Longrightarrow> cpc s = C_idle \<Longrightarrow> svga (sys s) \<noteq> None \<Longrightarrow>
     begin_refresh (sys s) = (pc, t) \<Longrightarrow>
     sched ans_ok quiet s (s\<lparr>cpc := pc, sys := t, creq := Req_Refresh\<rparr>)"
| c_read:
    "fault s = None \<Longrightarrow> cpc s = C_idle \<Longrightarrow> 0 < n \<Longrightarrow> n \<le> MEM_READ_MAX \<Longrightarrow>
     sheap (sys s) p = None \<Longrightarrow> length old = n \<Longrightarrow>
     begin_read phys n p old (sys s) = (pc, t) \<Longrightarrow>
     sched ans_ok quiet s (s\<lparr>cpc := pc, sys := t, creq := Req_Read phys n, cbuf := p\<rparr>)"
| c_retry:
    "fault s = None \<Longrightarrow> cpc s = C_busy \<Longrightarrow> submit (sys s) = (pc, t) \<Longrightarrow>
     sched ans_ok quiet s (s\<lparr>cpc := pc, sys := t\<rparr>)"
| c_give_up:
    "fault s = None \<Longrightarrow> cpc s = C_busy \<Longrightarrow>
     sched ans_ok quiet s (s\<lparr>cpc := C_reply (result_of QC_QUEUE_BUSY)\<rparr>)"
| c_done:
    "fault s = None \<Longrightarrow> cpc s = C_wait \<Longrightarrow> q_done (sq (sys s)) \<Longrightarrow>
     submit_finish (sq (sys s)) = (r, q) \<Longrightarrow>
     sched ans_ok quiet s (s\<lparr>cpc := C_reply r, sys := (sys s)\<lparr>sq := q\<rparr>\<rparr>)"
| c_timeout:
    "fault s = None \<Longrightarrow> cpc s = C_wait \<Longrightarrow> quiet \<longrightarrow> vjob s = Map.empty \<Longrightarrow>
     sched ans_ok quiet s
       (s\<lparr>cpc := C_reply (result_of QC_QUEUE_TIMEOUT),
          sys := (sys s)\<lparr>sq := submit_timeout (sq (sys s))\<rparr>\<rparr>)"
| c_return:
    "fault s = None \<Longrightarrow> cpc s = C_reply r \<Longrightarrow>
     reply_bytes (creq s) (cbuf s) r (sheap (sys s)) = Inr bs \<Longrightarrow>
     sched ans_ok quiet s
       (s\<lparr>cpc := C_idle, sys := release (creq s) (cbuf s) (sys s),
          replies := replies s @ [(creq s, r, bs)]\<rparr>)"
| c_fault:
    "fault s = None \<Longrightarrow> cpc s = C_reply r \<Longrightarrow>
     reply_bytes (creq s) (cbuf s) r (sheap (sys s)) = Inl e \<Longrightarrow>
     sched ans_ok quiet s (s\<lparr>fault := Some e\<rparr>)"
| v_take:
    "fault s = None \<Longrightarrow> vjob s v = None \<Longrightarrow> drain_take (sq (sys s)) = Some (job, q) \<Longrightarrow>
     sched ans_ok quiet s (s\<lparr>sys := (sys s)\<lparr>sq := q\<rparr>, vjob := (vjob s)(v \<mapsto> job)\<rparr>)"
| v_commit:
    "fault s = None \<Longrightarrow> vjob s v = Some job \<Longrightarrow> ans_ok (j_phys job) (j_len job) ans \<Longrightarrow>
     drain_commit job ans (sys s) = Inr t \<Longrightarrow>
     sched ans_ok quiet s (s\<lparr>sys := t, vjob := (vjob s)(v := None)\<rparr>)"
| v_fault:
    "fault s = None \<Longrightarrow> vjob s v = Some job \<Longrightarrow> ans_ok (j_phys job) (j_len job) ans \<Longrightarrow>
     drain_commit job ans (sys s) = Inl e \<Longrightarrow>
     sched ans_ok quiet s (s\<lparr>fault := Some e\<rparr>)"

text \<open>A plugin that has just been installed: \<open>ms\<close> is its default timeout.\<close>

definition sched_init :: "int \<Rightarrow> csys" where
  "sched_init ms =
     \<lparr>sys = \<lparr>sq = the (qc_queue_create True ms), sheap = Map.empty, svga = Some qc_vga_init\<rparr>,
      cpc = C_idle, creq = Req_Refresh, cbuf = 0, vjob = Map.empty, fault = None, replies = []\<rparr>"

inductive sched_reach :: "answers \<Rightarrow> bool \<Rightarrow> csys \<Rightarrow> bool" for ans_ok quiet where
  init: "sched_reach ans_ok quiet (sched_init ms)"
| step: "sched_reach ans_ok quiet s \<Longrightarrow> sched ans_ok quiet s t \<Longrightarrow> sched_reach ans_ok quiet t"

inductive_cases schedE: "sched ans_ok quiet s t"

section \<open>One caller never finds the slot busy\<close>

definition not_busy :: "csys \<Rightarrow> bool" where
  "not_busy s \<longleftrightarrow> cpc s \<noteq> C_busy \<and> (cpc s = C_wait \<or> \<not> q_pending (sq (sys s)))
     \<and> (\<forall>r. cpc s = C_reply r \<longrightarrow> r_status r \<noteq> QC_QUEUE_BUSY)
     \<and> q_status (sq (sys s)) \<noteq> QC_QUEUE_BUSY
     \<and> list_all (\<lambda>(req, r, bs). r_status r \<noteq> QC_QUEUE_BUSY) (replies s)"

lemma drain_commit_status:
  "drain_commit job ans s = Inr t \<Longrightarrow> q_status (sq t) = q_status (sq s) \<or>
     q_status (sq t) = QC_QUEUE_OK \<or> q_status (sq t) = QC_QUEUE_HW_FAIL"
  by (auto simp: drain_commit_def Let_def split: prod.splits if_splits sum.splits)

lemma submit_free: "slot_free (sq s) \<Longrightarrow> submit s = (C_wait, s\<lparr>sq := submit_arm (sq s)\<rparr>)"
  by (simp add: submit_def slot_free_not_busy)

lemma begin_read_free:
  "slot_free (sq s) \<Longrightarrow> begin_read phys n p old s =
     (C_wait, s\<lparr>sheap := (sheap s)(p \<mapsto> old), sq := submit_arm (set_mem_job phys n p (sq s))\<rparr>)"
  by (simp add: begin_read_def submit_free)

lemma begin_refresh_free:
  "slot_free (sq s) \<Longrightarrow> begin_refresh s = (C_wait, s\<lparr>sq := submit_arm (set_vga_job (sq s))\<rparr>)"
  by (simp add: begin_refresh_def submit_free)

lemma drain_take_fields:
  "drain_take q = Some (job, q') \<Longrightarrow> q' = q\<lparr>q_pending := False\<rparr> \<and> job = armed_job q
     \<and> q_pending q \<and> \<not> q_done q \<and> \<not> q_cancelled q"
  by (auto simp: drain_take_def armed_job_def split: if_splits)

lemma release_sq [simp]: "sq (release req p s) = sq s" "svga (release req p s) = svga s"
  by (simp_all add: release_def split: request.split)

lemma not_busy_init: "not_busy (sched_init ms)"
  by (simp add: not_busy_def sched_init_def qc_queue_create_def)

lemma not_busy_step:
  assumes "sched ans_ok quiet s t" "not_busy s"
  shows "not_busy t"
  using assms
proof (cases rule: sched.cases)
  case (c_refresh pc t')
  then show ?thesis
    using assms(2)
    by (auto simp: not_busy_def begin_refresh_free slot_free_def submit_arm_def set_vga_job_def)
next
  case (c_read n p old phys pc t')
  then show ?thesis
    using assms(2)
    by (auto simp: not_busy_def begin_read_free slot_free_def submit_arm_def set_mem_job_def)
next
  case (c_done r q)
  then show ?thesis using assms(2) by (auto simp: not_busy_def submit_finish_def)
next
  case (v_take v job q)
  then show ?thesis using assms(2) by (auto simp: not_busy_def dest: drain_take_fields)
next
  case (v_commit v job ans t')
  then show ?thesis
    using assms(2) drain_commit_pending [OF v_commit(5)] drain_commit_status [OF v_commit(5)]
    by (auto simp: not_busy_def)
qed (auto simp: not_busy_def result_of_def submit_timeout_def)

lemma not_busy_reach: "sched_reach ans_ok quiet s \<Longrightarrow> not_busy s"
  by (induction rule: sched_reach.induct) (auto simp: not_busy_init intro: not_busy_step)

section \<open>Quiet runs\<close>

fun job_for :: "request \<Rightarrow> nat \<Rightarrow> drain_job" where
  "job_for Req_Refresh p =
     \<lparr>j_kind = QC_JOB_VGA_REFRESH, j_phys = VGA_PHYS, j_len = VGA_BYTES, j_out = None\<rparr>"
| "job_for (Req_Read phys n) p =
     \<lparr>j_kind = QC_JOB_MEM_READ, j_phys = phys, j_len = n, j_out = Some p\<rparr>"

text \<open>
  A reply is right when it reports a timeout, or the answer of one read of guest memory at
  the address and length of its own request: its code, or its bytes.
\<close>

fun good_reply :: "answers \<Rightarrow> request \<times> qc_queue_result \<times> byte list \<Rightarrow> bool" where
  "good_reply ans_ok (req, r, bs) =
     (let job = job_for req 0 in
      r_status r = QC_QUEUE_TIMEOUT
      \<or> r_status r = QC_QUEUE_HW_FAIL \<and> (\<exists>buf. ans_ok (j_phys job) (j_len job) (r_hw_code r, buf))
      \<or> r_status r = QC_QUEUE_OK \<and>
          (\<exists>buf. ans_ok (j_phys job) (j_len job) (0, buf) \<and>
             (case req of Req_Refresh \<Rightarrow> r_data_len r = length buf
              | Req_Read phys n \<Rightarrow> bs = take n buf \<and> r_data_len r = length bs)))"

definition buf_held :: "request \<Rightarrow> nat \<Rightarrow> heap \<Rightarrow> bool" where
  "buf_held req p h =
     (case req of Req_Refresh \<Rightarrow> True
      | Req_Read phys n \<Rightarrow> (\<exists>b. h p = Some b \<and> length b = n))"

definition reply_ok :: "answers \<Rightarrow> request \<Rightarrow> nat \<Rightarrow> heap \<Rightarrow> qc_queue_result \<Rightarrow> bool" where
  "reply_ok ans_ok req p h r \<longleftrightarrow>
     (\<exists>bs. reply_bytes req p r h = Inr bs \<and> good_reply ans_ok (req, r, bs))"

definition wait_ok :: "answers \<Rightarrow> csys \<Rightarrow> bool" where
  "wait_ok ans_ok s \<longleftrightarrow>
     (let q = sq (sys s) in
      \<not> q_cancelled q \<and>
      (if q_pending q
       then \<not> q_done q \<and> vjob s = Map.empty \<and> armed_job q = job_for (creq s) (cbuf s)
            \<and> buf_held (creq s) (cbuf s) (sheap (sys s))
       else if q_done q
       then vjob s = Map.empty \<and>
            reply_ok ans_ok (creq s) (cbuf s) (sheap (sys s)) (fst (submit_finish q))
       else (\<exists>v. vjob s = [v \<mapsto> job_for (creq s) (cbuf s)])
            \<and> buf_held (creq s) (cbuf s) (sheap (sys s))))"

definition quiet_inv :: "answers \<Rightarrow> csys \<Rightarrow> bool" where
  "quiet_inv ans_ok s \<longleftrightarrow>
     fault s = None \<and> svga (sys s) \<noteq> None \<and> list_all (good_reply ans_ok) (replies s) \<and>
     (case cpc s of
        C_idle \<Rightarrow> slot_free (sq (sys s)) \<and> vjob s = Map.empty
      | C_busy \<Rightarrow> False
      | C_wait \<Rightarrow> wait_ok ans_ok s
      | C_reply r \<Rightarrow> slot_free (sq (sys s)) \<and> vjob s = Map.empty
                      \<and> reply_ok ans_ok (creq s) (cbuf s) (sheap (sys s)) r)"

lemma good_reply_timeout: "reply_ok ans_ok req p h (result_of QC_QUEUE_TIMEOUT)"
  by (cases req) (auto simp: reply_ok_def result_of_def reply_bytes_def)

definition committed :: "answers \<Rightarrow> request \<Rightarrow> nat \<Rightarrow> qsys c_result \<Rightarrow> bool" where
  "committed ans_ok req p res =
     (case res of
        Inl e \<Rightarrow> False
      | Inr t \<Rightarrow> q_done (sq t) \<and> \<not> q_cancelled (sq t) \<and> svga t \<noteq> None
          \<and> reply_ok ans_ok req p (sheap t) (fst (submit_finish (sq t))))"

lemma commit_refresh:
  assumes "svga s \<noteq> None" "\<not> q_cancelled (sq s)" "ans_ok VGA_PHYS VGA_BYTES ans"
  shows "committed ans_ok Req_Refresh p (drain_commit (job_for Req_Refresh p) ans s)"
proof -
  obtain code buf where ans: "ans = (code, buf)" by fastforce
  obtain st where st: "svga s = Some st" using assms(1) by auto
  show ?thesis
    using assms ans st
    by (auto simp: committed_def drain_commit_def Let_def reply_ok_def reply_bytes_def
          submit_finish_def qc_vga_load_cells_def)
qed

lemma commit_read:
  assumes "svga s \<noteq> None" "\<not> q_cancelled (sq s)" "ans_ok phys n ans"
    and "sheap s p = Some b" "length b = n"
  shows "committed ans_ok (Req_Read phys n) p (drain_commit (job_for (Req_Read phys n) p) ans s)"
proof -
  obtain code buf where ans: "ans = (code, buf)" by fastforce
  have copy: "heap_copy (sheap s) p (take m buf) =
      Inr ((sheap s)(p \<mapsto> take m buf @ drop (length (take m buf)) b))" if "m \<le> n" for m
    using assms(4,5) that by (simp add: heap_copy_def)
  show ?thesis
    using assms ans copy [of "length buf"] copy [of n]
    by (auto simp: committed_def drain_commit_def Let_def reply_ok_def reply_bytes_def
          submit_finish_def)
qed

lemma commit_job:
  assumes "svga s \<noteq> None" "\<not> q_cancelled (sq s)" "buf_held req p (sheap s)"
    and "ans_ok (j_phys (job_for req p)) (j_len (job_for req p)) ans"
  shows "committed ans_ok req p (drain_commit (job_for req p) ans s)"
proof (cases req)
  case Req_Refresh
  with assms show ?thesis using commit_refresh by simp
next
  case (Req_Read phys n)
  with assms(3) obtain b where "sheap s p = Some b" "length b = n" by (auto simp: buf_held_def)
  from commit_read [where ans_ok = ans_ok and ans = ans, OF assms(1,2) _ this, of phys] Req_Read assms(4)
  show ?thesis by simp
qed

lemma quiet_init: "quiet_inv ans_ok (sched_init ms)"
  by (simp add: quiet_inv_def sched_init_def qc_queue_create_def slot_free_def)

lemma wait_ok_reply:
  assumes "wait_ok ans_ok s" "q_done (sq (sys s))"
  shows "vjob s = Map.empty \<and> reply_ok ans_ok (creq s) (cbuf s) (sheap (sys s)) (fst (submit_finish (sq (sys s))))"
  using assms by (auto simp: wait_ok_def Let_def split: if_splits)

lemma wait_ok_flight:
  assumes "wait_ok ans_ok s" "vjob s v = Some job"
  shows "vjob s = [v \<mapsto> job_for (creq s) (cbuf s)] \<and> job = job_for (creq s) (cbuf s)
    \<and> \<not> q_cancelled (sq (sys s)) \<and> \<not> q_pending (sq (sys s))
    \<and> buf_held (creq s) (cbuf s) (sheap (sys s))"
proof -
  have "vjob s \<noteq> Map.empty" using assms(2) by auto
  then obtain v' where v': "vjob s = [v' \<mapsto> job_for (creq s) (cbuf s)]"
    and rest: "\<not> q_cancelled (sq (sys s))" "\<not> q_pending (sq (sys s))"
      "buf_held (creq s) (cbuf s) (sheap (sys s))"
    using assms(1) by (auto simp: wait_ok_def Let_def split: if_splits)
  moreover have "v' = v" "job = job_for (creq s) (cbuf s)"
    using assms(2) v' by (auto split: if_splits)
  ultimately show ?thesis by simp
qed

lemma quiet_flight:
  assumes "quiet_inv ans_ok s" "vjob s v = Some job"
    and "ans_ok (j_phys job) (j_len job) ans"
  shows "cpc s = C_wait \<and> vjob s = [v \<mapsto> job_for (creq s) (cbuf s)]
    \<and> \<not> q_pending (sq (sys s))
    \<and> committed ans_ok (creq s) (cbuf s) (drain_commit job ans (sys s))"
proof -
  have wait: "cpc s = C_wait" "wait_ok ans_ok s"
    using assms(1,2) by (auto simp: quiet_inv_def split: client_pc.splits)
  note fl = wait_ok_flight [OF wait(2) assms(2)]
  have "committed ans_ok (creq s) (cbuf s) (drain_commit job ans (sys s))"
    using assms fl commit_job [of "sys s" "creq s" "cbuf s" ans_ok ans] by (auto simp: quiet_inv_def)
  with wait fl show ?thesis by simp
qed

lemma quiet_step:
  assumes "sched ans_ok True s t" "quiet_inv ans_ok s"
  shows "quiet_inv ans_ok t"
  using assms(1)
proof (cases rule: sched.cases)
  case (c_refresh pc t')
  then have free: "slot_free (sq (sys s))" "vjob s = Map.empty"
    using assms(2) by (auto simp: quiet_inv_def)
  with c_refresh have t: "pc = C_wait" "t' = (sys s)\<lparr>sq := submit_arm (set_vga_job (sq (sys s)))\<rparr>"
    by (auto simp: begin_refresh_free)
  have "wait_ok ans_ok t"
    using c_refresh(1) t free by (simp add: wait_ok_def submit_arm_def set_vga_job_def armed_job_def buf_held_def)
  with c_refresh t assms(2) show ?thesis by (auto simp: quiet_inv_def)
next
  case (c_read n p old phys pc t')
  then have free: "slot_free (sq (sys s))" "vjob s = Map.empty"
    using assms(2) by (auto simp: quiet_inv_def)
  with c_read have t: "pc = C_wait" "t' = (sys s)\<lparr>sheap := (sheap (sys s))(p \<mapsto> old),
      sq := submit_arm (set_mem_job phys n p (sq (sys s)))\<rparr>"
    by (auto simp: begin_read_free)
  have "wait_ok ans_ok t"
    using c_read(1,7) t free by (simp add: wait_ok_def submit_arm_def set_mem_job_def armed_job_def buf_held_def)
  with c_read t assms(2) show ?thesis by (auto simp: quiet_inv_def)
next
  case (c_done r q)
  then show ?thesis
    using assms(2) wait_ok_reply [of ans_ok s]
    by (auto simp: quiet_inv_def submit_finish_def slot_free_def)
next
  case c_timeout
  then show ?thesis
    using assms(2) good_reply_timeout by (auto simp: quiet_inv_def)
next
  case (c_return r bs)
  then show ?thesis
    using assms(2) by (auto simp: quiet_inv_def reply_ok_def)
next
  case (c_fault r e)
  then show ?thesis
    using assms(2) by (auto simp: quiet_inv_def reply_ok_def)
next
  case (v_take v job q)
  have "cpc s = C_wait" "wait_ok ans_ok s"
    using assms(2) drain_take_fields [OF v_take(4)]
    by (auto simp: quiet_inv_def slot_free_def split: client_pc.splits)
  then show ?thesis
    using v_take(1,2) assms(2) drain_take_fields [OF v_take(4)]
    by (auto simp: quiet_inv_def wait_ok_def Let_def)
next
  case (v_commit v job ans t')
  then have "cpc s = C_wait" "vjob s = [v \<mapsto> job_for (creq s) (cbuf s)]"
      "\<not> q_pending (sq t')" "committed ans_ok (creq s) (cbuf s) (Inr t')"
    using quiet_flight [OF assms(2) v_commit(3,4)] drain_commit_pending [OF v_commit(5)] by auto
  then show ?thesis
    using v_commit(1,2) assms(2) by (auto simp: quiet_inv_def wait_ok_def Let_def committed_def)
next
  case (v_fault v job ans e)
  then show ?thesis
    using quiet_flight [OF assms(2) v_fault(3,4)] by (simp add: committed_def)
qed (use assms(2) in \<open>auto simp: quiet_inv_def\<close>)

lemma quiet_reach: "sched_reach ans_ok True s \<Longrightarrow> quiet_inv ans_ok s"
  by (induction rule: sched_reach.induct) (auto simp: quiet_init intro: quiet_step)

section \<open>Concrete schedules\<close>

text \<open>
  A schedule as a list of events, run by a function, so that concrete interleavings
  evaluate. A new buffer holds zeros, and a deadline event is refused in a quiet run.
\<close>

datatype event =
    E_refresh | E_read u64 nat nat | E_done | E_timeout | E_return
  | E_take nat | E_commit nat hw_answer

fun exec_event :: "answers \<Rightarrow> bool \<Rightarrow> event \<Rightarrow> csys \<Rightarrow> csys option" where
  "exec_event ok quiet E_refresh s =
     (if fault s = None \<and> cpc s = C_idle \<and> svga (sys s) \<noteq> None
      then (let (pc, t) = begin_refresh (sys s) in Some (s\<lparr>cpc := pc, sys := t, creq := Req_Refresh\<rparr>))
      else None)"
| "exec_event ok quiet (E_read phys n p) s =
     (if fault s = None \<and> cpc s = C_idle \<and> 0 < n \<and> n \<le> MEM_READ_MAX \<and> sheap (sys s) p = None
      then (let (pc, t) = begin_read phys n p (replicate n 0) (sys s)
            in Some (s\<lparr>cpc := pc, sys := t, creq := Req_Read phys n, cbuf := p\<rparr>))
      else None)"
| "exec_event ok quiet E_done s =
     (if fault s = None \<and> cpc s = C_wait \<and> q_done (sq (sys s))
      then (let (r, q) = submit_finish (sq (sys s)) in Some (s\<lparr>cpc := C_reply r, sys := (sys s)\<lparr>sq := q\<rparr>\<rparr>))
      else None)"
| "exec_event ok quiet E_timeout s =
     (if fault s = None \<and> cpc s = C_wait \<and> \<not> quiet
      then Some (s\<lparr>cpc := C_reply (result_of QC_QUEUE_TIMEOUT),
                   sys := (sys s)\<lparr>sq := submit_timeout (sq (sys s))\<rparr>\<rparr>)
      else None)"
| "exec_event ok quiet E_return s =
     (case cpc s of
        C_reply r \<Rightarrow>
          if fault s \<noteq> None then None
          else (case reply_bytes (creq s) (cbuf s) r (sheap (sys s)) of
                  Inl e \<Rightarrow> Some (s\<lparr>fault := Some e\<rparr>)
                | Inr bs \<Rightarrow> Some (s\<lparr>cpc := C_idle, sys := release (creq s) (cbuf s) (sys s),
                                     replies := replies s @ [(creq s, r, bs)]\<rparr>))
      | _ \<Rightarrow> None)"
| "exec_event ok quiet (E_take v) s =
     (case drain_take (sq (sys s)) of
        Some (job, q) \<Rightarrow>
          if fault s = None \<and> vjob s v = None
          then Some (s\<lparr>sys := (sys s)\<lparr>sq := q\<rparr>, vjob := (vjob s)(v \<mapsto> job)\<rparr>) else None
      | None \<Rightarrow> None)"
| "exec_event ok quiet (E_commit v ans) s =
     (case vjob s v of
        Some job \<Rightarrow>
          if fault s = None \<and> ok (j_phys job) (j_len job) ans
          then (case drain_commit job ans (sys s) of
                  Inl e \<Rightarrow> Some (s\<lparr>fault := Some e\<rparr>)
                | Inr t \<Rightarrow> Some (s\<lparr>sys := t, vjob := (vjob s)(v := None)\<rparr>))
          else None
      | None \<Rightarrow> None)"

fun exec_events :: "answers \<Rightarrow> bool \<Rightarrow> event list \<Rightarrow> csys \<Rightarrow> csys option" where
  "exec_events ok quiet [] s = Some s"
| "exec_events ok quiet (e # es) s =
     (case exec_event ok quiet e s of None \<Rightarrow> None | Some t \<Rightarrow> exec_events ok quiet es t)"

lemma exec_event_sched: "exec_event ok quiet e s = Some t \<Longrightarrow> sched ok quiet s t"
proof (cases e)
  case E_return
  assume "exec_event ok quiet e s = Some t"
  with E_return show ?thesis
    by (auto split: client_pc.splits if_splits sum.splits intro: sched.intros)
next
  case (E_read phys n p)
  assume "exec_event ok quiet e s = Some t"
  with E_read show ?thesis
    by (auto split: if_splits prod.splits intro!: sched.c_read [where old = "replicate n 0"])
qed (auto split: if_splits option.splits prod.splits sum.splits intro: sched.intros)

lemma exec_events_reach:
  "exec_events ok quiet es s = Some t \<Longrightarrow> sched_reach ok quiet s \<Longrightarrow> sched_reach ok quiet t"
proof (induction es arbitrary: s)
  case Nil
  then show ?case by simp
next
  case (Cons e es)
  then obtain u where "exec_event ok quiet e s = Some u" "exec_events ok quiet es u = Some t"
    by (auto split: option.splits)
  with Cons sched_reach.step [OF Cons.prems(2) exec_event_sched] show ?case by blast
qed

lemmas exec_defs =
  sched_init_def qc_queue_create_def begin_read_def begin_refresh_def submit_def submit_busy_def
  submit_arm_def set_mem_job_def set_vga_job_def submit_finish_def submit_timeout_def
  drain_take_def drain_commit_def heap_copy_def reply_bytes_def release_def result_of_def
  full_reads_def Let_def

text \<open>A read of two bytes that a vCPU serves.\<close>

definition served_read :: "event list" where
  "served_read = [E_read 0x1000 2 7, E_take 0, E_commit 0 (0, [0xAA, 0xBB]), E_done, E_return]"

text \<open>
  A read times out while a vCPU is reading guest memory for it; its buffer is freed, and
  the next request clears the cancellation before the vCPU commits.
\<close>

definition stale_read :: "event list" where
  "stale_read =
     [E_read 0x1000 16 7, E_take 0, E_timeout, E_return, E_refresh,
      E_commit 0 (0, replicate 16 0xAA)]"

text \<open>
  A refresh times out while a vCPU is reading the 4000 bytes; its completion is then taken
  for that of the 16-byte read that follows.
\<close>

definition stale_refresh :: "event list" where
  "stale_refresh =
     [E_refresh, E_take 0, E_timeout, E_return, E_read 0x1000 16 7,
      E_commit 0 (0, replicate 4000 0x20), E_done, E_return]"

lemma served_read_replies:
  "map_option replies (exec_events full_reads True served_read (sched_init 250)) =
     Some [(Req_Read 0x1000 2, \<lparr>r_status = QC_QUEUE_OK, r_hw_code = 0, r_data_len = 2\<rparr>, [0xAA, 0xBB])]"
  by (simp add: served_read_def exec_defs)

lemma stale_read_fault:
  "map_option fault (exec_events full_reads False stale_read (sched_init 250)) = Some (Some Use_After_Free)"
  by (simp add: stale_read_def exec_defs)

section \<open>Properties\<close>

text \<open>
  C12: as long as no deadline passes while a vCPU is between taking a job and committing it,
  every interleaving of the requesting thread with any number of vCPUs is free of undefined
  behaviour, and every reply is right: it reports a timeout, or it carries the code or
  exactly the bytes of one read of guest memory at the address and length of its own
  request.
\<close>

theorem sched_quiet_exact:
  assumes "sched_reach ans_ok True s"
  shows "fault s = None \<and> list_all (good_reply ans_ok) (replies s)"
  using quiet_reach [OF assms] by (simp add: quiet_inv_def)

theorem sched_quiet_exact_witness:
  "fault (the (exec_events full_reads True served_read (sched_init 250))) = None
   \<and> good_reply full_reads (Req_Read 0x1000 2,
        \<lparr>r_status = QC_QUEUE_OK, r_hw_code = 0, r_data_len = 2\<rparr>, [0xAA, 0xBB])"
proof -
  obtain t where t: "exec_events full_reads True served_read (sched_init 250) = Some t"
    and r: "replies t = [(Req_Read 0x1000 2,
        \<lparr>r_status = QC_QUEUE_OK, r_hw_code = 0, r_data_len = 2\<rparr>, [0xAA, 0xBB])]"
    using served_read_replies by blast
  from exec_events_reach [OF t sched_reach.init] have "sched_reach full_reads True t" .
  from sched_quiet_exact [OF this] t r show ?thesis by simp
qed

text \<open>
  The queue has one caller, and with one caller no reply is ever BUSY: in every
  interleaving, timeouts in flight included, the slot is not pending when a request begins,
  so the first waiting loop of \<open>submit_and_wait\<close> never waits.
\<close>

theorem sched_never_busy:
  assumes "sched_reach ans_ok quiet s"
  shows "cpc s \<noteq> C_busy \<and> (cpc s = C_idle \<longrightarrow> \<not> submit_busy (sq (sys s)))
    \<and> list_all (\<lambda>(req, r, bs). r_status r \<noteq> QC_QUEUE_BUSY) (replies s)"
  using not_busy_reach [OF assms] by (auto simp: not_busy_def submit_busy_def)

theorem sched_never_busy_witness:
  "\<not> submit_busy (sq (sys (sched_init 250)))"
  using sched_never_busy [OF sched_reach.init [of full_reads False 250]]
  by (simp add: sched_init_def)

text \<open>
  C39: Outside quiet runs the cancellation does not protect the caller's buffer: there is an
  interleaving, with a guest memory that answers as documented, in which a vCPU writes the
  bytes of a read that timed out into the buffer that its caller has freed.
\<close>

theorem sched_stale_read_after_free:
  "\<exists>s. sched_reach full_reads False s \<and> fault s = Some Use_After_Free"
  using exec_events_reach [OF _ sched_reach.init] stale_read_fault by blast

text \<open>
  A completion can be taken for another request's: there is an interleaving in which
  the 4000 bytes of a timed-out refresh complete a later read of 16 bytes, whose handler
  then encodes 4000 bytes of its 16-byte buffer into the response.
\<close>

theorem sched_stale_completion_overread:
  "\<exists>s. sched_reach full_reads False s \<and> fault s = Some Out_Of_Bounds \<and> creq s = Req_Read 0x1000 16
     \<and> cpc s = C_reply \<lparr>r_status = QC_QUEUE_OK, r_hw_code = 0, r_data_len = 4000\<rparr>"
proof -
  have "map_option (\<lambda>s. (fault s, creq s, cpc s))
      (exec_events full_reads False stale_refresh (sched_init 250)) =
    Some (Some Out_Of_Bounds, Req_Read 0x1000 16,
          C_reply \<lparr>r_status = QC_QUEUE_OK, r_hw_code = 0, r_data_len = 4000\<rparr>)"
    by (simp add: stale_refresh_def exec_defs)
  then show ?thesis using exec_events_reach [OF _ sched_reach.init] by fastforce
qed

end
