(* ===== verification/Hypercall.thy ===== *)
theory Hypercall
  imports Prelude Interfaces
begin

text \<open>
  plugin/hypercall.c: the guest's 16-byte message window at \<open>0xFEE1DEAD\<close>. The two static
  variables \<open>g_window\<close> and \<open>g_st\<close> are the record \<open>hypercall\<close>; every operation holds the
  mutex for its whole body and is one atomic step. \<open>memcpy\<close> of the window into the message
  struct reads four little endian words (the host is x86, as the unit test assumes).

  Main results: the window implements the guest's memory there, the documented four-word
  message is delivered, storing the magic first raises an event with stale words, and storing
  it last makes the message atomic.
\<close>

section \<open>State\<close>

abbreviation (input) HC_PHYS :: u64 where "HC_PHYS \<equiv> 0xFEE1DEAD"
abbreviation (input) HC_SIZE :: nat where "HC_SIZE \<equiv> 16"
abbreviation (input) HC_MAGIC :: u32 where "HC_MAGIC \<equiv> 0x544E4351"
abbreviation (input) HC_READY :: u32 where "HC_READY \<equiv> 1"
abbreviation (input) HC_EXIT :: u32 where "HC_EXIT \<equiv> 2"
abbreviation (input) HC_LOG :: u32 where "HC_LOG \<equiv> 3"

record qc_hypercall_msg =
  magic :: u32
  cmd :: u32
  status :: u32
  reserved :: u32

record qc_hypercall_state =
  count :: u64
  last_cmd :: u32
  last_status :: u32
  have_event :: bool
  last_name :: string

record hypercall =
  g_window :: "byte list"
  g_st :: qc_hypercall_state

section \<open>Operations\<close>

definition qc_hypercall_init :: hypercall where
  "qc_hypercall_init =
     \<lparr>g_window = replicate HC_SIZE 0,
      g_st = \<lparr>count = 0, last_cmd = 0, last_status = 0, have_event = False, last_name = []\<rparr>\<rparr>"

definition cmd_name :: "u32 \<Rightarrow> string" where
  "cmd_name c =
     (if c = HC_READY then ''READY''
      else if c = HC_EXIT then ''EXIT''
      else if c = HC_LOG then ''LOG''
      else ''UNKNOWN'')"

text \<open>The little endian 32-bit word at offset \<open>k\<close>.\<close>

definition le32 :: "byte list \<Rightarrow> nat \<Rightarrow> u32" where
  "le32 w k = or (ucast (w ! k))
               (or (push_bit 8 (ucast (w ! (k + 1))))
                 (or (push_bit 16 (ucast (w ! (k + 2))))
                     (push_bit 24 (ucast (w ! (k + 3))))))"

definition msg_of_window :: "byte list \<Rightarrow> qc_hypercall_msg" where
  "msg_of_window w = \<lparr>magic = le32 w 0, cmd = le32 w 4, status = le32 w 8, reserved = le32 w 12\<rparr>"

definition try_commit :: "hypercall \<Rightarrow> hypercall" where
  "try_commit h =
     (let msg = msg_of_window (g_window h) in
      if magic msg \<noteq> HC_MAGIC then h
      else h\<lparr>g_st :=
             (g_st h)\<lparr>count := count (g_st h) + 1, last_cmd := cmd msg,
                      last_status := status msg, have_event := True,
                      last_name := snprintf 32 (cmd_name (cmd msg))\<rparr>\<rparr>)"

text \<open>The loop of \<open>qc_hypercall_note_store\<close>; \<open>8 * i < 64\<close> because the size is at most 8.\<close>

function window_loop :: "nat \<Rightarrow> nat \<Rightarrow> u64 \<Rightarrow> u64 \<Rightarrow> byte list \<Rightarrow> byte list" where
  "window_loop i sz phys value w =
     (if i < sz then
        (let a = phys + of_nat i in
         if a < HC_PHYS \<or> HC_PHYS + of_nat HC_SIZE \<le> a
         then window_loop (Suc i) sz phys value w
         else window_loop (Suc i) sz phys value
                (w[unat (a - HC_PHYS) := byte_of_u64 (and (drop_bit (8 * i) value) 0xff)]))
      else w)"
  by pat_completeness auto
termination
  by (relation "measure (\<lambda>(i, sz, phys, value, w). sz - i)") auto

declare window_loop.simps [simp del]

definition qc_hypercall_note_store :: "u64 \<Rightarrow> u64 \<Rightarrow> nat \<Rightarrow> hypercall \<Rightarrow> hypercall" where
  "qc_hypercall_note_store phys value sz h =
     (if phys + of_nat sz \<le> HC_PHYS \<or> HC_PHYS + of_nat HC_SIZE \<le> phys then h
      else if sz = 0 \<or> 8 < sz then h
      else try_commit (h\<lparr>g_window := window_loop 0 sz phys value (g_window h)\<rparr>))"

definition qc_hypercall_snapshot :: "hypercall \<Rightarrow> qc_hypercall_state" where
  "qc_hypercall_snapshot h = g_st h"

text \<open>\<open>None\<close> is the return value \<open>false\<close>, for which \<open>*out\<close> is not written.\<close>

definition qc_hypercall_take_event :: "hypercall \<Rightarrow> qc_hypercall_state option \<times> hypercall" where
  "qc_hypercall_take_event h =
     (if \<not> have_event (g_st h) then (None, h)
      else (Some (g_st h), h\<lparr>g_st := (g_st h)\<lparr>have_event := False\<rparr>\<rparr>))"

section \<open>The window as guest memory\<close>

text \<open>
  A store is relevant when it touches the window and does not wrap around the address
  space; the window is then the guest's memory at these 16 addresses.
\<close>

definition hc_hit :: "u64 \<Rightarrow> nat \<Rightarrow> bool" where
  "hc_hit p n \<longleftrightarrow> HC_PHYS < p + of_nat n \<and> p < HC_PHYS + of_nat HC_SIZE"

lemma hc_hit_bounds:
  assumes "hc_hit p n" "n \<le> 8"
  shows "unat p < unat HC_PHYS + 16" "unat HC_PHYS < unat p + n"
proof -
  show p: "unat p < unat HC_PHYS + 16"
    using assms(1) by (simp add: hc_hit_def word_less_nat_alt)
  then have "unat (p + of_nat n) = unat p + n"
    using assms(2) by (simp add: unat_word_ariths unat_of_nat)
  then show "unat HC_PHYS < unat p + n"
    using assms(1) by (simp add: hc_hit_def word_less_nat_alt)
qed

definition window_after :: "u64 \<Rightarrow> u64 \<Rightarrow> nat \<Rightarrow> byte list \<Rightarrow> byte list" where
  "window_after p v n w =
     map (\<lambda>k. if unat p \<le> unat HC_PHYS + k \<and> unat HC_PHYS + k < unat p + n
              then byte_of_u64 (drop_bit (8 * (unat HC_PHYS + k - unat p)) v)
              else w ! k) [0..<HC_SIZE]"

lemma byte_of_u64_and [simp]: "byte_of_u64 (and v 0xff) = byte_of_u64 v"
proof -
  have "(0xff :: u64) = mask 8" by (simp add: mask_eq_exp_minus_1)
  then have "and v 0xff = take_bit 8 v" by (simp add: take_bit_eq_mask)
  then show ?thesis
    by (auto simp: byte_of_u64_def bit_ucast_iff bit_take_bit_iff intro!: bit_word_eqI)
qed

lemma length_window_after [simp]: "length (window_after p v n w) = HC_SIZE"
  by (simp add: window_after_def)

lemma window_after_0 [simp]: "length w = HC_SIZE \<Longrightarrow> window_after p v 0 w = w"
  by (rule nth_equalityI) (auto simp: window_after_def)

lemma window_after_Suc_in:
  assumes "unat HC_PHYS \<le> unat p + i" "unat p + i < unat HC_PHYS + 16"
  shows "window_after p v (Suc i) w =
    (window_after p v i w)[unat p + i - unat HC_PHYS := byte_of_u64 (drop_bit (8 * i) v)]"
  using assms
  by (intro nth_equalityI) (auto simp: window_after_def nth_list_update less_Suc_eq)

lemma window_after_Suc_out:
  assumes "unat p + i < unat HC_PHYS \<or> unat HC_PHYS + 16 \<le> unat p + i"
  shows "window_after p v (Suc i) w = window_after p v i w"
  using assms by (intro nth_equalityI) (auto simp: window_after_def less_Suc_eq)

lemma window_loop_from:
  assumes "unat p < unat HC_PHYS + 16" "n \<le> 8" "i \<le> n" "length w = HC_SIZE"
  shows "window_loop i n p v (window_after p v i w) = window_after p v n w"
  using assms(3)
proof (induction "n - i" arbitrary: i)
  case 0
  then show ?case by (subst window_loop.simps) simp
next
  case (Suc d)
  then have i: "i < n" by simp
  let ?a = "p + of_nat i"
  have a: "unat ?a = unat p + i"
    using assms(1,2) i by (simp add: unat_word_ariths unat_of_nat)
  have IH: "window_loop (Suc i) n p v (window_after p v (Suc i) w) = window_after p v n w"
    using Suc i by simp
  show ?case
  proof (cases "unat HC_PHYS \<le> unat p + i \<and> unat p + i < unat HC_PHYS + 16")
    case True
    then have rng: "\<not> (?a < HC_PHYS \<or> HC_PHYS + of_nat HC_SIZE \<le> ?a)" "HC_PHYS \<le> ?a"
      using a by (auto simp: word_less_nat_alt word_le_nat_alt)
    then have off: "unat (?a - HC_PHYS) = unat p + i - unat HC_PHYS"
      using a by (simp add: unat_sub)
    show ?thesis
      using i rng off IH True by (subst window_loop.simps) (simp add: Let_def window_after_Suc_in)
  next
    case False
    then have "?a < HC_PHYS \<or> HC_PHYS + of_nat HC_SIZE \<le> ?a"
      using a by (auto simp: word_less_nat_alt word_le_nat_alt)
    then show ?thesis
      using i IH False by (subst window_loop.simps) (auto simp: Let_def window_after_Suc_out)
  qed
qed

lemma window_loop_eq:
  "hc_hit p n \<Longrightarrow> n \<le> 8 \<Longrightarrow> length w = HC_SIZE \<Longrightarrow> window_loop 0 n p v w = window_after p v n w"
  using window_loop_from [of p n 0 w v] hc_hit_bounds [of p n] by simp

lemma note_store_miss: "\<not> hc_hit p n \<Longrightarrow> qc_hypercall_note_store p v n h = h"
  by (auto simp: qc_hypercall_note_store_def hc_hit_def not_less)

lemma note_store_hit:
  assumes "hc_hit p n" "0 < n" "n \<le> 8" "length (g_window h) = HC_SIZE"
  shows "qc_hypercall_note_store p v n h =
           try_commit (h\<lparr>g_window := window_after p v n (g_window h)\<rparr>)"
proof -
  have "\<not> p + of_nat n \<le> HC_PHYS" "\<not> HC_PHYS + of_nat HC_SIZE \<le> p"
    using assms(1) by (auto simp: hc_hit_def not_le)
  then show ?thesis
    using assms window_loop_eq [of p n "g_window h" v]
    by (simp add: qc_hypercall_note_store_def)
qed

section \<open>Invariant\<close>

text \<open>The name is always the one of the last command, once a message was committed.\<close>

definition hc_wf :: "hypercall \<Rightarrow> bool" where
  "hc_wf h \<longleftrightarrow> length (g_window h) = HC_SIZE \<and>
     (if last_name (g_st h) = [] then \<not> have_event (g_st h) \<and> count (g_st h) = 0
      else last_name (g_st h) = cmd_name (last_cmd (g_st h)))"

lemma cmd_name_short [simp]: "snprintf 32 (cmd_name c) = cmd_name c"
  by (simp add: snprintf_def cmd_name_def)

lemma cmd_name_nonempty [simp]: "cmd_name c \<noteq> []"
  by (simp add: cmd_name_def)

lemma window_try_commit [simp, frame_simps]: "g_window (try_commit h) = g_window h"
  by (simp add: try_commit_def Let_def)

lemma hc_wf_init: "hc_wf qc_hypercall_init"
  by (simp add: hc_wf_def qc_hypercall_init_def)

lemma hc_wf_try_commit: "hc_wf h \<Longrightarrow> hc_wf (try_commit h)"
  by (auto simp: hc_wf_def try_commit_def Let_def)

lemma hc_wf_note_store:
  assumes "hc_wf h"
  shows "hc_wf (qc_hypercall_note_store p v n h)"
proof (cases "hc_hit p n \<and> 0 < n \<and> n \<le> 8")
  case True
  have "hc_wf (h\<lparr>g_window := window_after p v n (g_window h)\<rparr>)"
    using assms by (simp add: hc_wf_def)
  then have "hc_wf (try_commit (h\<lparr>g_window := window_after p v n (g_window h)\<rparr>))"
    by (rule hc_wf_try_commit)
  with True assms show ?thesis by (simp add: note_store_hit hc_wf_def)
next
  case False
  then consider "\<not> hc_hit p n" | "n = 0 \<or> 8 < n" by auto
  then show ?thesis
  proof cases
    case 1
    with assms show ?thesis by (simp add: note_store_miss)
  next
    case 2
    with assms show ?thesis by (auto simp: qc_hypercall_note_store_def)
  qed
qed

lemma hc_wf_take_event: "hc_wf h \<Longrightarrow> hc_wf (snd (qc_hypercall_take_event h))"
  by (auto simp: hc_wf_def qc_hypercall_take_event_def)

section \<open>Messages\<close>

text \<open>Storing the little endian word \<open>x\<close> at offset \<open>k\<close> of the window.\<close>

definition put32 :: "byte list \<Rightarrow> nat \<Rightarrow> u32 \<Rightarrow> byte list" where
  "put32 w k x = window_after (HC_PHYS + of_nat k) (ucast x) 4 w"

lemma put32_nth:
  assumes "k + 4 \<le> HC_SIZE" "j < HC_SIZE"
  shows "put32 w k x ! j =
    (if k \<le> j \<and> j < k + 4 then byte_of_u64 (drop_bit (8 * (j - k)) (ucast x)) else w ! j)"
proof -
  have "unat (HC_PHYS + of_nat k) = unat HC_PHYS + k"
    using assms(1) by (simp add: unat_word_ariths unat_of_nat)
  then show ?thesis using assms by (simp add: put32_def window_after_def)
qed

lemma bit_byte_of_u64:
  "bit (byte_of_u64 (drop_bit m (ucast (x :: u32)))) n \<longleftrightarrow> n < 8 \<and> bit x (m + n)"
  by (auto simp: byte_of_u64_def bit_ucast_iff bit_drop_bit_eq dest: bit_imp_le_length)

lemma bit_byte_of_u64_0: "bit (byte_of_u64 (ucast (x :: u32))) n \<longleftrightarrow> n < 8 \<and> bit x n"
  using bit_byte_of_u64 [of 0 x n] by simp

lemma le32_put32:
  assumes "k + 4 \<le> HC_SIZE"
  shows "le32 (put32 w k x) k = x"
proof (rule bit_word_eqI)
  fix n assume n: "n < LENGTH(32)"
  consider "n < 8" | "8 \<le> n" "n < 16" | "16 \<le> n" "n < 24" | "24 \<le> n" "n < 32"
    using n by (auto simp: not_less) linarith
  then show "bit (le32 (put32 w k x) k) n = bit x n"
    using assms n
    by cases (auto simp: le32_def put32_nth bit_or_iff bit_push_bit_iff bit_ucast_iff
                bit_byte_of_u64 bit_byte_of_u64_0)
qed

lemma le32_put32_other:
  assumes "k + 4 \<le> HC_SIZE" "j + 4 \<le> HC_SIZE" "j + 4 \<le> k \<or> k + 4 \<le> j"
  shows "le32 (put32 w k x) j = le32 w j"
  using assms by (auto simp: le32_def put32_nth)

lemma length_put32 [simp]: "length (put32 w k x) = HC_SIZE"
  by (simp add: put32_def)

definition store_word :: "nat \<Rightarrow> u32 \<Rightarrow> hypercall \<Rightarrow> hypercall" where
  "store_word k x h = qc_hypercall_note_store (HC_PHYS + of_nat k) (ucast x) 4 h"

lemma store_word_eq:
  assumes "length (g_window h) = HC_SIZE" "k + 4 \<le> HC_SIZE"
  shows "store_word k x h = try_commit (h\<lparr>g_window := put32 (g_window h) k x\<rparr>)"
proof -
  have "hc_hit (HC_PHYS + of_nat k) 4"
    using assms(2) by (simp add: hc_hit_def word_less_nat_alt unat_word_ariths unat_of_nat)
  with assms show ?thesis
    by (simp add: store_word_def note_store_hit put32_def)
qed

lemma window_store_word [simp]:
  "length (g_window h) = HC_SIZE \<Longrightarrow> k + 4 \<le> HC_SIZE \<Longrightarrow>
     g_window (store_word k x h) = put32 (g_window h) k x"
  by (simp add: store_word_eq)

lemma try_commit_magic:
  "le32 (g_window h) 0 = HC_MAGIC \<Longrightarrow>
     g_st (try_commit h) =
       \<lparr>count = count (g_st h) + 1, last_cmd = le32 (g_window h) 4,
        last_status = le32 (g_window h) 8, have_event = True,
        last_name = cmd_name (le32 (g_window h) 4)\<rparr>"
  by (simp add: try_commit_def msg_of_window_def)

lemma try_commit_no_magic: "le32 (g_window h) 0 \<noteq> HC_MAGIC \<Longrightarrow> try_commit h = h"
  by (simp add: try_commit_def msg_of_window_def)

lemmas window_words = le32_put32 le32_put32_other

text \<open>The message with the magic word stored last.\<close>

lemma magic_last:
  assumes "hc_wf h" "le32 (g_window h) 0 \<noteq> HC_MAGIC"
  shows "g_st (store_word 12 r (store_word 8 st (store_word 4 c h))) = g_st h"
    and "g_st (store_word 0 HC_MAGIC (store_word 12 r (store_word 8 st (store_word 4 c h)))) =
           \<lparr>count = count (g_st h) + 1, last_cmd = c, last_status = st,
            have_event = True, last_name = cmd_name c\<rparr>"
  using assms
  by (simp_all add: hc_wf_def store_word_eq window_words try_commit_magic try_commit_no_magic)

section \<open>The hypercall window as a store sink\<close>

definition hc_note :: "u64 \<Rightarrow> u64 \<Rightarrow> nat \<Rightarrow> hypercall \<Rightarrow> hypercall c_result" where
  "hc_note p v n h = Inr (qc_hypercall_note_store p v n h)"

definition hc_view :: "hypercall \<Rightarrow> vmem \<Rightarrow> bool" where
  "hc_view h m \<longleftrightarrow> g_window h = map (\<lambda>k. m (unat HC_PHYS + k)) [0..<HC_SIZE]"

definition hc_upd :: "u64 \<Rightarrow> u64 \<Rightarrow> nat \<Rightarrow> vmem \<Rightarrow> vmem" where
  "hc_upd p v n m = guest_store (unat p) v n m"

lemma hc_view_init: "hc_view qc_hypercall_init (\<lambda>_. 0)"
  by (simp add: hc_view_def qc_hypercall_init_def map_replicate_const)

interpretation hc_sink: tracking_sink hc_note hc_hit hc_wf hc_view hc_upd
proof
  show "hc_note p v n s = Inr s" if "\<not> hc_hit p n" for p n v s
    using that by (simp add: hc_note_def note_store_miss)
  show "\<exists>s'. hc_note p v n s = Inr s' \<and> hc_wf s'" if "hc_wf s" for s n p v
    using that by (simp add: hc_note_def hc_wf_note_store)
  show "hc_view s' (hc_upd p v n m)"
    if "hc_wf s" "hc_view s m" "hc_hit p n" "0 < n" "n \<le> 8" "hc_note p v n s = Inr s'"
    for s m p n v s'
  proof -
    have "g_window s' = window_after p v n (g_window s)"
      using that by (auto simp: hc_note_def hc_wf_def note_store_hit)
    with that(2) show ?thesis
      by (auto simp: hc_view_def hc_upd_def window_after_def guest_store_def)
  qed
qed

section \<open>Properties\<close>

text \<open>
  The window implements the guest's memory at the 16 addresses: every sequence of guest
  stores of 1 to 8 bytes, at any addresses and also straddling either end of the window,
  leaves in the window exactly the bytes that the guest's memory then holds there.
\<close>

theorem hc_window_tracks_memory:
  assumes "hc_wf h" "hc_view h m" "list_all small_write ws"
  shows "\<exists>h'. run_stores hc_note ws h = Inr h' \<and> hc_wf h' \<and>
           hc_view h' (upd_all hc_hit hc_upd ws m)"
  using hc_sink.run_tracks [OF assms] .

theorem hc_window_tracks_memory_witness:
  "\<exists>h'. run_stores hc_note [(0xFEE1DEAB, 0x44332211, 4), (0xFEE1DEBC, 0xAABB, 2)]
          qc_hypercall_init = Inr h' \<and>
        g_window h' ! 0 = 0x33 \<and> g_window h' ! 1 = 0x44 \<and> g_window h' ! 15 = 0xBB"
proof -
  from hc_window_tracks_memory [OF hc_wf_init hc_view_init,
      of "[(0xFEE1DEAB, 0x44332211, 4), (0xFEE1DEBC, 0xAABB, 2)]"]
  show ?thesis
    by (auto simp: hc_view_def hc_hit_def hc_upd_def guest_store_def byte_of_u64_def
        nth_append)
qed

text \<open>
  A message stored word by word (magic, command, status, reserved) in any well formed
  state is delivered: the next event carries its command, name and status. Each of the four
  stores counts as a message, so the counter grows by four.
\<close>

theorem hc_message_delivered:
  assumes "hc_wf h"
  shows "fst (qc_hypercall_take_event
           (store_word 12 r (store_word 8 st (store_word 4 c (store_word 0 HC_MAGIC h))))) =
         Some \<lparr>count = count (g_st h) + 4, last_cmd = c, last_status = st,
               have_event = True, last_name = cmd_name c\<rparr>"
  using assms
  by (simp add: hc_wf_def store_word_eq window_words try_commit_magic qc_hypercall_take_event_def)

theorem hc_message_delivered_witness:
  "fst (qc_hypercall_take_event
     (store_word 12 0 (store_word 8 7 (store_word 4 HC_EXIT (store_word 0 HC_MAGIC qc_hypercall_init))))) =
   Some \<lparr>count = 4, last_cmd = 2, last_status = 7, have_event = True, last_name = ''EXIT''\<rparr>"
  using hc_message_delivered [OF hc_wf_init, of 0 7 HC_EXIT]
  by (simp add: cmd_name_def qc_hypercall_init_def)

text \<open>
  Storing the magic word first, the order the documentation shows, raises an event at
  once, before the other words are written: it carries the command and status that the
  window held before.
\<close>

theorem hc_magic_first_raises_stale_event:
  assumes "hc_wf h"
  shows "fst (qc_hypercall_take_event (store_word 0 HC_MAGIC h)) =
         Some \<lparr>count = count (g_st h) + 1, last_cmd = le32 (g_window h) 4,
               last_status = le32 (g_window h) 8, have_event = True,
               last_name = cmd_name (le32 (g_window h) 4)\<rparr>"
  using assms
  by (simp add: hc_wf_def store_word_eq window_words try_commit_magic qc_hypercall_take_event_def)

theorem hc_magic_first_raises_stale_event_witness:
  "fst (qc_hypercall_take_event (store_word 0 HC_MAGIC qc_hypercall_init)) =
   Some \<lparr>count = 1, last_cmd = 0, last_status = 0, have_event = True, last_name = ''UNKNOWN''\<rparr>"
  using hc_magic_first_raises_stale_event [OF hc_wf_init]
  by (simp add: cmd_name_def qc_hypercall_init_def le32_def)

text \<open>
  C32: with the magic word last the message is atomic: while the window does not hold the
  magic, storing the other three words changes no event state, and the magic then commits
  exactly one message with their contents.
\<close>

theorem hc_magic_last_is_atomic:
  assumes "hc_wf h" "le32 (g_window h) 0 \<noteq> HC_MAGIC"
  shows "g_st (store_word 12 r (store_word 8 st (store_word 4 c h))) = g_st h \<and>
         g_st (store_word 0 HC_MAGIC (store_word 12 r (store_word 8 st (store_word 4 c h)))) =
           \<lparr>count = count (g_st h) + 1, last_cmd = c, last_status = st,
            have_event = True, last_name = cmd_name c\<rparr>"
  using magic_last [OF assms] by simp

theorem hc_magic_last_is_atomic_witness:
  "g_st (store_word 0 HC_MAGIC (store_word 12 0 (store_word 8 9 (store_word 4 HC_LOG qc_hypercall_init)))) =
   \<lparr>count = 1, last_cmd = 3, last_status = 9, have_event = True, last_name = ''LOG''\<rparr>"
proof -
  have "le32 (g_window qc_hypercall_init) 0 \<noteq> HC_MAGIC"
    by (simp add: le32_def qc_hypercall_init_def)
  from hc_magic_last_is_atomic [OF hc_wf_init this, of 0 9 HC_LOG] show ?thesis
    by (simp add: qc_hypercall_init_def cmd_name_def)
qed

end
