(* ===== verification/Mem.thy ===== *)
theory Mem
  imports Vga Hypercall
begin

text \<open>
  plugin/mem.c: the memory callback that feeds the VGA shadow and the hypercall window, the
  instrumentation of translation blocks, and the discontinuity counters. The atomic counters
  and \<open>g_hypercall_on\<close> are the record \<open>mem_stats\<close>; the state that the callback works on
  (these, the shadow, the window, and the messages printed) is \<open>guest_side\<close>.

  What the callback asks QEMU about an access (is it a store, its physical address, value
  and size shift) is the record \<open>mem_access\<close>; the constants of \<open>enum
  qemu_plugin_discon_type\<close> are parameters, because that header is not part of the
  repository.

  Main results: a run of callbacks is a run of both store sinks; the counters agree with
  the shadow's; the discontinuity counters add up.
\<close>

section \<open>State and the answers of QEMU\<close>

datatype qemu_plugin_mem_value =
    MV_U8 "8 word" | MV_U16 "16 word" | MV_U32 u32 | MV_U64 u64
  | MV_U128 u64 u64 \<comment> \<open>low, high\<close>
  | MV_Other

record mem_access =
  is_store :: bool
  hwaddr :: "u64 option"
  mem_value :: qemu_plugin_mem_value
  size_shift :: nat

record mem_stats =
  g_mem_cb_fired :: u64
  g_mem_cb_vga_hit :: u64
  g_hwaddr_null :: u64
  g_discon_exc :: u64
  g_discon_irq :: u64
  g_discon_host :: u64
  g_discon_total :: u64
  g_hypercall_on :: bool

record guest_side =
  ms :: mem_stats
  gvga :: qc_vga_state
  ghc :: hypercall
  outs :: "string list"

section \<open>Discontinuities\<close>

definition qc_discon_init :: "mem_stats \<Rightarrow> mem_stats" where
  "qc_discon_init st = st\<lparr>g_discon_exc := 0, g_discon_irq := 0, g_discon_host := 0,
                          g_discon_total := 0\<rparr>"

text \<open>\<open>EXC\<close>, \<open>IRQ\<close> and \<open>HOST\<close> are the constants \<open>QEMU_PLUGIN_DISCON_*\<close>.\<close>

definition qc_discon_on_event :: "u32 \<Rightarrow> u32 \<Rightarrow> u32 \<Rightarrow> u32 \<Rightarrow> mem_stats \<Rightarrow> mem_stats" where
  "qc_discon_on_event EXC IRQ HOST type_flags st =
     (let st = st\<lparr>g_discon_total := g_discon_total st + 1\<rparr>;
          st = (if type_flags = EXC \<or> and type_flags EXC \<noteq> 0
                then st\<lparr>g_discon_exc := g_discon_exc st + 1\<rparr> else st);
          st = (if type_flags = IRQ \<or> and type_flags IRQ \<noteq> 0
                then st\<lparr>g_discon_irq := g_discon_irq st + 1\<rparr> else st);
          st = (if type_flags = HOST \<or> and type_flags HOST \<noteq> 0
                then st\<lparr>g_discon_host := g_discon_host st + 1\<rparr> else st)
      in st)"

definition qc_discon_exception :: "mem_stats \<Rightarrow> u64" where
  "qc_discon_exception st = g_discon_exc st"

definition qc_discon_interrupt :: "mem_stats \<Rightarrow> u64" where
  "qc_discon_interrupt st = g_discon_irq st"

definition qc_discon_hostcall :: "mem_stats \<Rightarrow> u64" where
  "qc_discon_hostcall st = g_discon_host st"

definition qc_discon_total :: "mem_stats \<Rightarrow> u64" where
  "qc_discon_total st = g_discon_total st"

section \<open>The memory callback\<close>

fun mem_value_as_u64 :: "qemu_plugin_mem_value \<Rightarrow> u64" where
  "mem_value_as_u64 (MV_U8 v) = ucast v"
| "mem_value_as_u64 (MV_U16 v) = ucast v"
| "mem_value_as_u64 (MV_U32 v) = ucast v"
| "mem_value_as_u64 (MV_U64 v) = v"
| "mem_value_as_u64 (MV_U128 low high) = low"
| "mem_value_as_u64 MV_Other = 0"

definition null_msg :: string where
  "null_msg = ''qemu-connect: mem_cb get_hwaddr NULL (rate-limited)'' @ [LF]"

text \<open>\<open>userdata\<close> is whether the callback was registered with the shadow (else with NULL).\<close>

definition store_mem_cb :: "bool \<Rightarrow> mem_access \<Rightarrow> guest_side \<Rightarrow> guest_side c_result" where
  "store_mem_cb userdata info g =
     (let g = g\<lparr>ms := (ms g)\<lparr>g_mem_cb_fired := g_mem_cb_fired (ms g) + 1\<rparr>\<rparr> in
      if \<not> is_store info then Inr g
      else (case hwaddr info of
        None \<Rightarrow>
          (let n = g_hwaddr_null (ms g);
               g = g\<lparr>ms := (ms g)\<lparr>g_hwaddr_null := n + 1\<rparr>\<rparr>
           in if n = 0 \<or> n mod 100000 = 0 then Inr (g\<lparr>outs := outs g @ [null_msg]\<rparr>)
              else Inr g)
      | Some phys \<Rightarrow>
          if 32 \<le> size_shift info then Inl Shift_Range
          else
            (let sz = unat (push_bit (size_shift info) (1 :: u32));
                 raw = mem_value_as_u64 (mem_value info);
                 g = (if g_hypercall_on (ms g)
                      then g\<lparr>ghc := qc_hypercall_note_store phys raw sz (ghc g)\<rparr> else g)
             in if userdata \<and> VGA_PHYS \<le> phys \<and> phys < VGA_PHYS + of_nat VGA_BYTES
                then (case vga_note phys raw sz (gvga g) of
                        Inl e \<Rightarrow> Inl e
                      | Inr v \<Rightarrow>
                          Inr (g\<lparr>gvga := v,
                                 ms := (ms g)\<lparr>g_mem_cb_vga_hit := g_mem_cb_vga_hit (ms g) + 1\<rparr>\<rparr>))
                else Inr g)))"

text \<open>
  \<open>qc_mem_instrument_tb\<close>: the block is the list of its instructions (\<open>None\<close> where
  \<open>qemu_plugin_tb_get_insn\<close> returns NULL), a NULL block is \<open>None\<close>. The result is the
  registered instructions with the userdata flag each callback gets.
\<close>

definition qc_mem_instrument_tb ::
    "'i option list option \<Rightarrow> bool \<Rightarrow> bool \<Rightarrow> mem_stats \<Rightarrow> ('i \<times> bool) list \<times> mem_stats" where
  "qc_mem_instrument_tb tb vga hypercall_on st =
     (let st = st\<lparr>g_hypercall_on := hypercall_on\<rparr> in
      case tb of
        None \<Rightarrow> ([], st)
      | Some insns \<Rightarrow>
          if \<not> vga \<and> \<not> hypercall_on then ([], st)
          else (concat (map (\<lambda>i. case i of None \<Rightarrow> [] | Some insn \<Rightarrow> [(insn, vga)]) insns), st))"

definition qc_mem_cb_fired :: "mem_stats \<Rightarrow> u64" where
  "qc_mem_cb_fired st = g_mem_cb_fired st"

definition qc_mem_cb_vga_hit :: "mem_stats \<Rightarrow> u64" where
  "qc_mem_cb_vga_hit st = g_mem_cb_vga_hit st"

section \<open>Runs of callbacks\<close>

fun run_accesses :: "bool \<Rightarrow> mem_access list \<Rightarrow> guest_side \<Rightarrow> guest_side c_result" where
  "run_accesses userdata [] g = Inr g"
| "run_accesses userdata (a # as) g =
     (case store_mem_cb userdata a g of
        Inl e \<Rightarrow> Inl e | Inr g' \<Rightarrow> run_accesses userdata as g')"

text \<open>The guest store that an access is, if it is one with a known address.\<close>

definition access_writes :: "mem_access \<Rightarrow> guest_write list" where
  "access_writes a =
     (if is_store a
      then (case hwaddr a of
              None \<Rightarrow> []
            | Some p \<Rightarrow> [(p, mem_value_as_u64 (mem_value a), 2 ^ size_shift a)])
      else [])"

text \<open>QEMU reports at most 8-byte values other than vector accesses.\<close>

definition scalar_access :: "mem_access \<Rightarrow> bool" where
  "scalar_access a \<longleftrightarrow> size_shift a \<le> 3"

lemma access_size: "n < 32 \<Longrightarrow> unat ((2 :: u32) ^ n) = 2 ^ n"
proof -
  assume "n < 32"
  then have lt: "(2 :: nat) ^ n < 2 ^ 32" by (rule power_strict_increasing) simp
  have "unat ((2 :: u32) ^ n) = unat (push_bit n (1 :: u32))" by (simp only: push_bit_of_1)
  also have "\<dots> = take_bit 32 (push_bit n (unat (1 :: u32)))"
    by (simp only: unsigned_push_bit_eq) simp
  also have "\<dots> = 2 ^ n" using lt by (simp add: take_bit_eq_mod)
  finally show ?thesis .
qed

lemma scalar_size:
  assumes "scalar_access a"
  shows "0 < (2 :: nat) ^ size_shift a" "(2 :: nat) ^ size_shift a \<le> 8"
proof -
  have "(2 :: nat) ^ size_shift a \<le> 2 ^ 3"
    using assms by (intro power_increasing) (simp_all add: scalar_access_def)
  then show "(2 :: nat) ^ size_shift a \<le> 8" by simp
qed simp

lemma access_writes_small: "scalar_access a \<Longrightarrow> list_all small_write (access_writes a)"
  using scalar_size by (auto simp: access_writes_def split: option.split)

lemma writes_small:
  "list_all scalar_access as \<Longrightarrow> list_all small_write (concat (map access_writes as))"
  by (induction as) (auto simp: access_writes_small)

text \<open>
  How one callback relates to the sinks: \<open>cb_step ws k g g'\<close> says that \<open>g'\<close> is \<open>g\<close> after
  the stores \<open>ws\<close> went to both sinks and \<open>k\<close> callbacks fired.
\<close>

definition cb_step :: "guest_write list \<Rightarrow> nat \<Rightarrow> guest_side \<Rightarrow> guest_side \<Rightarrow> bool" where
  "cb_step ws k g g' \<longleftrightarrow>
     run_stores vga_note ws (gvga g) = Inr (gvga g') \<and>
     run_stores hc_note ws (ghc g) = Inr (ghc g') \<and>
     g_hypercall_on (ms g') \<and>
     g_mem_cb_fired (ms g') = g_mem_cb_fired (ms g) + of_nat k \<and>
     g_mem_cb_vga_hit (ms g') - write_count (gvga g') =
       g_mem_cb_vga_hit (ms g) - write_count (gvga g)"

lemma cb_step_refl: "g_hypercall_on (ms g) \<Longrightarrow> cb_step [] 0 g g"
  by (simp add: cb_step_def)

lemma cb_step_trans:
  "cb_step ws k g g' \<Longrightarrow> cb_step ws' k' g' g'' \<Longrightarrow> cb_step (ws @ ws') (k + k') g g''"
  by (simp add: cb_step_def run_stores_append)

lemma vga_note_count:
  assumes "vga_wf s" "vga_hit p" "0 < n" "n \<le> 8" "vga_note p v n s = Inr s'"
  shows "write_count s' = write_count s + 1"
proof -
  from vga_wf_shadow [OF assms(1)] obtain m where "vtext s = vga_shadow m" ..
  then have "vga_view s (m, write_count s)" by (simp add: vga_view_def)
  with vga_note_hit [OF assms(1-4), of v "(m, write_count s)"] assms(5) show ?thesis
    by (auto simp: vga_view_def vga_upd_def)
qed

lemma store_mem_cb_step:
  assumes "scalar_access a" "vga_wf (gvga g)" "g_hypercall_on (ms g)"
  shows "\<exists>g'. store_mem_cb True a g = Inr g' \<and> cb_step (access_writes a) 1 g g'"
proof (cases "is_store a \<and> hwaddr a \<noteq> None")
  case False
  then show ?thesis
    using assms(3)
    by (auto simp: store_mem_cb_def access_writes_def cb_step_def Let_def split: option.split)
next
  case True
  then obtain p where p: "hwaddr a = Some p" by auto
  let ?v = "mem_value_as_u64 (mem_value a)" and ?n = "2 ^ size_shift a"
  note n = scalar_size [OF assms(1)]
  have shift: "size_shift a < 32" using assms(1) by (simp add: scalar_access_def)
  show ?thesis
  proof (cases "vga_hit p")
    case hit: True
    obtain s' where s': "vga_note p ?v ?n (gvga g) = Inr s'"
      using vga_note_hit [OF assms(2) hit n] by blast
    have "write_count s' = write_count (gvga g) + 1"
      by (rule vga_note_count [OF assms(2) hit n s'])
    with True p s' shift hit assms(3) show ?thesis
      by (simp add: store_mem_cb_def access_writes_def cb_step_def Let_def access_size
          hc_note_def vga_hit_def)
  next
    case miss: False
    then have "vga_note p ?v ?n (gvga g) = Inr (gvga g)" by (rule vga_sink.miss)
    with True p shift miss assms(3) show ?thesis
      by (auto simp: store_mem_cb_def access_writes_def cb_step_def Let_def access_size
          hc_note_def vga_hit_def)
  qed
qed

lemma run_accesses_step:
  "list_all scalar_access as \<Longrightarrow> vga_wf (gvga g) \<Longrightarrow> g_hypercall_on (ms g) \<Longrightarrow>
     \<exists>g'. run_accesses True as g = Inr g' \<and>
          cb_step (concat (map access_writes as)) (length as) g g'"
proof (induction as arbitrary: g)
  case Nil
  then show ?case by (simp add: cb_step_refl)
next
  case (Cons a as)
  then have a: "scalar_access a" by simp
  from store_mem_cb_step [OF a Cons.prems(2,3)] obtain g1 where
    g1: "store_mem_cb True a g = Inr g1" "cb_step (access_writes a) 1 g g1" by blast
  have wf: "vga_wf (gvga g1)"
    using vga_sink.run_defined [OF Cons.prems(2) access_writes_small [OF a]] g1(2)
    by (auto simp: cb_step_def)
  have on: "g_hypercall_on (ms g1)" using g1(2) by (simp add: cb_step_def)
  from Cons.IH [OF _ wf on] Cons.prems(1) obtain g2 where
    g2: "run_accesses True as g1 = Inr g2"
        "cb_step (concat (map access_writes as)) (length as) g1 g2" by auto
  from cb_step_trans [OF g1(2) g2(2)] g1(1) g2(1) show ?case by simp
qed

text \<open>The statics before the first callback.\<close>

definition guest_side_init :: guest_side where
  "guest_side_init =
     \<lparr>ms = \<lparr>g_mem_cb_fired = 0, g_mem_cb_vga_hit = 0, g_hwaddr_null = 0, g_discon_exc = 0,
             g_discon_irq = 0, g_discon_host = 0, g_discon_total = 0, g_hypercall_on = True\<rparr>,
      gvga = qc_vga_init, ghc = qc_hypercall_init, outs = []\<rparr>"

section \<open>Discontinuity counters\<close>

lemma discon_event:
  assumes "EXC \<noteq> 0" "IRQ \<noteq> 0" "HOST \<noteq> 0"
    and "and EXC IRQ = 0" "and EXC HOST = 0" "and IRQ HOST = 0"
    and "ev \<in> {EXC, IRQ, HOST}"
  shows "qc_discon_on_event EXC IRQ HOST ev st =
    st\<lparr>g_discon_exc := g_discon_exc st + (if ev = EXC then 1 else 0),
       g_discon_irq := g_discon_irq st + (if ev = IRQ then 1 else 0),
       g_discon_host := g_discon_host st + (if ev = HOST then 1 else 0),
       g_discon_total := g_discon_total st + 1\<rparr>"
  using assms by (auto simp: qc_discon_on_event_def Let_def and.commute)

lemma discon_fold:
  assumes "EXC \<noteq> 0" "IRQ \<noteq> 0" "HOST \<noteq> 0"
    and "and EXC IRQ = 0" "and EXC HOST = 0" "and IRQ HOST = 0"
    and "set evs \<subseteq> {EXC, IRQ, HOST}"
  shows "g_discon_exc (fold (qc_discon_on_event EXC IRQ HOST) evs st) =
           g_discon_exc st + of_nat (count_list evs EXC) \<and>
         g_discon_irq (fold (qc_discon_on_event EXC IRQ HOST) evs st) =
           g_discon_irq st + of_nat (count_list evs IRQ) \<and>
         g_discon_host (fold (qc_discon_on_event EXC IRQ HOST) evs st) =
           g_discon_host st + of_nat (count_list evs HOST) \<and>
         g_discon_total (fold (qc_discon_on_event EXC IRQ HOST) evs st) =
           g_discon_total st + of_nat (count_list evs EXC) +
             of_nat (count_list evs IRQ) + of_nat (count_list evs HOST)"
  using assms(7)
proof (induction evs arbitrary: st)
  case Nil
  then show ?case by simp
next
  case (Cons ev evs)
  then have ev: "ev \<in> {EXC, IRQ, HOST}" by simp
  have ne: "EXC \<noteq> IRQ" "EXC \<noteq> HOST" "IRQ \<noteq> HOST"
    using assms(1-6) by auto
  show ?case
    using Cons.IH [of "qc_discon_on_event EXC IRQ HOST ev st"] Cons.prems ne ev
    by (auto simp: discon_event [OF assms(1-6) ev] algebra_simps)
qed

section \<open>Properties\<close>



text \<open>
  A 16-byte vector store that QEMU reports inside the text window makes the callback
  undefined behaviour, with or without the hypercall consumer.
\<close>

theorem mem_vector_store_undefined:
  assumes "is_store a" "hwaddr a = Some p" "size_shift a = 4"
    and "vga_hit p" "unat p - unat VGA_PHYS + 9 < VGA_BYTES"
  shows "store_mem_cb True a g = Inl Shift_Range"
proof -
  have "vga_note p v 16 s = Inl Shift_Range" for v s
    using qc_vga_note_store_wide [OF assms(4,5)] by (simp add: vga_note_def)
  with assms show ?thesis
    by (simp add: store_mem_cb_def Let_def vga_hit_def)
qed

theorem mem_vector_store_undefined_witness:
  "store_mem_cb True
     \<lparr>is_store = True, hwaddr = Some 0xB8000, mem_value = MV_U128 0 0, size_shift = 4\<rparr>
     guest_side_init = Inl Shift_Range"
  by (rule mem_vector_store_undefined [where p = "0xB8000"]) (simp_all add: vga_hit_def)

text \<open>
  When the three discontinuity constants are separate bits, a sequence of events counts
  every event in exactly its own counter and all of them in the total.
\<close>

theorem discon_counters_add_up:
  assumes "EXC \<noteq> 0" "IRQ \<noteq> 0" "HOST \<noteq> 0"
    and "and EXC IRQ = 0" "and EXC HOST = 0" "and IRQ HOST = 0"
    and "set evs \<subseteq> {EXC, IRQ, HOST}"
    and "st' = fold (qc_discon_on_event EXC IRQ HOST) evs (qc_discon_init st)"
  shows "qc_discon_exception st' = of_nat (count_list evs EXC) \<and>
         qc_discon_interrupt st' = of_nat (count_list evs IRQ) \<and>
         qc_discon_hostcall st' = of_nat (count_list evs HOST) \<and>
         qc_discon_total st' =
           qc_discon_exception st' + qc_discon_interrupt st' + qc_discon_hostcall st'"
  using discon_fold [OF assms(1-7), of "qc_discon_init st"] assms(8)
  by (simp add: qc_discon_exception_def qc_discon_interrupt_def qc_discon_hostcall_def
      qc_discon_total_def qc_discon_init_def)

theorem discon_counters_add_up_witness:
  "qc_discon_total (fold (qc_discon_on_event 2 1 4) [2, 2, 4] (qc_discon_init (ms guest_side_init))) = 3"
  using discon_counters_add_up [of 2 1 4 "[2, 2, 4]", OF _ _ _ _ _ _ _ refl, of "ms guest_side_init"]
  by simp

end
