(* ===== verification/Protocol.thy ===== *)
theory Protocol
  imports Queue Mem CText
begin

text \<open>
  plugin/protocol.c: one request line in, one response line out. The handler works on the
  state \<open>proto_st\<close>: the queue with the callers' buffers and the shadow (\<open>qsys\<close>), the
  hypercall state and the counters. \<open>ctx->vga\<close> is the option \<open>svga\<close> of the queue's state;
  the rest of the context is the record \<open>qc_proto_ctx\<close> (None: a NULL context).

  Strings are C strings (no NUL inside); an output buffer of \<open>out_len\<close> bytes receives
  \<open>snprintf out_len\<close> of the text. \<open>malloc\<close> is a parameter: from the heap and a size to an
  unused address and the bytes that happen to be there, or None. \<open>env\<close> is what the vCPUs do
  while a request waits (see theory \<open>Queue\<close>).
\<close>

section \<open>State\<close>

record qc_proto_ctx =
  ctx_queue :: bool
  vga_refresh_enabled :: bool
  socket_thread :: bool
  vga_enabled :: bool
  hypercall_enabled :: bool

record proto_st =
  pq :: qsys
  phc :: hypercall
  pstats :: mem_stats

type_synonym malloc = "heap \<Rightarrow> nat \<Rightarrow> (nat \<times> byte list) option"

abbreviation (input) RESP_MAX :: nat where "RESP_MAX \<equiv> 32768"

section \<open>Reading the request\<close>

definition has_cmd :: "string \<Rightarrow> string \<Rightarrow> bool" where
  \<open>has_cmd line c = (strstr line (snprintf 64 (''"cmd":"'' @ c @ ''"'')) \<noteq> None)\<close>

definition has_refresh_true :: "string \<Rightarrow> bool" where
  \<open>has_refresh_true line =
     (strstr line ''"refresh":true'' \<noteq> None \<or> strstr line ''"refresh": true'' \<noteq> None
      \<or> strstr line ''"refresh":1'' \<noteq> None)\<close>

definition parse_u64_field :: "string \<Rightarrow> string \<Rightarrow> u64 option" where
  \<open>parse_u64_field line key =
     (let pat = snprintf 64 (''"'' @ key @ ''":'') in
      case strstr line pat of
        None \<Rightarrow> None
      | Some p \<Rightarrow> strtoull0 (dropWhile (\<lambda>c. c = SP) (drop (length pat) p)))\<close>

section \<open>Writing the response\<close>

definition hw_code_name :: "int \<Rightarrow> string" where
  "hw_code_name code =
     (if code = 0 then ''OK''
      else if code = 1 then ''ERROR''
      else if code = 2 then ''DEVICE_ERROR''
      else if code = 3 then ''ACCESS_DENIED''
      else if code = 4 then ''INVALID_ADDRESS''
      else if code = 5 then ''INVALID_ADDRESS_SPACE''
      else ''UNKNOWN'')"

text \<open>The two-character escapes and \<open>\u00xx\<close>; None is a character copied as it is.\<close>

definition escape_of :: "char \<Rightarrow> string option" where
  "escape_of c =
     (if c = DQ then Some [BS, DQ]
      else if c = BS then Some [BS, BS]
      else if c = LF then Some [BS, CHR ''n'']
      else if c = CR then Some [BS, CHR ''r'']
      else if c = TAB then Some [BS, CHR ''t'']
      else if ord c < 32 then Some (snprintf 8 (BS # ''u'' @ hex4 (ord c)))
      else None)"

text \<open>The loop of \<open>json_escape\<close>; \<open>acc\<close> is what \<open>dst\<close> holds, None is the return value -1.\<close>

fun escape_loop :: "nat \<Rightarrow> string \<Rightarrow> string \<Rightarrow> string option" where
  "escape_loop dst_len [] acc = Some acc"
| "escape_loop dst_len (c # p) acc =
     (case escape_of c of
        Some esc \<Rightarrow>
          if dst_len < length acc + length esc + 1 then None
          else escape_loop dst_len p (acc @ esc)
      | None \<Rightarrow>
          if dst_len < length acc + 2 then None
          else escape_loop dst_len p (acc @ [c]))"

definition json_escape :: "string \<Rightarrow> nat \<Rightarrow> string option" where
  "json_escape src dst_len = (if dst_len = 0 then None else escape_loop dst_len src [])"

definition hex_encode :: "byte list \<Rightarrow> nat \<Rightarrow> nat \<Rightarrow> string c_result" where
  "hex_encode data n out_len =
     (if out_len < n * 2 + 1 then Inr []
      else if length data < n then Inl Out_Of_Bounds
      else Inr (concat (map hex2 (take n data))))"

definition err :: "string \<Rightarrow> string" where
  \<open>err e = ''{"ok":false,"error":"'' @ e @ ''"}''\<close>

definition hw_err :: "qc_queue_result \<Rightarrow> string" where
  \<open>hw_err r = ''{"ok":false,"error":"hwaddr_read_failed","result":{"code":"'' @
     hw_code_name (r_hw_code r) @ ''","code_num":'' @ dec_int (r_hw_code r) @ ''}}''\<close>

definition range_err :: string where
  "range_err = err (''len out of range (1..'' @ dec_int 4096 @ '')'')"

text \<open>\<open>PROTO\<close> is the version that \<open>%d.%d\<close> prints.\<close>

definition PROTO :: string where
  "PROTO = dec_int 0 @ ''.'' @ dec_int 4"

definition console_body :: "string \<Rightarrow> u64 \<Rightarrow> nat \<Rightarrow> mem_stats \<Rightarrow> string \<Rightarrow> string" where
  \<open>console_body source writes text_len st esc =
     ''{"ok":true,"result":{"cols":'' @ dec_int 80 @ '',"rows":'' @ dec_int 25 @
     '',"writes":'' @ dec (unat writes) @ '',"text_len":'' @ dec text_len @
     '',"source":"'' @ source @ ''","mem_cb_fired":'' @ dec (unat (qc_mem_cb_fired st)) @
     '',"mem_cb_vga_hit":'' @ dec (unat (qc_mem_cb_vga_hit st)) @
     '',"text":"'' @ esc @ ''"}}''\<close>

definition emit_console :: "bool \<Rightarrow> string \<Rightarrow> nat \<Rightarrow> proto_st \<Rightarrow> string \<times> proto_st" where
  "emit_console ctx source out_len st =
     (if \<not> ctx \<or> svga (pq st) = None then (snprintf out_len (err ''vga unavailable''), st)
      else
        (let (text_len, buf, vga) = qc_vga_snapshot_text (svga (pq st)) (80 * 25 + 25 + 8);
             st = st\<lparr>pq := (pq st)\<lparr>svga := vga\<rparr>\<rparr>;
             writes = qc_vga_write_count vga
         in case json_escape (c_str (case buf of None \<Rightarrow> [] | Some b \<Rightarrow> b)) (80 * 25 * 6 + 512) of
              None \<Rightarrow> (snprintf out_len (err ''console escape overflow''), st)
            | Some esc \<Rightarrow>
                (let resp = console_body source writes text_len (pstats st) esc in
                 if out_len \<le> length resp
                 then (snprintf out_len (err ''console response too large''), st)
                 else (snprintf out_len resp, st))))"

definition ping_body :: string where
  \<open>ping_body = ''{"ok":true,"result":{"pong":true,"name":"qemu-connect","proto":"'' @ PROTO @ ''"}}''\<close>

definition ctx_flag :: "qc_proto_ctx option \<Rightarrow> (qc_proto_ctx \<Rightarrow> bool) \<Rightarrow> bool" where
  "ctx_flag ctx f = (case ctx of None \<Rightarrow> False | Some c \<Rightarrow> f c)"

definition version_body :: "qc_proto_ctx option \<Rightarrow> proto_st \<Rightarrow> string" where
  \<open>version_body ctx st =
     ''{"ok":true,"result":{"name":"qemu-connect","proto":"'' @ PROTO @
     ''","mem_cb_fired":'' @ dec (unat (qc_mem_cb_fired (pstats st))) @
     '',"mem_cb_vga_hit":'' @ dec (unat (qc_mem_cb_vga_hit (pstats st))) @
     '',"vga_refresh":'' @ json_bool (ctx_flag ctx vga_refresh_enabled) @
     '',"queue_timeout_ms":'' @
     dec_int (if ctx_flag ctx ctx_queue then qc_queue_timeout_ms (Some (sq (pq st)))
              else QUEUE_TIMEOUT_MS_DEFAULT) @ ''}}''\<close>

definition status_body :: "qc_proto_ctx option \<Rightarrow> proto_st \<Rightarrow> string" where
  \<open>status_body ctx st =
     (let hc = qc_hypercall_snapshot (phc st); ms = pstats st in
     ''{"ok":true,"result":{"name":"qemu-connect","proto":"'' @ PROTO @
     ''","socket_thread":'' @ json_bool (ctx_flag ctx socket_thread) @
     '',"vga":'' @ json_bool (ctx_flag ctx vga_enabled) @
     '',"vga_refresh":'' @ json_bool (ctx_flag ctx vga_refresh_enabled) @
     '',"hypercall":'' @ json_bool (ctx_flag ctx hypercall_enabled) @
     '',"vga_writes":'' @
     dec (unat (if ctx \<noteq> None \<and> svga (pq st) \<noteq> None then qc_vga_write_count (svga (pq st)) else 0)) @
     '',"mem_cb_fired":'' @ dec (unat (qc_mem_cb_fired ms)) @
     '',"mem_cb_vga_hit":'' @ dec (unat (qc_mem_cb_vga_hit ms)) @
     '',"discon":{"exception":'' @ dec (unat (qc_discon_exception ms)) @
     '',"interrupt":'' @ dec (unat (qc_discon_interrupt ms)) @
     '',"hostcall":'' @ dec (unat (qc_discon_hostcall ms)) @
     '',"total":'' @ dec (unat (qc_discon_total ms)) @
     ''},"agent":{"count":'' @ dec (unat (count hc)) @
     '',"last_cmd":'' @ dec (unat (last_cmd hc)) @
     '',"last_status":'' @ dec (unat (last_status hc)) @
     '',"last_name":"'' @ last_name hc @
     ''","pending_event":'' @ json_bool (have_event hc) @ ''}}}'')\<close>

definition no_event :: string where
  \<open>no_event = ''{"ok":true,"result":{"event":null}}''\<close>

definition event_body :: "qc_hypercall_state \<Rightarrow> string" where
  \<open>event_body hc =
     ''{"ok":true,"result":{"event":{"name":"'' @ last_name hc @
     ''","cmd":'' @ dec (unat (last_cmd hc)) @
     '',"status":'' @ dec (unat (last_status hc)) @
     '',"count":'' @ dec (unat (count hc)) @ ''}}}''\<close>

definition mem_read_body :: "u64 \<Rightarrow> nat \<Rightarrow> string \<Rightarrow> string" where
  \<open>mem_read_body phys data_len hex =
     ''{"ok":true,"result":{"phys":'' @ dec (unat phys) @ '',"len":'' @ dec data_len @
     '',"hex":"'' @ hex @ ''"}}''\<close>

section \<open>The handler\<close>

type_synonym handled = "(string \<times> vcpu_env \<times> proto_st) c_result"

text \<open>The command \<open>get_console\<close>, with a non-NULL context whose shadow is there.\<close>

definition handle_get_console ::
    "string \<Rightarrow> qc_proto_ctx \<Rightarrow> nat \<Rightarrow> vcpu_env \<Rightarrow> proto_st \<Rightarrow> handled" where
  "handle_get_console line ctx out_len env st =
     (if has_refresh_true line then
        (if \<not> vga_refresh_enabled ctx \<or> \<not> ctx_queue ctx
         then Inr (snprintf out_len (err ''refresh disabled''), env, st)
         else
           (case qc_queue_request_vga_refresh (\<not> ctx_queue ctx) (- 1) env (pq st) of
              Inl e \<Rightarrow> Inl e
            | Inr (qr, env, q) \<Rightarrow>
                (let st = st\<lparr>pq := q\<rparr> in
                 if r_status qr = QC_QUEUE_TIMEOUT \<or> r_status qr = QC_QUEUE_BUSY
                 then Inr (snprintf out_len (err ''vcpu_idle_timeout''), env, st)
                 else if r_status qr = QC_QUEUE_HW_FAIL
                 then Inr (snprintf out_len (hw_err qr), env, st)
                 else if r_status qr \<noteq> QC_QUEUE_OK
                 then Inr (snprintf out_len (err ''refresh failed''), env, st)
                 else (let (resp, st) = emit_console True ''refresh'' out_len st
                       in Inr (resp, env, st)))))
      else (let (resp, st) = emit_console True ''shadow'' out_len st in Inr (resp, env, st)))"

definition free_buf :: "nat \<Rightarrow> qsys \<Rightarrow> qsys" where
  "free_buf p q = q\<lparr>sheap := (sheap q)(p := None)\<rparr>"

text \<open>The command \<open>mem_read\<close> after its arguments have been checked.\<close>

definition handle_mem_read ::
    "malloc \<Rightarrow> u64 \<Rightarrow> nat \<Rightarrow> bool \<Rightarrow> nat \<Rightarrow> vcpu_env \<Rightarrow> proto_st \<Rightarrow> handled" where
  "handle_mem_read malloc phys n q_null out_len env st =
     (case malloc (sheap (pq st)) n of
        None \<Rightarrow> Inr (snprintf out_len (err ''oom''), env, st)
      | Some (p, garbage) \<Rightarrow>
          (case qc_queue_request_mem_read q_null phys n (Some p) (- 1) env
                  ((pq st)\<lparr>sheap := (sheap (pq st))(p \<mapsto> garbage)\<rparr>) of
             Inl e \<Rightarrow> Inl e
           | Inr (qr, env, q) \<Rightarrow>
               (let done_st = st\<lparr>pq := free_buf p q\<rparr> in
                if r_status qr = QC_QUEUE_TIMEOUT \<or> r_status qr = QC_QUEUE_BUSY
                then Inr (snprintf out_len (err ''vcpu_idle_timeout''), env, done_st)
                else if r_status qr \<noteq> QC_QUEUE_OK
                then Inr (snprintf out_len (hw_err qr), env, done_st)
                else if malloc (sheap q) (r_data_len qr * 2 + 1) = None
                then Inr (snprintf out_len (err ''oom''), env, done_st)
                else
                  (case sheap q p of
                     None \<Rightarrow> Inl Use_After_Free
                   | Some data \<Rightarrow>
                       (case hex_encode data (r_data_len qr) (r_data_len qr * 2 + 1) of
                          Inl e \<Rightarrow> Inl e
                        | Inr hex \<Rightarrow>
                            (let resp = mem_read_body phys (r_data_len qr) hex in
                             if out_len \<le> length resp
                             then Inr (snprintf out_len (err ''mem_read response too large''), env, done_st)
                             else Inr (snprintf out_len resp, env, done_st)))))))"

text \<open>\<open>req\<close> is the request line (None: NULL).\<close>

definition qc_protocol_handle ::
    "malloc \<Rightarrow> string option \<Rightarrow> qc_proto_ctx option \<Rightarrow> nat \<Rightarrow> vcpu_env \<Rightarrow> proto_st \<Rightarrow> handled" where
  \<open>qc_protocol_handle malloc req ctx out_len env st =
     (let reply = (\<lambda>text. Inr (snprintf out_len text, env, st)) in
      if out_len = 0 then Inr ([], env, st)
      else if req = None \<or> req = Some [] then reply (err ''empty request'')
      else (let line = the req in
        if has_cmd line ''ping'' \<or> strstr line ''"ping"'' \<noteq> None then reply ping_body
        else if has_cmd line ''version'' then reply (version_body ctx st)
        else if has_cmd line ''status'' then reply (status_body ctx st)
        else if has_cmd line ''get_agent_event'' then
          (case qc_hypercall_take_event (phc st) of
             (None, _) \<Rightarrow> reply no_event
           | (Some hc, h) \<Rightarrow> Inr (snprintf out_len (event_body hc), env, st\<lparr>phc := h\<rparr>))
        else if has_cmd line ''get_console'' then
          (if ctx = None \<or> svga (pq st) = None then reply (err ''vga unavailable'')
           else handle_get_console line (the ctx) out_len env st)
        else if has_cmd line ''mem_read'' then
          (if \<not> ctx_flag ctx ctx_queue then reply (err ''queue unavailable'')
           else
             (case (parse_u64_field line ''phys'', parse_u64_field line ''len'') of
                (Some phys, Some len64) \<Rightarrow>
                  if len64 = 0 \<or> of_nat MEM_READ_MAX < len64
                  then reply range_err
                  else handle_mem_read malloc phys (unat len64) (\<not> ctx_flag ctx ctx_queue) out_len env st
              | _ \<Rightarrow> reply (err ''mem_read requires phys and len'')))
        else reply (err ''unknown or unimplemented cmd'')))\<close>

section \<open>Escaping\<close>

definition esc_char :: "char \<Rightarrow> string" where
  "esc_char c = (case escape_of c of Some e \<Rightarrow> e | None \<Rightarrow> [c])"

definition escaped :: "string \<Rightarrow> string" where
  "escaped s = concat (map esc_char s)"

lemma escaped_simps [simp]: "escaped [] = []" "escaped (c # s) = esc_char c @ escaped s"
  by (simp_all add: escaped_def)

lemma escape_loop_eq:
  "length acc < dst_len \<Longrightarrow> escape_loop dst_len s acc =
     (if length acc + length (escaped s) < dst_len then Some (acc @ escaped s) else None)"
proof (induction s arbitrary: acc)
  case Nil
  then show ?case by simp
next
  case (Cons c s)
  show ?case
  proof (cases "escape_of c")
    case None
    then show ?thesis using Cons.prems Cons.IH [of "acc @ [c]"] by (auto simp: esc_char_def)
  next
    case (Some e)
    then show ?thesis using Cons.prems Cons.IH [of "acc @ e"] by (auto simp: esc_char_def)
  qed
qed

lemma json_escape_eq:
  "json_escape s n = (if length (escaped s) < n then Some (escaped s) else None)"
  by (simp add: json_escape_def escape_loop_eq)

lemma plain_esc_char: "plain (esc_char c)"
  by (auto simp: esc_char_def escape_of_def snprintf_def intro!: plain_take)

lemma plain_escaped [plain_intros]: "plain (escaped s)"
  by (induction s) (simp_all add: plain_esc_char)

lemma length_esc_char: "length (esc_char c) \<le> 6"
  by (auto simp: esc_char_def escape_of_def snprintf_def hex4_def)

lemma length_escaped: "length (escaped s) \<le> 6 * length s"
proof (induction s)
  case (Cons c s)
  then show ?case using length_esc_char [of c] by simp
qed simp

section \<open>Every request is answered by one line\<close>

text \<open>A text that fits the server's buffer with its newline and NUL, on one line.\<close>

definition fits :: "string \<Rightarrow> bool" where
  "fits s \<longleftrightarrow> s \<noteq> [] \<and> plain s \<and> length s + 1 < RESP_MAX"

lemma snprintf_fits [simp]: "fits s \<Longrightarrow> snprintf 32768 s = s"
  by (simp add: fits_def snprintf_def)

definition int32 :: "int \<Rightarrow> bool" where
  "int32 i \<longleftrightarrow> - (2 ^ 31) \<le> i \<and> i < 2 ^ 31"

lemma fits_err: "plain e \<Longrightarrow> length e < 1000 \<Longrightarrow> fits (err e)"
  by (simp add: fits_def err_def)

lemma fits_ping: "fits ping_body"
  using dec_int_length [of 0] dec_int_length [of 4]
  by (simp add: fits_def ping_body_def PROTO_def)

lemma plain_hw_code_name [simp]: "plain (hw_code_name c)"
  by (simp add: hw_code_name_def)

lemma length_hw_code_name: "length (hw_code_name c) \<le> 21"
  by (simp add: hw_code_name_def)

lemma fits_hw_err: "int32 (r_hw_code r) \<Longrightarrow> fits (hw_err r)"
  using dec_int_length [of "r_hw_code r"] length_hw_code_name [of "r_hw_code r"]
  by (simp add: fits_def hw_err_def int32_def)

lemma length_PROTO: "length PROTO \<le> 23"
  using dec_int_length [of 0] dec_int_length [of 4] by (simp add: PROTO_def)

lemma plain_PROTO [simp]: "plain PROTO"
  by (simp add: PROTO_def)

lemma length_json_bool: "length (json_bool b) \<le> 5"
  by (simp add: json_bool_def)

lemma fits_version:
  assumes "int32 (default_timeout_ms (sq (pq st)))"
  shows "fits (version_body ctx st)"
proof -
  let ?t = "if ctx_flag ctx ctx_queue then qc_queue_timeout_ms (Some (sq (pq st)))
            else QUEUE_TIMEOUT_MS_DEFAULT"
  have "length (dec_int ?t) \<le> 11"
    using assms by (intro dec_int_length) (auto simp: int32_def qc_queue_timeout_ms_def)
  then show ?thesis
    using length_PROTO length_json_bool [of "ctx_flag ctx vga_refresh_enabled"]
      dec_u64_length [of "qc_mem_cb_fired (pstats st)"]
      dec_u64_length [of "qc_mem_cb_vga_hit (pstats st)"]
    by (simp add: fits_def version_body_def)
qed

lemma hc_name_plain:
  assumes "hc_wf h"
  shows "plain (last_name (g_st h))" "length (last_name (g_st h)) \<le> 7"
  using assms by (auto simp: hc_wf_def cmd_name_def split: if_splits)

lemma fits_event:
  assumes "hc_wf h"
  shows "fits (event_body (g_st h))"
  using hc_name_plain [OF assms] dec_u64_length [of "count (g_st h)"]
    dec_u32_length [of "last_cmd (g_st h)"] dec_u32_length [of "last_status (g_st h)"]
  by (simp add: fits_def event_body_def)

lemma fits_status:
  assumes "hc_wf (phc st)"
  shows "fits (status_body ctx st)"
  using hc_name_plain [OF assms] length_PROTO
    length_json_bool [of "ctx_flag ctx socket_thread"] length_json_bool [of "ctx_flag ctx vga_enabled"]
    length_json_bool [of "ctx_flag ctx vga_refresh_enabled"]
    length_json_bool [of "ctx_flag ctx hypercall_enabled"]
    length_json_bool [of "have_event (g_st (phc st))"]
    dec_u64_length [of "if ctx \<noteq> None \<and> svga (pq st) \<noteq> None then qc_vga_write_count (svga (pq st)) else 0"]
    dec_u64_length [of "qc_mem_cb_fired (pstats st)"] dec_u64_length [of "qc_mem_cb_vga_hit (pstats st)"]
    dec_u64_length [of "qc_discon_exception (pstats st)"] dec_u64_length [of "qc_discon_interrupt (pstats st)"]
    dec_u64_length [of "qc_discon_hostcall (pstats st)"] dec_u64_length [of "qc_discon_total (pstats st)"]
    dec_u64_length [of "count (g_st (phc st))"]
    dec_u32_length [of "last_cmd (g_st (phc st))"] dec_u32_length [of "last_status (g_st (phc st))"]
  by (simp add: fits_def status_body_def Let_def qc_hypercall_snapshot_def)

lemma fits_console:
  assumes "plain source" "length source \<le> 10" "plain esc" "length esc \<le> 12144" "text_len \<le> 2024"
  shows "fits (console_body source writes text_len st esc)"
proof -
  have "length (dec text_len) \<le> 20" using assms(5) by (intro dec_length) auto
  then show ?thesis
    using assms(1-4) dec_int_length [of 80] dec_int_length [of 25] dec_u64_length [of writes]
      dec_u64_length [of "qc_mem_cb_fired st"] dec_u64_length [of "qc_mem_cb_vga_hit st"]
    by (simp add: fits_def console_body_def)
qed

lemma fits_mem_read:
  assumes "length bs \<le> MEM_READ_MAX"
  shows "fits (mem_read_body phys (length bs) (concat (map hex2 bs)))"
proof -
  have "length (concat (map hex2 bs)) = 2 * length bs"
    by (induction bs) (simp_all add: hex2_def)
  moreover have "length (dec (length bs)) \<le> 20" using assms by (intro dec_length) auto
  moreover have "plain (concat (map hex2 bs))" by (intro plain_concat) auto
  ultimately show ?thesis
    using assms dec_u64_length [of phys] by (simp add: fits_def mem_read_body_def)
qed

text \<open>The invariant of the handler's state, and of the parameters it is given.\<close>

definition malloc_ok :: "malloc \<Rightarrow> bool" where
  "malloc_ok malloc \<longleftrightarrow>
     (\<forall>h n p g. malloc h n = Some (p, g) \<longrightarrow> h p = None \<and> length g = n)"

definition env_ok :: "vcpu_env \<Rightarrow> bool" where
  "env_ok env \<longleftrightarrow> (\<forall>dt rd. (dt, rd) \<in> set env \<longrightarrow> (\<forall>p n. int32 (fst (rd p n))))"

definition proto_wf :: "proto_st \<Rightarrow> bool" where
  "proto_wf st \<longleftrightarrow> (\<forall>s. svga (pq st) = Some s \<longrightarrow> vga_wf s) \<and> hc_wf (phc st)
     \<and> slot_free (sq (pq st)) \<and> int32 (default_timeout_ms (sq (pq st)))"

definition handled_ok :: "handled \<Rightarrow> bool" where
  "handled_ok r = (case r of
     Inl e \<Rightarrow> False
   | Inr (resp, env, st) \<Rightarrow> fits resp \<and> env_ok env \<and> proto_wf st)"

lemma handled_ok_Inr [simp]:
  "handled_ok (Inr (resp, env, st)) \<longleftrightarrow> fits resp \<and> env_ok env \<and> proto_wf st"
  by (simp add: handled_ok_def)

lemma env_ok_tl: "env_ok env \<Longrightarrow> env_ok (tl env)"
  by (cases env) (auto simp: env_ok_def)

lemma env_ok_after: "env_ok env \<Longrightarrow> env_ok (env_after t env)"
  by (cases env) (auto simp: env_ok_def env_after_def)

lemma env_ok_code: "env_ok env \<Longrightarrow> \<not> too_late t env \<Longrightarrow> int32 (fst (snd (hd env) p n))"
  by (cases env) (auto simp: env_ok_def too_late_def)

lemma fits_hw_result:
  "int32 code \<Longrightarrow> fits (hw_err \<lparr>r_status = s, r_hw_code = code, r_data_len = n\<rparr>)"
  by (simp add: fits_hw_err)

lemma vga_wf_load: "qc_vga_load_cells (Some s) (Some raw) = Some s' \<Longrightarrow> vga_wf s'"
  using load_cells_vtext(1) by (simp add: vga_wf_def)

lemma load_cells_Some: "\<exists>s'. qc_vga_load_cells (Some s) (Some raw) = Some s'"
  by (simp add: qc_vga_load_cells_def Let_def)

definition console_text :: "qc_vga_state \<Rightarrow> string" where
  "console_text s = c_str (screen_text (vtext s))"

lemma emit_console_eq:
  assumes "svga (pq st) = Some s" "vga_wf s" "source = ''refresh'' \<or> source = ''shadow''"
  shows "emit_console True source 32768 st =
           (console_body source (write_count s) 2024 (pstats st) (escaped (console_text s)),
            st\<lparr>pq := (pq st)\<lparr>svga := Some (s\<lparr>dirty := False\<rparr>)\<rparr>\<rparr>)
         \<and> fits (console_body source (write_count s) 2024 (pstats st) (escaped (console_text s)))"
proof -
  have len: "length (screen_text (vtext s)) = 2024"
    using assms(2) by (simp add: vga_wf_def length_screen_text)
  have "length (console_text s) \<le> 2024"
    using length_takeWhile_le [of _ "screen_text (vtext s)"] len by (simp add: console_text_def c_str_def)
  then have esc: "length (escaped (console_text s)) \<le> 12144"
    using length_escaped [of "console_text s"] by linarith
  let ?b = "console_body source (write_count s) 2024 (pstats st) (escaped (console_text s))"
  have fits: "fits ?b"
    using assms(3) esc by (intro fits_console) (auto simp: plain_escaped)
  have "qc_vga_snapshot_text (svga (pq st)) 2033 =
      (2024, Some (screen_text (vtext s)), Some (s\<lparr>dirty := False\<rparr>))"
    using snapshot_prefix [OF assms(2), of 2033] assms(1) len by simp
  moreover have "json_escape (console_text s) 12512 = Some (escaped (console_text s))"
    using esc by (simp add: json_escape_eq)
  ultimately show ?thesis
    using assms(1) fits by (auto simp: emit_console_def Let_def qc_vga_write_count_def
        console_text_def [symmetric] fits_def snprintf_def)
qed

lemma emit_console_ok:
  assumes "proto_wf st" "svga (pq st) \<noteq> None" "source = ''refresh'' \<or> source = ''shadow''" "env_ok env"
  shows "handled_ok (let (resp, st) = emit_console True source 32768 st in Inr (resp, env, st))"
proof -
  obtain s where s: "svga (pq st) = Some s" "vga_wf s" using assms(1,2) by (auto simp: proto_wf_def)
  from emit_console_eq [OF s assms(3)] s assms(1,4) show ?thesis
    by (auto simp: proto_wf_def vga_wf_def)
qed

lemma get_console_ok:
  assumes "proto_wf st" "env_ok env" "svga (pq st) \<noteq> None"
  shows "handled_ok (handle_get_console line ctx 32768 env st)"
proof (cases "has_refresh_true line \<and> vga_refresh_enabled ctx \<and> ctx_queue ctx")
  case False
  then show ?thesis
    using assms emit_console_ok [of st "''shadow''" env]
    by (auto simp: handle_get_console_def fits_err)
next
  case True
  obtain s where s: "svga (pq st) = Some s" "vga_wf s" using assms by (auto simp: proto_wf_def)
  have free: "slot_free (sq (pq st))" using assms(1) by (simp add: proto_wf_def)
  let ?t = "effective_timeout (- 1) (sq (pq st))"
  obtain code buf where rd: "snd (hd env) VGA_PHYS VGA_BYTES = (code, buf)" by fastforce
  obtain s' where s': "qc_vga_load_cells (Some s) (Some buf) = Some s'"
    using load_cells_Some by blast
  obtain q' where q': "slot_after (sq (pq st)) q'"
    and out: "qc_queue_request_vga_refresh False (- 1) env (pq st) = Inr
      (if too_late ?t env
       then (result_of QC_QUEUE_TIMEOUT, env_after ?t env, (pq st)\<lparr>sq := q'\<rparr>)
       else if code = 0 \<and> buf \<noteq> []
       then (\<lparr>r_status = QC_QUEUE_OK, r_hw_code = 0, r_data_len = length buf\<rparr>, tl env,
             (pq st)\<lparr>sq := q', svga := Some s'\<rparr>)
       else (\<lparr>r_status = QC_QUEUE_HW_FAIL, r_hw_code = code, r_data_len = 0\<rparr>, tl env,
             (pq st)\<lparr>sq := q'\<rparr>))"
    using refresh_outcome [OF free s(1), of "- 1" env] rd s' by auto
  have wf: "proto_wf (st\<lparr>pq := (pq st)\<lparr>sq := q'\<rparr>\<rparr>)"
      "proto_wf (st\<lparr>pq := (pq st)\<lparr>sq := q', svga := Some s'\<rparr>\<rparr>)"
    using assms(1) q' vga_wf_load [OF s'] by (auto simp: proto_wf_def slot_after_def)
  consider "too_late ?t env" | "\<not> too_late ?t env" "code = 0 \<and> buf \<noteq> []"
    | "\<not> too_late ?t env" "\<not> (code = 0 \<and> buf \<noteq> [])" by blast
  then show ?thesis
  proof cases
    case 1
    then show ?thesis
      using True out wf(1) env_ok_after [OF assms(2)]
      by (simp add: handle_get_console_def result_of_def fits_err)
  next
    case 2
    then show ?thesis
      using True out env_ok_tl [OF assms(2)]
        emit_console_ok [OF wf(2), of "''refresh''" "tl env"]
      by (simp add: handle_get_console_def)
  next
    case 3
    then show ?thesis
      using True out wf(1) env_ok_tl [OF assms(2)] env_ok_code [OF assms(2) 3(1), of VGA_PHYS VGA_BYTES] rd
      by (auto simp: handle_get_console_def fits_hw_result)
  qed
qed

section \<open>Reading guest memory\<close>

definition hex_dump :: "byte list \<Rightarrow> string" where
  "hex_dump bs = concat (map hex2 bs)"

text \<open>
  The response to a valid \<open>mem_read\<close> and what is left of the environment, with the first
  vCPU's answer.
\<close>

definition mem_read_reply ::
    "malloc \<Rightarrow> u64 \<Rightarrow> nat \<Rightarrow> vcpu_env \<Rightarrow> qsys \<Rightarrow> string \<times> vcpu_env" where
  "mem_read_reply malloc phys n env s =
     (let t = effective_timeout (- 1) (sq s) in
      case malloc (sheap s) n of
        None \<Rightarrow> (err ''oom'', env)
      | Some (p, g) \<Rightarrow>
          if too_late t env then (err ''vcpu_idle_timeout'', env_after t env)
          else (let (code, buf) = snd (hd env) phys n; bs = take n buf in
                if code \<noteq> 0 \<or> buf = []
                then (hw_err \<lparr>r_status = QC_QUEUE_HW_FAIL, r_hw_code = code, r_data_len = 0\<rparr>, tl env)
                else if malloc ((sheap s)(p \<mapsto> read_into buf g)) (length bs * 2 + 1) = None
                then (err ''oom'', tl env)
                else (mem_read_body phys (length bs) (hex_dump bs), tl env)))"

lemma mem_read_reply_fits:
  assumes "env_ok env" "n \<le> MEM_READ_MAX"
  shows "fits (fst (mem_read_reply malloc phys n env s))"
proof (cases "malloc (sheap s) n = None \<or> too_late (effective_timeout (- 1) (sq s)) env")
  case True
  then show ?thesis by (auto simp: mem_read_reply_def Let_def fits_err split: option.split)
next
  case False
  obtain code buf where rd: "snd (hd env) phys n = (code, buf)" by fastforce
  then have "int32 code" using env_ok_code [OF assms(1), of _ phys n] False by fastforce
  moreover have "fits (mem_read_body phys (length (take n buf)) (hex_dump (take n buf)))"
    using fits_mem_read [of "take n buf" phys] assms(2) by (simp add: hex_dump_def)
  ultimately show ?thesis
    using False rd by (auto simp: mem_read_reply_def Let_def fits_err fits_hw_result split: option.split)
qed

lemma mem_read_reply_env: "env_ok env \<Longrightarrow> env_ok (snd (mem_read_reply malloc phys n env s))"
  by (auto simp: mem_read_reply_def Let_def env_ok_tl env_ok_after split: option.split prod.split)

lemma free_fresh: "h p = None \<Longrightarrow> h(p := None) = h"
  by auto

lemma handle_mem_read_eq:
  assumes "malloc_ok malloc" "slot_free (sq (pq st))" "0 < n" "n \<le> MEM_READ_MAX" "env_ok env"
  shows "\<exists>q'. slot_after (sq (pq st)) q' \<and>
    handle_mem_read malloc phys n False 32768 env st =
      (let (resp, env') = mem_read_reply malloc phys n env (pq st)
       in Inr (resp, env', st\<lparr>pq := (pq st)\<lparr>sq := q'\<rparr>\<rparr>))"
proof (cases "malloc (sheap (pq st)) n")
  case None
  then show ?thesis
    using assms(2)
    by (intro exI [of _ "sq (pq st)"])
       (simp add: handle_mem_read_def mem_read_reply_def Let_def fits_err slot_after_def)
next
  case (Some pg)
  obtain p g where pg: "pg = (p, g)" by fastforce
  with Some assms(1) have fresh: "sheap (pq st) p = None" "length g = n" by (auto simp: malloc_ok_def)
  let ?s = "(pq st)\<lparr>sheap := (sheap (pq st))(p \<mapsto> g)\<rparr>"
  let ?t = "effective_timeout (- 1) (sq (pq st))"
  have pre: "slot_free (sq ?s)" "sheap ?s p = Some g" using assms(2) by simp_all
  obtain code buf where rd: "snd (hd env) phys n = (code, buf)" by fastforce
  obtain q' where q': "slot_after (sq (pq st)) q'"
    and out: "qc_queue_request_mem_read False phys n (Some p) (- 1) env ?s = Inr
      (if too_late ?t env then (result_of QC_QUEUE_TIMEOUT, env_after ?t env, ?s\<lparr>sq := q'\<rparr>)
       else if code = 0 \<and> buf \<noteq> []
       then (\<lparr>r_status = QC_QUEUE_OK, r_hw_code = 0, r_data_len = min (length buf) n\<rparr>, tl env,
             ?s\<lparr>sq := q', sheap := (sheap (pq st))(p \<mapsto> read_into buf g)\<rparr>)
       else (\<lparr>r_status = QC_QUEUE_HW_FAIL, r_hw_code = code, r_data_len = 0\<rparr>, tl env,
             ?s\<lparr>sq := q'\<rparr>))"
    using mem_read_outcome [OF pre fresh(2), of phys "- 1" env] assms(3,4) rd by auto
  have free: "(sheap (pq st))(p := None) = sheap (pq st)" using fresh by (simp add: free_fresh)
  have hex: "hex_encode (read_into buf g) (min (length buf) n) (min (length buf) n * 2 + 1) =
      Inr (hex_dump (take n buf))"
    using fresh(2) by (auto simp: hex_encode_def read_into_def Let_def hex_dump_def min_def)
  have fits: "fits (fst (mem_read_reply malloc phys n env (pq st)))"
    using mem_read_reply_fits [OF assms(5,4)] .
  have len: "length (take n buf) = min (length buf) n" by simp
  show ?thesis
    using q' out rd free hex fits Some pg
    by (intro exI [of _ q'])
       (auto simp: handle_mem_read_def mem_read_reply_def Let_def free_buf_def result_of_def
          fits_def snprintf_def)
qed

section \<open>The handler as a line service\<close>

lemma mem_read_ok:
  assumes "malloc_ok malloc" "proto_wf st" "env_ok env" "0 < n" "n \<le> MEM_READ_MAX"
  shows "handled_ok (handle_mem_read malloc phys n False 32768 env st)"
proof -
  have free: "slot_free (sq (pq st))" using assms(2) by (simp add: proto_wf_def)
  from handle_mem_read_eq [OF assms(1) free assms(4,5,3), of phys] obtain q' where
    q': "slot_after (sq (pq st)) q'"
    and eq: "handle_mem_read malloc phys n False 32768 env st =
      (let (resp, env') = mem_read_reply malloc phys n env (pq st)
       in Inr (resp, env', st\<lparr>pq := (pq st)\<lparr>sq := q'\<rparr>\<rparr>))" by blast
  have "proto_wf (st\<lparr>pq := (pq st)\<lparr>sq := q'\<rparr>\<rparr>)"
    using assms(2) q' by (auto simp: proto_wf_def slot_after_def)
  then show ?thesis
    using mem_read_reply_fits [OF assms(3,5)] mem_read_reply_env [OF assms(3)]
    by (auto simp: eq Let_def split: prod.split) (metis fst_conv, metis snd_conv)
qed

lemma fits_range: "fits range_err"
  using dec_int_length [of 4096] unfolding range_err_def by (intro fits_err) auto

lemma u64_range:
  "\<not> (len64 = 0 \<or> of_nat MEM_READ_MAX < (len64 :: u64)) \<Longrightarrow> 0 < unat len64 \<and> unat len64 \<le> MEM_READ_MAX"
  by (auto simp: word_less_nat_alt unat_gt_0 not_less)

lemma fits_no_event: "fits no_event"
  by (simp add: fits_def no_event_def)

lemma take_event_ok:
  assumes "proto_wf st" "qc_hypercall_take_event (phc st) = (Some hc, h)"
  shows "fits (event_body hc) \<and> proto_wf (st\<lparr>phc := h\<rparr>)"
  using assms fits_event [of "phc st"] hc_wf_take_event [of "phc st"]
  by (auto simp: proto_wf_def qc_hypercall_take_event_def split: if_splits)

lemma handle_ok:
  assumes "malloc_ok malloc" "proto_wf st" "env_ok env"
  shows "handled_ok (qc_protocol_handle malloc req ctx 32768 env st)"
proof -
  have hc: "hc_wf (phc st)" and t: "int32 (default_timeout_ms (sq (pq st)))"
    using assms(2) by (simp_all add: proto_wf_def)
  note bodies = fits_ping fits_version [OF t] fits_status [OF hc] fits_no_event fits_range
  show ?thesis
    using assms take_event_ok [OF assms(2)] get_console_ok [OF assms(2,3)]
      mem_read_ok [OF assms] u64_range
    by (auto simp: qc_protocol_handle_def Let_def bodies fits_err
        split: prod.split option.split)
qed

text \<open>
  What the server is given as its handler: the parameters and the state of the plugin, with
  the server's response buffer.
\<close>

type_synonym plugin = "malloc \<times> qc_proto_ctx option \<times> vcpu_env \<times> proto_st"

definition serve_line :: "string \<Rightarrow> plugin \<Rightarrow> (string \<times> plugin) c_result" where
  "serve_line line pl =
     (case pl of (malloc, ctx, env, st) \<Rightarrow>
        (case qc_protocol_handle malloc (Some line) ctx RESP_MAX env st of
           Inl e \<Rightarrow> Inl e
         | Inr (resp, env, st) \<Rightarrow> Inr (resp, (malloc, ctx, env, st))))"

definition plugin_ok :: "plugin \<Rightarrow> bool" where
  "plugin_ok pl = (case pl of (malloc, ctx, env, st) \<Rightarrow>
     malloc_ok malloc \<and> env_ok env \<and> proto_wf st)"

lemma serve_line_ok:
  assumes "plugin_ok pl"
  shows "\<exists>resp pl'. serve_line line pl = Inr (resp, pl') \<and> plugin_ok pl' \<and>
           resp \<noteq> [] \<and> plain resp \<and> length resp + 1 < RESP_MAX"
proof -
  obtain malloc ctx env st where pl: "pl = (malloc, ctx, env, st)" by (cases pl)
  with assms have "handled_ok (qc_protocol_handle malloc (Some line) ctx 32768 env st)"
    by (intro handle_ok) (auto simp: plugin_ok_def)
  then show ?thesis
    using assms pl by (auto simp: handled_ok_def serve_line_def plugin_ok_def fits_def split: sum.splits)
qed

interpretation proto: line_service serve_line plugin_ok 32768
  using serve_line_ok by unfold_locales blast

section \<open>The documented requests\<close>

definition console_line :: string where
  \<open>console_line = ''{"cmd":"get_console"}''\<close>

definition refresh_line :: string where
  \<open>refresh_line = ''{"cmd":"get_console","refresh":true}''\<close>

definition event_line :: string where
  \<open>event_line = ''{"cmd":"get_agent_event"}''\<close>

definition mem_read_line :: "u64 \<Rightarrow> nat \<Rightarrow> string" where
  \<open>mem_read_line phys n =
     ''{"cmd":"mem_read","phys":'' @ dec (unat phys) @ '',"len":'' @ dec n @ ''}''\<close>

lemma strstr_dec:
  "\<not> is_digit 10 (hd pat) \<Longrightarrow> pat \<noteq> [] \<Longrightarrow> strstr (dec n @ r) pat = strstr r pat"
  by (rule strstr_skip) (use dec_is_digit in auto)

lemma DQ_no_digit: "\<not> is_digit 10 DQ"
  by (simp add: is_digit_def digit_val_def)

lemma is_digit_sep [simp]: "\<not> is_digit 16 (CHR '','')" "\<not> is_digit 16 (CHR ''}'')"
  by (simp_all add: is_digit_def digit_val_def)

lemma mem_read_line_cmd:
  "has_cmd (mem_read_line phys n) ''mem_read''"
  "\<not> has_cmd (mem_read_line phys n) ''ping''"
  "\<not> has_cmd (mem_read_line phys n) ''version''"
  "\<not> has_cmd (mem_read_line phys n) ''status''"
  "\<not> has_cmd (mem_read_line phys n) ''get_agent_event''"
  "\<not> has_cmd (mem_read_line phys n) ''get_console''"
  by (simp_all add: has_cmd_def snprintf_def mem_read_line_def strstr_dec DQ_no_digit)

lemma mem_read_line_no_ping: \<open>strstr (mem_read_line phys n) ''"ping"'' = None\<close>
  by (simp add: mem_read_line_def strstr_dec DQ_no_digit)

lemma mem_read_line_phys: "parse_u64_field (mem_read_line phys n) ''phys'' = Some phys"
proof -
  have "unat phys < 2 ^ 64" using unsigned_less [of phys, where ?'a = nat] by simp
  moreover have "dropWhile (\<lambda>c. c = SP) (dec (unat phys) @ r) = dec (unat phys) @ r" for r
    using dec_is_digit [OF hd_in_set [OF dec_nonempty], of "unat phys"]
    by (cases "dec (unat phys)") (auto simp: is_digit_def digit_val_def)
  ultimately show ?thesis
    using strtoull0_dec [of "unat phys" \<open>'',"len":'' @ dec n @ ''}''\<close>]
    by (simp add: parse_u64_field_def mem_read_line_def snprintf_def)
qed

lemma mem_read_line_len:
  assumes "n \<le> MEM_READ_MAX"
  shows "parse_u64_field (mem_read_line phys n) ''len'' = Some (of_nat n)"
proof -
  have "dropWhile (\<lambda>c. c = SP) (dec n @ r) = dec n @ r" for r
    using dec_is_digit [OF hd_in_set [OF dec_nonempty], of n]
    by (cases "dec n") (auto simp: is_digit_def digit_val_def)
  then show ?thesis
    using assms strtoull0_dec [of n "''}''"]
    by (simp add: parse_u64_field_def mem_read_line_def snprintf_def strstr_dec DQ_no_digit)
qed

lemma handle_mem_read_line:
  assumes "0 < n" "n \<le> MEM_READ_MAX" "ctx_queue ctx" "0 < out_len"
  shows "qc_protocol_handle malloc (Some (mem_read_line phys n)) (Some ctx) out_len env st =
           handle_mem_read malloc phys n False out_len env st"
proof -
  have "unat (of_nat n :: u64) = n" using assms(2) by (simp add: unat_of_nat take_bit_eq_mod)
  moreover have "(of_nat n :: u64) \<noteq> 0" "\<not> 4096 < (of_nat n :: u64)"
    using assms(1,2) by (auto simp: word_less_nat_alt word_unat_eq_iff unat_of_nat take_bit_eq_mod)
  moreover have "mem_read_line phys n \<noteq> []" by (simp add: mem_read_line_def)
  ultimately show ?thesis
    using assms mem_read_line_phys mem_read_line_len mem_read_line_no_ping
    by (simp add: qc_protocol_handle_def Let_def mem_read_line_cmd ctx_flag_def)
qed

lemma handle_console_line:
  assumes "svga (pq st) \<noteq> None" "0 < out_len"
  shows "qc_protocol_handle malloc (Some console_line) (Some ctx) out_len env st =
           (let (resp, st) = emit_console True ''shadow'' out_len st in Inr (resp, env, st))"
  using assms
  by (auto simp: qc_protocol_handle_def Let_def console_line_def has_cmd_def
      handle_get_console_def has_refresh_true_def snprintf_def [of 64])

lemma handle_refresh_line:
  assumes "svga (pq st) \<noteq> None" "0 < out_len"
  shows "qc_protocol_handle malloc (Some refresh_line) (Some ctx) out_len env st =
           handle_get_console refresh_line ctx out_len env st"
  using assms
  by (auto simp: qc_protocol_handle_def Let_def refresh_line_def has_cmd_def snprintf_def [of 64])

lemma handle_event_line:
  assumes "0 < out_len"
  shows "qc_protocol_handle malloc (Some event_line) ctx out_len env st =
     (case qc_hypercall_take_event (phc st) of
        (None, _) \<Rightarrow> Inr (snprintf out_len no_event, env, st)
      | (Some hc, h) \<Rightarrow> Inr (snprintf out_len (event_body hc), env, st\<lparr>phc := h\<rparr>))"
  using assms
  by (simp add: qc_protocol_handle_def Let_def event_line_def has_cmd_def snprintf_def [of 64])

section \<open>Properties\<close>

text \<open>A concrete allocator, context and state, for the examples.\<close>

definition slot_malloc :: malloc where
  "slot_malloc h n =
     (if h 7 = None then Some (7, replicate n 0)
      else if h 8 = None then Some (8, replicate n 0) else None)"

definition all_on :: qc_proto_ctx where
  "all_on = \<lparr>ctx_queue = True, vga_refresh_enabled = True, socket_thread = True,
             vga_enabled = True, hypercall_enabled = True\<rparr>"

definition fresh_st :: proto_st where
  "fresh_st =
     \<lparr>pq = \<lparr>sq = the (qc_queue_create True 250), sheap = Map.empty, svga = Some qc_vga_init\<rparr>,
      phc = qc_hypercall_init, pstats = ms guest_side_init\<rparr>"

lemma slot_malloc_ok: "malloc_ok slot_malloc"
  by (auto simp: malloc_ok_def slot_malloc_def split: if_splits)

lemma fresh_st_wf: "proto_wf fresh_st"
  by (simp add: proto_wf_def fresh_st_def vga_wf_init hc_wf_init qc_queue_create_def slot_free_def
      int32_def)

lemma fresh_st_sq: "slot_free (sq (pq fresh_st))" "default_timeout_ms (sq (pq fresh_st)) = 250"
  by (simp_all add: fresh_st_def qc_queue_create_def slot_free_def)



text \<open>
  C20: a \<open>mem_read\<close> request in the documented form, served in time by a vCPU that reads all
  the bytes, is answered with the same address and length and a hex text that decodes to
  exactly the bytes the vCPU read; the request leaks no buffer, and apart from the queue's
  job fields the state is as before.
\<close>

theorem mem_read_returns_guest_bytes:
  assumes "malloc_ok malloc" "proto_wf st" "env_ok ((dt, rd) # env)" "ctx_queue ctx"
    and "0 < n" "n \<le> MEM_READ_MAX"
    and "dt < default_timeout_ms (sq (pq st))" "rd phys n = (0, bytes)" "length bytes = n"
    and "malloc (sheap (pq st)) n = Some (p, g)"
    and "malloc ((sheap (pq st))(p \<mapsto> bytes)) (n * 2 + 1) \<noteq> None"
  shows "\<exists>q' hex. qc_protocol_handle malloc (Some (mem_read_line phys n)) (Some ctx) RESP_MAX ((dt, rd) # env) st
      = Inr (mem_read_body phys n hex, env, st\<lparr>pq := (pq st)\<lparr>sq := q'\<rparr>\<rparr>)
    \<and> unhex hex = Some bytes \<and> slot_free q'"
proof -
  have free: "slot_free (sq (pq st))" using assms(2) by (simp add: proto_wf_def)
  obtain q' where q': "slot_after (sq (pq st)) q'"
    and eq: "handle_mem_read malloc phys n False 32768 ((dt, rd) # env) st =
      (let (resp, env') = mem_read_reply malloc phys n ((dt, rd) # env) (pq st)
       in Inr (resp, env', st\<lparr>pq := (pq st)\<lparr>sq := q'\<rparr>\<rparr>))"
    using handle_mem_read_eq [OF assms(1) free assms(5,6,3), of phys] by blast
  have g: "length g = n" using assms(1,10) by (auto simp: malloc_ok_def)
  have "mem_read_reply malloc phys n ((dt, rd) # env) (pq st) =
      (mem_read_body phys n (hex_dump bytes), env)"
    using assms(5,7-11) g
    by (auto simp: mem_read_reply_def Let_def too_late_def effective_timeout_def read_into_def)
  then show ?thesis
    using eq q' assms(4-6)
    by (intro exI [of _ q'] exI [of _ "hex_dump bytes"])
       (simp add: handle_mem_read_line hex_dump_def unhex_dump slot_after_def)
qed

theorem mem_read_returns_guest_bytes_witness:
  "\<exists>q' hex. qc_protocol_handle slot_malloc (Some (mem_read_line 0x1000 2)) (Some all_on) RESP_MAX
       [(5, \<lambda>p n. (0, [0xAA, 0xBB]))] fresh_st
     = Inr (mem_read_body 0x1000 2 hex, [], fresh_st\<lparr>pq := (pq fresh_st)\<lparr>sq := q'\<rparr>\<rparr>)
   \<and> unhex hex = Some [0xAA, 0xBB]"
proof -
  have heap: "slot_malloc (sheap (pq fresh_st)) 2 = Some (7, replicate 2 0)"
      "slot_malloc ((sheap (pq fresh_st))(7 \<mapsto> [0xAA, 0xBB])) (2 * 2 + 1) \<noteq> None"
    by (simp_all add: fresh_st_def slot_malloc_def)
  have env: "env_ok [(5, \<lambda>p n. (0, [0xAA, 0xBB]))]" by (simp add: env_ok_def int32_def)
  show ?thesis
    using mem_read_returns_guest_bytes [where ctx = all_on and phys = "0x1000" and bytes = "[0xAA, 0xBB]",
        OF slot_malloc_ok fresh_st_wf env _ _ _ _ _ _ heap]
    by (auto simp: all_on_def fresh_st_sq)
qed

text \<open>A request with a negative length, which \<open>strtoull\<close> turns into a huge one.\<close>

definition bad_len_line :: string where
  \<open>bad_len_line = ''{"cmd":"mem_read","phys":4096,"len":-1}''\<close>

text \<open>
  A \<open>mem_read\<close> request whose address or length is missing, or whose length is 0 or above
  4096, is refused with an error, and it neither waits for a vCPU nor touches the queue, the
  heap, the shadow or the counters.
\<close>

theorem mem_read_bad_request:
  assumes "has_cmd line ''mem_read''" "\<not> has_cmd line ''ping''" \<open>strstr line ''"ping"'' = None\<close>
    and "\<not> has_cmd line ''version''" "\<not> has_cmd line ''status''" "\<not> has_cmd line ''get_agent_event''"
    and "\<not> has_cmd line ''get_console''" "line \<noteq> []" "ctx_queue ctx"
    and "parse_u64_field line ''phys'' = None \<or> parse_u64_field line ''len'' = None
         \<or> (\<exists>n. parse_u64_field line ''len'' = Some n \<and> (n = 0 \<or> 4096 < n))"
  shows "\<exists>e. qc_protocol_handle malloc (Some line) (Some ctx) RESP_MAX env st = Inr (e, env, st)
    \<and> (e = err ''mem_read requires phys and len'' \<or> e = range_err)"
  using assms fits_range fits_err [of "''mem_read requires phys and len''"]
  by (auto simp: qc_protocol_handle_def Let_def ctx_flag_def split: option.splits)

theorem mem_read_bad_request_witness:
  "\<exists>e. qc_protocol_handle slot_malloc (Some bad_len_line) (Some all_on)
       RESP_MAX [] fresh_st = Inr (e, [], fresh_st)
    \<and> (e = err ''mem_read requires phys and len'' \<or> e = range_err)"
proof -
  have "parse_u64_field bad_len_line ''len'' = Some (- 1)"
    by (simp add: bad_len_line_def parse_u64_field_def snprintf_def strtoull0_def is_space_def
        sign_of_def base_of_def is_digit_def digit_val_def digits_value_def)
  then have "\<exists>n. parse_u64_field bad_len_line ''len'' = Some n \<and> (n = 0 \<or> 4096 < n)" by auto
  then show ?thesis
    by (intro mem_read_bad_request) (simp_all add: has_cmd_def snprintf_def all_on_def bad_len_line_def)
qed

text \<open>
  \<open>get_agent_event\<close> delivers a pending event once: the first request returns the name,
  command, status and count of the last message, and a second one right after it returns
  null; nothing but the pending flag has changed.
\<close>

theorem agent_event_once:
  assumes "hc_wf (phc st)" "have_event (g_st (phc st))"
  shows "\<exists>st'. qc_protocol_handle malloc (Some event_line) ctx RESP_MAX env st
        = Inr (event_body (g_st (phc st)), env, st')
    \<and> qc_protocol_handle malloc (Some event_line) ctx RESP_MAX env st' = Inr (no_event, env, st')
    \<and> st' = st\<lparr>phc := (phc st)\<lparr>g_st := (g_st (phc st))\<lparr>have_event := False\<rparr>\<rparr>\<rparr>
    \<and> last_name (g_st (phc st)) = cmd_name (last_cmd (g_st (phc st)))"
  using assms fits_event [OF assms(1)] fits_no_event
  by (auto simp: handle_event_line qc_hypercall_take_event_def hc_wf_def split: if_splits)

theorem agent_event_once_witness:
  "\<exists>st'. qc_protocol_handle slot_malloc (Some event_line) None RESP_MAX []
        (fresh_st\<lparr>phc := try_commit (store_word 0 HC_MAGIC qc_hypercall_init)\<rparr>)
      = Inr (event_body (g_st (try_commit (store_word 0 HC_MAGIC qc_hypercall_init))), [], st')"
proof -
  let ?h = "try_commit (store_word 0 HC_MAGIC qc_hypercall_init)"
  have "hc_wf ?h"
    by (intro hc_wf_try_commit) (simp add: store_word_def hc_wf_note_store hc_wf_init)
  moreover have "have_event (g_st ?h)"
    by (subst try_commit_magic) (simp_all add: window_words qc_hypercall_init_def)
  ultimately show ?thesis
    using agent_event_once [of "fresh_st\<lparr>phc := ?h\<rparr>"] by auto
qed

end
