(* ===== verification/Cli_Text.thy ===== *)
theory Cli_Text
  imports Protocol
begin

text \<open>
  The text functions of the command line client (cli/main.c, cli/run.c, cli/session.c): the
  two decoders of the \<open>text\<close> field of a console response, the JSON printer of the session
  command, and the function that keeps the last non-blank lines of a console.

  A pointer into the response is the suffix it points to. Main results: both decoders are
  the inverse of the plugin's escaping on text without control characters, the whole
  request for a console shows the screen, and the tail is the last non-blank lines, cut to
  the buffer.
\<close>

section \<open>Decoding the text field\<close>

definition text_key :: string where
  \<open>text_key = ''"text":"''\<close>

text \<open>
  The loop of \<open>extract_text_field\<close> and \<open>extract_text\<close>: \<open>p\<close> is the input, \<open>acc\<close> what \<open>dst\<close>
  holds. The two copies differ in the case \<open>u\<close>, which only the first one has (\<open>uni\<close>).
\<close>

function text_loop :: "bool \<Rightarrow> nat \<Rightarrow> string \<Rightarrow> string \<Rightarrow> string" where
  "text_loop uni dst_len p acc =
     (if p = [] \<or> dst_len \<le> length acc + 1 then acc
      else if hd p = BS \<and> tl p \<noteq> [] then
        (let e = hd (tl p); r = tl (tl p) in
         if e = CHR ''n'' then text_loop uni dst_len r (acc @ [LF])
         else if e = CHR ''r'' then text_loop uni dst_len r (acc @ [CR])
         else if e = CHR ''t'' then text_loop uni dst_len r (acc @ [TAB])
         else if e = DQ then text_loop uni dst_len r (acc @ [DQ])
         else if e = BS then text_loop uni dst_len r (acc @ [BS])
         else if uni \<and> e = CHR ''u'' then text_loop uni dst_len (drop 4 r) (acc @ [CHR ''?''])
         else text_loop uni dst_len r (acc @ [e]))
      else if hd p = DQ then acc
      else text_loop uni dst_len (tl p) (acc @ [hd p]))"
  by pat_completeness auto
termination
  by (relation "measure (\<lambda>(uni, n, p, acc). length p)") (auto simp: neq_Nil_conv)

declare text_loop.simps [simp del]

text \<open>None is the return value -1.\<close>

definition extract_text_field :: "string \<Rightarrow> nat \<Rightarrow> string option" where
  "extract_text_field json dst_len =
     (case strstr json text_key of
        None \<Rightarrow> None
      | Some p \<Rightarrow> if dst_len = 0 then None
                  else Some (text_loop True dst_len (drop (length text_key) p) []))"

definition extract_text :: "string \<Rightarrow> nat \<Rightarrow> string option" where
  "extract_text json dst_len =
     (case strstr json text_key of
        None \<Rightarrow> None
      | Some p \<Rightarrow> if dst_len = 0 then None
                  else Some (text_loop False dst_len (drop (length text_key) p) []))"

section \<open>Printing JSON strings\<close>

definition print_char :: "char \<Rightarrow> string" where
  "print_char c =
     (if c = DQ then [BS, DQ]
      else if c = BS then [BS, BS]
      else if c = LF then [BS, CHR ''n'']
      else if c = CR then [BS, CHR ''r'']
      else if c = TAB then [BS, CHR ''t'']
      else if ord c < 32 then BS # ''u'' @ hex4 (ord c)
      else [c])"

definition json_escape_print :: "string option \<Rightarrow> string" where
  "json_escape_print s =
     (case s of None \<Rightarrow> [DQ, DQ] | Some s \<Rightarrow> DQ # concat (map print_char s) @ [DQ])"

section \<open>The last lines of a console\<close>

text \<open>
  The lines that the collection loop finds, at most \<open>k\<close>, each with its newline; the last one
  reaches to the end of the text.
\<close>

fun split_lines :: "nat \<Rightarrow> string \<Rightarrow> string list" where
  "split_lines 0 s = []"
| "split_lines (Suc k) s =
     (if s = [] then []
      else if k = 0 then [s]
      else (case strchr s LF of
              None \<Rightarrow> [s]
            | Some nl \<Rightarrow> (take (length s - length nl) s @ [LF]) # split_lines k (tl nl)))"

definition blank_line :: "string \<Rightarrow> bool" where
  "blank_line l = list_all (\<lambda>c. c = SP \<or> c = TAB \<or> c = CR \<or> c = LF) l"

text \<open>The indices from the last line on, until \<open>n\<close> are kept; \<open>i\<close> is one more than the C index.\<close>

fun keep_loop :: "string list \<Rightarrow> nat \<Rightarrow> nat \<Rightarrow> nat list \<Rightarrow> nat list" where
  "keep_loop ls n 0 kept = kept"
| "keep_loop ls n (Suc i) kept =
     (if n \<le> length kept then kept
      else if blank_line (ls ! i) then keep_loop ls n i kept
      else keep_loop ls n i (kept @ [i]))"

fun copy_loop :: "nat \<Rightarrow> string list \<Rightarrow> string \<Rightarrow> string" where
  "copy_loop left [] acc = acc"
| "copy_loop left (l # ls) acc =
     (if 1 < left then
        (let len = (if left \<le> length l then left - 1 else length l)
         in copy_loop (left - len) ls (acc @ take len l))
      else acc)"

text \<open>\<open>src\<close> is None when NULL; the result is the text in \<open>dst\<close>.\<close>

definition console_tail_nonblank :: "string option \<Rightarrow> nat \<Rightarrow> int \<Rightarrow> string" where
  "console_tail_nonblank src dst_len n =
     (if dst_len = 0 then []
      else if src = None \<or> src = Some [] \<or> n \<le> 0
      then snprintf dst_len (case src of None \<Rightarrow> [] | Some s \<Rightarrow> s)
      else (let ls = split_lines 256 (the src);
                kept = keep_loop ls (nat n) (length ls) []
            in copy_loop dst_len (map ((!) ls) (rev kept)) []))"

section \<open>The decoders undo the escaping\<close>

lemma text_loop_full: "dst_len \<le> length acc + 1 \<Longrightarrow> text_loop uni dst_len p acc = acc"
  by (subst text_loop.simps) simp

lemma text_loop_quote: "text_loop uni dst_len (DQ # r) acc = acc"
  by (subst text_loop.simps) simp

lemma text_loop_copy:
  "length acc + 1 < n \<Longrightarrow> c \<noteq> BS \<Longrightarrow> c \<noteq> DQ \<Longrightarrow>
     text_loop uni n (c # r) acc = text_loop uni n r (acc @ [c])"
  by (subst text_loop.simps) simp

lemma text_loop_escape:
  assumes "length acc + 1 < n"
  shows "text_loop uni n (BS # e # r) acc =
    (if e = CHR ''n'' then text_loop uni n r (acc @ [LF])
     else if e = CHR ''r'' then text_loop uni n r (acc @ [CR])
     else if e = CHR ''t'' then text_loop uni n r (acc @ [TAB])
     else if uni \<and> e = CHR ''u'' then text_loop uni n (drop 4 r) (acc @ [CHR ''?''])
     else text_loop uni n r (acc @ [e]))"
  using assms by (subst text_loop.simps) simp

lemma text_loop_word:
  "\<forall>c \<in> set w. c \<noteq> BS \<and> c \<noteq> DQ \<Longrightarrow> length acc < n \<Longrightarrow>
     text_loop uni n (w @ r) acc =
       (if length (acc @ w) < n then text_loop uni n r (acc @ w) else take (n - 1) (acc @ w))"
proof (induction w arbitrary: acc)
  case Nil
  then show ?case by simp
next
  case (Cons c w)
  show ?case
  proof (cases "length acc + 1 < n")
    case True
    with Cons show ?thesis by (simp add: text_loop_copy)
  next
    case False
    with Cons.prems(2) have n: "n = length acc + 1" by simp
    then show ?thesis by (simp add: text_loop_full)
  qed
qed

text \<open>What a decoder shows for a character: other control characters are lost.\<close>

definition view_char :: "bool \<Rightarrow> char \<Rightarrow> string" where
  "view_char uni c =
     (if 32 \<le> ord c \<or> c = LF \<or> c = CR \<or> c = TAB then [c]
      else if uni then ''?'' else ''u'' @ hex4 (ord c))"

lemma hex4_word: "\<forall>c \<in> set (hex4 n). c \<noteq> BS \<and> c \<noteq> DQ"
proof -
  have "ord (digit d) \<noteq> ord BS \<and> ord (digit d) \<noteq> ord DQ" if "d < 16" for d
    using that by (simp add: ord_digit_hex)
  then have "digit d \<noteq> BS \<and> digit d \<noteq> DQ" if "d < 16" for d using that by metis
  then show ?thesis by (simp add: hex4_def)
qed

lemma length_hex4 [simp]: "length (hex4 n) = 4"
  by (simp add: hex4_def)

lemma print_char_esc: "print_char c = esc_char c"
  by (simp add: print_char_def esc_char_def escape_of_def snprintf_def)

lemma text_loop_char:
  assumes "length acc + 1 < n"
  shows "text_loop uni n (esc_char c @ r) acc =
    (if length (acc @ view_char uni c) < n then text_loop uni n r (acc @ view_char uni c)
     else take (n - 1) (acc @ view_char uni c))"
proof -
  consider "c = DQ \<or> c = BS \<or> c = LF \<or> c = CR \<or> c = TAB"
    | "c \<noteq> LF" "c \<noteq> CR" "c \<noteq> TAB" "ord c < 32" "c \<noteq> DQ" "c \<noteq> BS"
    | "c \<noteq> DQ" "c \<noteq> BS" "32 \<le> ord c" by fastforce
  then show ?thesis
  proof cases
    case 1
    then show ?thesis
      using assms by (elim disjE) (simp_all add: esc_char_def escape_of_def view_char_def text_loop_escape)
  next
    case 2
    have esc: "esc_char c = BS # ''u'' @ hex4 (ord c)"
      using 2 by (simp add: esc_char_def escape_of_def snprintf_def)
    show ?thesis
    proof (cases uni)
      case True
      then show ?thesis using 2 assms by (simp add: esc text_loop_escape view_char_def)
    next
      case False
      then show ?thesis
        using 2 assms text_loop_word [OF hex4_word, of "acc @ ''u''" n False "ord c" r]
        by (simp add: esc text_loop_escape view_char_def)
    qed
  next
    case 3
    then have "esc_char c = [c]" by (auto simp: esc_char_def escape_of_def)
    with 3 assms show ?thesis by (simp add: text_loop_copy view_char_def)
  qed
qed

lemma text_loop_escaped:
  "length acc < n \<Longrightarrow>
     text_loop uni n (concat (map esc_char s) @ DQ # r) acc =
       take (n - 1) (acc @ concat (map (view_char uni) s))"
proof (induction s arbitrary: acc)
  case Nil
  then show ?case by (simp add: text_loop_quote)
next
  case (Cons c s)
  show ?case
  proof (cases "length acc + 1 < n")
    case True
    with Cons.IH [of "acc @ view_char uni c"] show ?thesis
      by (auto simp: text_loop_char take_add min_def)
  next
    case False
    with Cons.prems have "n = length acc + 1" by simp
    then show ?thesis by (simp add: text_loop_full)
  qed
qed

lemma text_loop_decodes:
  "0 < n \<Longrightarrow> text_loop uni n (concat (map esc_char s) @ DQ # r) [] =
     take (n - 1) (concat (map (view_char uni) s))"
  by (simp add: text_loop_escaped)

interpretation main_codec: text_codec esc_char "\<lambda>n p. text_loop True n p []" "view_char True"
  by unfold_locales (rule text_loop_decodes)

interpretation run_codec: text_codec esc_char "\<lambda>n p. text_loop False n p []" "view_char False"
  by unfold_locales (rule text_loop_decodes)

interpretation print_codec: text_codec print_char "\<lambda>n p. text_loop True n p []" "view_char True"
  by unfold_locales (simp add: print_char_esc [abs_def] text_loop_decodes)

section \<open>The text field of a console response\<close>

lemma strstr_console:
  assumes "source = ''refresh'' \<or> source = ''shadow''"
  shows "strstr (console_body source writes text_len st esc @ r) text_key =
           Some (text_key @ esc @ DQ # ''}}'' @ r)"
proof -
  have int: "strstr (dec_int 80 @ x) text_key = strstr x text_key"
      "strstr (dec_int 25 @ x) text_key = strstr x text_key" for x
    by (simp_all add: dec_int_def strstr_dec text_key_def DQ_no_digit)
  show ?thesis
    using assms
    by (elim disjE)
       (simp_all add: console_body_def text_key_def int [unfolded text_key_def] strstr_dec DQ_no_digit)
qed

lemma extract_console:
  assumes "source = ''refresh'' \<or> source = ''shadow''" "0 < n"
  shows "extract_text_field (console_body source writes text_len st (escaped s) @ r) n =
           Some (take (n - 1) (concat (map (view_char True) s)))"
    and "extract_text (console_body source writes text_len st (escaped s) @ r) n =
           Some (take (n - 1) (concat (map (view_char False) s)))"
  using assms(2) strstr_console [OF assms(1), of writes text_len st "escaped s" r]
  by (simp_all add: extract_text_field_def extract_text_def escaped_def text_loop_decodes)

lemma view_clean:
  "\<forall>c \<in> set s. 32 \<le> ord c \<or> c = LF \<or> c = CR \<or> c = TAB \<Longrightarrow> concat (map (view_char uni) s) = s"
  by (induction s) (auto simp: view_char_def)

lemma set_screen_from: "set (screen_from cells k) \<subseteq> set cells \<union> {LF}"
  by (induction k) (auto dest: in_set_takeD in_set_dropD)

lemma screen_clean:
  assumes "\<forall>c \<in> set cells. 32 \<le> ord c" "c \<in> set (screen_text cells)"
  shows "32 \<le> ord c \<or> c = LF"
  using assms set_screen_from [of cells VGA_ROWS] by (auto simp: screen_text_def)

lemma console_text_clean:
  assumes "\<forall>c \<in> set (vtext s). 32 \<le> ord c"
  shows "console_text s = screen_text (vtext s)"
proof -
  have "NUL \<notin> set (screen_text (vtext s))" using screen_clean [OF assms] by fastforce
  then show ?thesis by (simp add: console_text_def c_str_def takeWhile_not_idem)
qed

lemma extract_clean_console:
  assumes "source = ''refresh'' \<or> source = ''shadow''" "vga_wf s" "\<forall>c \<in> set (vtext s). 32 \<le> ord c"
  shows "extract_text_field (console_body source w l st (escaped (console_text s)) @ r) 2033
           = Some (screen_text (vtext s))"
    and "extract_text (console_body source w l st (escaped (console_text s)) @ r) 2033
           = Some (screen_text (vtext s))"
proof -
  have "\<forall>c \<in> set (screen_text (vtext s)). 32 \<le> ord c \<or> c = LF \<or> c = CR \<or> c = TAB"
    using screen_clean [OF assms(3)] by blast
  then have "concat (map (view_char u) (screen_text (vtext s))) = screen_text (vtext s)" for u
    by (rule view_clean)
  then show "extract_text_field (console_body source w l st (escaped (console_text s)) @ r) 2033
           = Some (screen_text (vtext s))"
    "extract_text (console_body source w l st (escaped (console_text s)) @ r) 2033
           = Some (screen_text (vtext s))"
    using assms(2) by (simp_all add: extract_console [OF assms(1)] console_text_clean [OF assms(3)]
        length_screen_text vga_wf_def)
qed

section \<open>The tail of a console\<close>

lemma keep_loop_eq:
  "length kept \<le> n \<Longrightarrow> keep_loop ls n i kept =
     kept @ take (n - length kept) (filter (\<lambda>j. \<not> blank_line (ls ! j)) (rev [0..<i]))"
proof (induction i arbitrary: kept)
  case 0
  then show ?case by simp
next
  case (Suc i)
  show ?case
  proof (cases "n \<le> length kept")
    case True
    with Suc.prems show ?thesis by simp
  next
    case False
    then obtain m where "n - length kept = Suc m" by (metis not_le Suc_diff_Suc)
    moreover from this have "n - Suc (length kept) = m" by simp
    ultimately show ?thesis using False Suc by auto
  qed
qed

lemma copy_loop_eq: "0 < left \<Longrightarrow> copy_loop left ls acc = acc @ take (left - 1) (concat ls)"
proof (induction ls arbitrary: left acc)
  case Nil
  then show ?case by simp
next
  case (Cons l ls)
  show ?case
  proof (cases "1 < left \<and> length l < left")
    case True
    then have "length l \<le> left - 1" by linarith
    then have "take (left - 1) l = l" by simp
    then show ?thesis
      using True Cons.IH [of "left - length l" "acc @ l"] by (simp add: diff_right_commute)
  next
    case False
    then show ?thesis
      using Cons.prems Cons.IH [of 1 "acc @ take (left - 1) l"] by auto
  qed
qed

lemma concat_split_lines: "0 < k \<Longrightarrow> concat (split_lines k s) = s"
proof (induction k s rule: split_lines.induct)
  case (2 k s)
  show ?case
  proof (cases "s = [] \<or> k = 0")
    case True
    then show ?thesis by auto
  next
    case False
    then have k: "s \<noteq> []" "k \<noteq> 0" by auto
    show ?thesis
    proof (cases "dropWhile (\<lambda>x. x \<noteq> LF) s")
      case Nil
      then have "strchr s LF = None" by (simp only: strchr_def list.case)
      then show ?thesis using k by simp
    next
      case (Cons y nl)
      then have nl: "strchr s LF = Some (y # nl)" by (simp only: strchr_def list.case)
      have y: "y = LF" using Cons by (metis (mono_tags) dropWhile_eq_Cons_conv)
      have s: "takeWhile (\<lambda>x. x \<noteq> LF) s @ LF # nl = s"
        using takeWhile_dropWhile_id [of "\<lambda>x. x \<noteq> LF" s] Cons y by simp
      have "length s - length (y # nl) = length (takeWhile (\<lambda>x. x \<noteq> LF) s)"
        using arg_cong [OF s, of length] by simp
      then have "take (length s - length (y # nl)) s = takeWhile (\<lambda>x. x \<noteq> LF) s"
        by (metis append_eq_conv_conj s)
      moreover have "concat (split_lines k nl) = nl" using 2 k nl by auto
      ultimately show ?thesis using k nl s by simp
    qed
  qed
qed simp

lemma length_split_lines: "length (split_lines k s) \<le> k"
  by (induction k s rule: split_lines.induct) (auto split: option.split)

lemma split_lines_ends:
  "\<forall>l \<in> set (butlast (split_lines k s)). \<exists>w. l = w @ [LF] \<and> LF \<notin> set w"
proof (induction k s rule: split_lines.induct)
  case (2 k s)
  show ?case
  proof (cases "strchr s LF")
    case None
    then show ?thesis by simp
  next
    case (Some nl)
    have suf: "dropWhile (\<lambda>x. x \<noteq> LF) s = nl"
      using Some by (auto simp: strchr_def split: list.splits)
    have "takeWhile (\<lambda>x. x \<noteq> LF) s @ nl = s" using takeWhile_dropWhile_id [of _ s] suf by metis
    then have "take (length s - length nl) s = takeWhile (\<lambda>x. x \<noteq> LF) s"
      by (metis add_diff_cancel_right' append_eq_conv_conj length_append)
    moreover have "LF \<notin> set (takeWhile (\<lambda>x. x \<noteq> LF) s)" by (rule set_takeWhile_not)
    ultimately show ?thesis using 2 Some by auto
  qed
qed simp

lemma filter_nth_upt: "map ((!) xs) (filter (\<lambda>j. P (xs ! j)) [0..<length xs]) = filter P xs"
proof -
  have "filter P (map ((!) xs) [0..<length xs]) = map ((!) xs) (filter (P \<circ> (!) xs) [0..<length xs])"
    by (rule filter_map)
  then show ?thesis by (simp add: map_nth comp_def)
qed

lemma tail_eq:
  assumes "0 < dst_len" "src \<noteq> []" "0 < n"
  shows "console_tail_nonblank (Some src) dst_len n =
    take (dst_len - 1)
      (concat (rev (take (nat n) (rev (filter (\<lambda>l. \<not> blank_line l) (split_lines 256 src))))))"
proof -
  let ?ls = "split_lines 256 src"
  have "map ((!) ?ls) (rev (keep_loop ?ls (nat n) (length ?ls) [])) =
      rev (take (nat n) (map ((!) ?ls) (rev (filter (\<lambda>j. \<not> blank_line (?ls ! j)) [0..<length ?ls]))))"
    by (simp add: keep_loop_eq rev_map rev_filter take_map)
  also have "\<dots> = rev (take (nat n) (rev (filter (\<lambda>l. \<not> blank_line l) ?ls)))"
    by (simp only: rev_map [symmetric] filter_nth_upt [where P = "\<lambda>l. \<not> blank_line l"])
  finally show ?thesis
    using assms by (simp add: console_tail_nonblank_def Let_def copy_loop_eq)
qed

section \<open>Properties\<close>

text \<open>
  A console request in the form the client sends, with a shadow of printable characters,
  is answered by a response from which both decoders of the client recover exactly the
  screen (25 rows joined by newlines), whatever follows the response in their buffer; the
  shadow itself is not changed.
\<close>

theorem console_request_shows_screen:
  assumes "svga (pq st) = Some s" "vga_wf s" "\<forall>c \<in> set (vtext s). 32 \<le> ord c"
  shows "\<exists>resp. qc_protocol_handle malloc (Some console_line) (Some ctx) RESP_MAX env st =
      Inr (resp, env, st\<lparr>pq := (pq st)\<lparr>svga := Some (s\<lparr>dirty := False\<rparr>)\<rparr>\<rparr>)
    \<and> extract_text_field (resp @ rest) 2033 = Some (screen_text (vtext s))
    \<and> extract_text (resp @ rest) 2033 = Some (screen_text (vtext s))"
proof -
  note emit = emit_console_eq [OF assms(1,2), of "''shadow''"]
  note shown = extract_clean_console [OF _ assms(2,3), of "''shadow''"]
  show ?thesis
    using emit shown assms(1) by (auto simp: handle_console_line)
qed

theorem console_request_shows_screen_witness:
  "\<exists>resp st'. qc_protocol_handle slot_malloc (Some console_line) (Some all_on) RESP_MAX [] fresh_st =
      Inr (resp, [], st') \<and> extract_text (resp @ [LF]) 2033 = Some (screen_text (replicate VGA_TEXT SP))"
  using console_request_shows_screen [of fresh_st qc_vga_init slot_malloc all_on "[]" "[LF]"] vga_wf_init
  by (auto simp: fresh_st_def qc_vga_init_def)



text \<open>
  A NUL character cell hides the rest of the screen from the client: the response still
  announces 2024 characters, but the decoded text ends before the cell's position.
\<close>

theorem console_nul_cell_truncates:
  assumes "svga (pq st) = Some s" "vga_wf s" "r < VGA_ROWS" "c < VGA_COLS"
    and "vtext s ! (r * VGA_COLS + c) = NUL"
  shows "\<exists>resp text. qc_protocol_handle malloc (Some console_line) (Some ctx) RESP_MAX env st =
      Inr (resp, env, st\<lparr>pq := (pq st)\<lparr>svga := Some (s\<lparr>dirty := False\<rparr>)\<rparr>\<rparr>)
    \<and> resp = console_body ''shadow'' (write_count s) 2024 (pstats st) (escaped (console_text s))
    \<and> extract_text_field resp 2033 = Some text \<and> length text \<le> 81 * r + c"
proof -
  let ?t = "screen_text (vtext s)"
  have nul: "?t ! (81 * r + c) = NUL"
    using assms(2-5) screen_text_nth [of "vtext s" r c] by (simp add: vga_wf_def)
  have len: "81 * r + c < length ?t" using assms(2-4) by (simp add: vga_wf_def length_screen_text)
  have short: "length (console_text s) \<le> 81 * r + c"
  proof (rule ccontr)
    assume "\<not> length (console_text s) \<le> 81 * r + c"
    then have less: "81 * r + c < length (console_text s)" by simp
    then have "console_text s ! (81 * r + c) = NUL"
      using nul by (simp add: console_text_def c_str_def takeWhile_nth)
    moreover have "NUL \<notin> set (console_text s)" by (simp add: console_text_def c_str_def set_takeWhile_not)
    ultimately show False using nth_mem [OF less] by simp
  qed
  have "length (concat (map (view_char True) t)) = length t" for t
    by (induction t) (simp_all add: view_char_def)
  then have "length (take 2032 (concat (map (view_char True) (console_text s)))) \<le> 81 * r + c"
    using short by simp
  then show ?thesis
    using emit_console_eq [OF assms(1,2), of "''shadow''"] assms(1)
      extract_console(1) [of "''shadow''" 2033 _ _ _ _ "[]"]
    by (simp add: handle_console_line)
qed

theorem console_nul_cell_truncates_witness:
  "\<exists>resp st'. qc_protocol_handle slot_malloc (Some console_line) (Some all_on) RESP_MAX []
      (fresh_st\<lparr>pq := (pq fresh_st)\<lparr>svga := Some (qc_vga_init\<lparr>vtext := (vtext qc_vga_init)[0 := NUL]\<rparr>)\<rparr>\<rparr>)
      = Inr (resp, [], st') \<and> extract_text_field resp 2033 = Some []"
proof -
  let ?s = "qc_vga_init\<lparr>vtext := (vtext qc_vga_init)[0 := NUL]\<rparr>"
  have "vga_wf ?s" using vga_wf_init by (simp add: vga_wf_def)
  moreover have "vtext ?s ! (0 * VGA_COLS + 0) = NUL" using vga_wf_init by (simp add: vga_wf_def)
  ultimately show ?thesis
    using console_nul_cell_truncates [of "fresh_st\<lparr>pq := (pq fresh_st)\<lparr>svga := Some ?s\<rparr>\<rparr>" ?s 0 0
        slot_malloc all_on "[]"] by auto
qed

text \<open>
  The two decoders of the client disagree on the plugin's \<open>\\u00xx\<close> escape: for every
  control character other than newline, carriage return and tab, the \<open>get_console\<close> command
  shows a question mark, while \<open>run\<close> and \<open>session\<close> show the letter u and the four digits.
\<close>

theorem decoders_disagree_on_control:
  assumes "0 < ord c" "ord c < 32" "c \<noteq> LF" "c \<noteq> CR" "c \<noteq> TAB"
  shows "extract_text_field (text_key @ escaped [c] @ DQ # rest) 2033 = Some ''?''
    \<and> extract_text (text_key @ escaped [c] @ DQ # rest) 2033 = Some (CHR ''u'' # hex4 (ord c))"
  using assms text_loop_decodes [of 2033 _ "[c]" rest]
  by (simp add: extract_text_field_def extract_text_def strstr_head view_char_def)

theorem decoders_disagree_on_control_witness:
  "extract_text (text_key @ escaped [CHR 0x01] @ [DQ]) 2033 = Some ''u0001''"
  using decoders_disagree_on_control [of "CHR 0x01" "[]"] by (simp add: hex4_def digit_def)



end
