(* ===== verification/Server.thy ===== *)
theory Server
  imports Protocol
begin

text \<open>
  plugin/server.c: the control socket. The struct is the record \<open>qc_server\<close>: \<open>line_buf\<close> is
  what \<open>line_buf\<close> holds up to \<open>line_len\<close>, \<open>service\<close> is the state behind \<open>ctx\<close>, and the
  last three fields record what the outside sees (bytes written per connection, descriptors
  closed, paths unlinked).

  The request handler is a parameter \<open>h\<close> of the functions, as \<open>qc_protocol_handle\<close> is only
  called through its interface (locale \<open>line_service\<close>); theory \<open>Protocol\<close> provides
  \<open>serve_line\<close>. The results of system calls are arguments: a list of the outcomes that the
  kernel gives, one after the other. Past the end of the list, a write takes all that it is
  given, and a read or an accept says that nothing is there (\<open>EAGAIN\<close>). Descriptors are
  integers, -1 for none.

  Main results: how the stream is cut into reads does not matter, every line gets its own
  response line in order, partial writes are completed, and the exact bound at which a line
  is refused.
\<close>

section \<open>State\<close>

abbreviation (input) MAX_LINE :: nat where "MAX_LINE \<equiv> 8192"

record 's qc_server =
  listen_fd :: int
  client_fd :: int
  path :: string
  use_thread :: bool
  thread_started :: bool
  stop :: bool
  line_buf :: string
  service :: 's
  sent :: "(int \<times> string) list"
  closed :: "int list"
  unlinked :: "string list"

type_synonym 's handler = "string \<Rightarrow> 's \<Rightarrow> (string \<times> 's) c_result"

section \<open>Outcomes of system calls\<close>

datatype write_outcome =
    W_some nat     \<comment> \<open>so many bytes were taken (at most what was given)\<close>
  | W_eintr
  | W_again bool   \<comment> \<open>EAGAIN; whether the poll for POLLOUT then succeeds\<close>
  | W_error

datatype accept_outcome =
    A_eintr | A_none
  | A_conn int bool \<comment> \<open>the descriptor, and whether it could be made non-blocking\<close>

datatype read_outcome =
    R_data string | R_eintr | R_again | R_eof | R_error

section \<open>Reading lines and writing responses\<close>

definition close_client :: "'s qc_server \<Rightarrow> 's qc_server" where
  "close_client srv =
     (let srv = (if client_fd srv \<ge> 0
                 then srv\<lparr>closed := closed srv @ [client_fd srv], client_fd := - 1\<rparr> else srv)
      in srv\<lparr>line_buf := []\<rparr>)"

text \<open>Whether all was written, and the bytes that were.\<close>

fun write_all :: "write_outcome list \<Rightarrow> string \<Rightarrow> string \<Rightarrow> bool \<times> string \<times> write_outcome list" where
  "write_all ws [] out = (True, out, ws)"
| "write_all [] rest out = (True, out @ rest, [])"
| "write_all (W_some n # ws) rest out = write_all ws (drop n rest) (out @ take n rest)"
| "write_all (W_eintr # ws) rest out = write_all ws rest out"
| "write_all (W_again ready # ws) rest out =
     (if ready then write_all ws rest out else (False, out, ws))"
| "write_all (W_error # ws) rest out = (False, out, ws)"

definition strip_eol :: "string \<Rightarrow> string" where
  "strip_eol l = rev (dropWhile (\<lambda>c. c = CR \<or> c = LF) (rev l))"

text \<open>\<open>line_buf[n] = 0\<close> is outside the array when \<open>n\<close> is its size.\<close>

definition handle_complete_line ::
    "'s handler \<Rightarrow> write_outcome list \<Rightarrow> 's qc_server \<Rightarrow> ('s qc_server \<times> write_outcome list) c_result" where
  "handle_complete_line h ws srv =
     (let line = strip_eol (line_buf srv) in
      if MAX_LINE \<le> length line then Inl Out_Of_Bounds
      else
        (case h (c_str line) (service srv) of
           Inl e \<Rightarrow> Inl e
         | Inr (resp, s) \<Rightarrow>
             (let resp = c_str resp;
                  resp = (if length resp + 1 < RESP_MAX then resp @ [LF] else resp);
                  (ok, out, ws) = write_all ws resp [];
                  srv = srv\<lparr>service := s, sent := sent srv @ [(client_fd srv, out)]\<rparr>;
                  srv = (if \<not> ok then close_client srv else srv)
              in Inr (srv\<lparr>line_buf := []\<rparr>, ws))))"

fun feed_client_bytes ::
    "'s handler \<Rightarrow> string \<Rightarrow> write_outcome list \<Rightarrow> 's qc_server \<Rightarrow>
       ('s qc_server \<times> write_outcome list) c_result" where
  "feed_client_bytes h [] ws srv = Inr (srv, ws)"
| "feed_client_bytes h (c # data) ws srv =
     (if c = LF then
        (case handle_complete_line h ws srv of
           Inl e \<Rightarrow> Inl e
         | Inr (srv, ws) \<Rightarrow>
             if client_fd srv < 0 then Inr (srv, ws) else feed_client_bytes h data ws srv)
      else if MAX_LINE \<le> length (line_buf srv) then Inr (close_client srv, ws)
      else feed_client_bytes h data ws (srv\<lparr>line_buf := line_buf srv @ [c]\<rparr>))"

fun try_accept :: "accept_outcome list \<Rightarrow> 's qc_server \<Rightarrow> 's qc_server" where
  "try_accept [] srv = srv"
| "try_accept (A_eintr # as) srv = try_accept as srv"
| "try_accept (A_none # as) srv = srv"
| "try_accept (A_conn c nonblock # as) srv =
     (if \<not> nonblock then srv\<lparr>closed := closed srv @ [c]\<rparr>
      else (if client_fd srv \<ge> 0 then close_client srv else srv)\<lparr>client_fd := c, line_buf := []\<rparr>)"

fun try_read_client ::
    "'s handler \<Rightarrow> read_outcome list \<Rightarrow> write_outcome list \<Rightarrow> 's qc_server \<Rightarrow>
       ('s qc_server \<times> write_outcome list) c_result" where
  "try_read_client h [] ws srv = Inr (srv, ws)"
| "try_read_client h (R_eintr # rs) ws srv = try_read_client h rs ws srv"
| "try_read_client h (R_again # rs) ws srv = Inr (srv, ws)"
| "try_read_client h (R_error # rs) ws srv = Inr (close_client srv, ws)"
| "try_read_client h (R_eof # rs) ws srv = Inr (close_client srv, ws)"
| "try_read_client h (R_data buf # rs) ws srv =
     (case feed_client_bytes h buf ws srv of
        Inl e \<Rightarrow> Inl e
      | Inr (srv, ws) \<Rightarrow>
          if client_fd srv < 0 then Inr (srv, ws) else try_read_client h rs ws srv)"

section \<open>One step of the server\<close>

text \<open>
  \<open>poll_ok\<close>: poll returned a positive number; \<open>rev_listen\<close>: POLLIN on the listening socket;
  \<open>rev_client\<close>: POLLIN, POLLERR or POLLHUP on the client, when it was polled.
\<close>

record step_input =
  poll_ok :: bool
  rev_listen :: bool
  rev_client :: bool
  accepts :: "accept_outcome list"
  reads :: "read_outcome list"
  writes :: "write_outcome list"

definition server_step :: "'s handler \<Rightarrow> step_input \<Rightarrow> 's qc_server option \<Rightarrow> 's qc_server option c_result" where
  "server_step h inp srv =
     (case srv of
        None \<Rightarrow> Inr None
      | Some srv \<Rightarrow>
          if listen_fd srv < 0 \<or> stop srv then Inr (Some srv)
          else if \<not> poll_ok inp then Inr (Some srv)
          else
            (let polled_client = (client_fd srv \<ge> 0);
                 srv = (if rev_listen inp then try_accept (accepts inp) srv else srv)
             in if polled_client \<and> client_fd srv \<ge> 0 \<and> rev_client inp
                then (case try_read_client h (reads inp) (writes inp) srv of
                        Inl e \<Rightarrow> Inl e
                      | Inr (srv, ws) \<Rightarrow> Inr (Some srv))
                else Inr (Some srv)))"

fun server_thread_main :: "'s handler \<Rightarrow> step_input list \<Rightarrow> 's qc_server \<Rightarrow> 's qc_server c_result" where
  "server_thread_main h [] srv = Inr srv"
| "server_thread_main h (inp # inps) srv =
     (if stop srv then Inr srv
      else (case server_step h inp (Some srv) of
              Inl e \<Rightarrow> Inl e
            | Inr None \<Rightarrow> Inr srv
            | Inr (Some srv) \<Rightarrow> server_thread_main h inps srv))"

definition qc_server_poll :: "'s handler \<Rightarrow> step_input \<Rightarrow> 's qc_server option \<Rightarrow> 's qc_server option c_result" where
  "qc_server_poll h inp srv =
     (case srv of
        None \<Rightarrow> Inr None
      | Some s \<Rightarrow> if use_thread s then Inr srv else server_step h inp srv)"

section \<open>Start and stop\<close>

record start_calls =
  calloc_ok :: bool
  socket_fd :: int
  bind_ok :: bool
  listen_ok :: bool
  nonblock_ok :: bool
  pthread_ok :: bool

abbreviation (input) DEFAULT_SOCK :: string where "DEFAULT_SOCK \<equiv> ''/tmp/qemu-connect.sock''"

definition server_path :: "string option \<Rightarrow> string" where
  "server_path socket_path =
     snprintf 108 (case socket_path of Some (c # cs) \<Rightarrow> c # cs | _ \<Rightarrow> DEFAULT_SOCK)"

text \<open>
  The result is the server (None: NULL), and the descriptors closed and paths unlinked on
  the way, which a failed start leaves behind it.
\<close>

definition qc_server_start ::
    "start_calls \<Rightarrow> string option \<Rightarrow> 's \<Rightarrow> bool \<Rightarrow> 's qc_server option \<times> int list \<times> string list" where
  "qc_server_start sys socket_path ctx thread =
     (let p = server_path socket_path;
          fd = socket_fd sys;
          srv = \<lparr>listen_fd = - 1, client_fd = - 1, path = p, use_thread = thread,
                 thread_started = False, stop = False, line_buf = [], service = ctx,
                 sent = [], closed = [], unlinked = [p]\<rparr>
      in if \<not> calloc_ok sys then (None, [], [])
         else if fd < 0 then (None, [], [p])
         else if \<not> bind_ok sys then (None, [fd], [p])
         else if \<not> listen_ok sys then (None, [fd], [p, p])
         else if \<not> nonblock_ok sys then (None, [fd], [p, p])
         else if thread \<and> \<not> pthread_ok sys then (None, [fd], [p, p])
         else (Some (srv\<lparr>listen_fd := fd, thread_started := thread\<rparr>), [], [p]))"

text \<open>The state that \<open>qc_server_stop\<close> leaves before it frees the server.\<close>

definition qc_server_stop :: "'s qc_server option \<Rightarrow> 's qc_server option" where
  "qc_server_stop srv =
     map_option (\<lambda>srv.
       (let srv = srv\<lparr>stop := True\<rparr>;
            srv = (if client_fd srv \<ge> 0
                   then srv\<lparr>closed := closed srv @ [client_fd srv], client_fd := - 1\<rparr> else srv);
            srv = (if listen_fd srv \<ge> 0
                   then srv\<lparr>closed := closed srv @ [listen_fd srv], listen_fd := - 1\<rparr> else srv);
            srv = srv\<lparr>thread_started := False\<rparr>
        in if path srv \<noteq> [] then srv\<lparr>unlinked := unlinked srv @ [path srv]\<rparr> else srv)) srv"

definition qc_server_path :: "'s qc_server option \<Rightarrow> string option" where
  "qc_server_path srv = map_option path srv"

definition qc_server_uses_thread :: "'s qc_server option \<Rightarrow> bool" where
  "qc_server_uses_thread srv = (case srv of None \<Rightarrow> False | Some s \<Rightarrow> use_thread s)"

section \<open>Writing\<close>

lemma write_all_result:
  "write_all ws rest out = (ok, out', ws') \<Longrightarrow>
     (\<exists>k. out' = out @ take k rest) \<and> (ok \<longrightarrow> out' = out @ rest)"
proof (induction ws rest out arbitrary: ok out' ws' rule: write_all.induct)
  case (3 n ws c rest out)
  then have "(\<exists>k. out' = (out @ take n (c # rest)) @ take k (drop n (c # rest))) \<and>
      (ok \<longrightarrow> out' = (out @ take n (c # rest)) @ drop n (c # rest))" by simp
  then obtain k where k: "out' = (out @ take n (c # rest)) @ take k (drop n (c # rest))"
    and ok: "ok \<longrightarrow> out' = out @ c # rest" by auto
  from k have "out' = out @ take (n + k) (c # rest)" by (simp only: take_add append_assoc)
  with ok show ?case by blast
next
  case (2 v va out)
  then show ?case by (auto intro: exI [of _ "length (v # va)"])
qed (auto split: if_splits intro: exI [of _ 0])

lemma write_all_regular: "write_all [] rest out = (True, out @ rest, [])"
  by (cases rest) auto

section \<open>Feeding\<close>

lemma feed_append:
  "client_fd srv \<ge> 0 \<Longrightarrow> feed_client_bytes h (xs @ ys) ws srv =
     (case feed_client_bytes h xs ws srv of
        Inl e \<Rightarrow> Inl e
      | Inr (srv', ws') \<Rightarrow>
          if client_fd srv' < 0 then Inr (srv', ws') else feed_client_bytes h ys ws' srv')"
proof (induction h xs ws srv rule: feed_client_bytes.induct)
  case (1 h ws srv)
  then show ?case by simp
next
  case (2 h c xs ws srv)
  show ?case
  proof (cases "c = LF")
    case True
    show ?thesis
      using 2 True by (auto split: sum.split)
  next
    case False
    then show ?thesis
      using 2 by (auto simp: close_client_def)
  qed
qed

lemma feed_segment:
  "LF \<notin> set seg \<Longrightarrow> length (line_buf srv) + length seg \<le> MAX_LINE \<Longrightarrow>
     feed_client_bytes h seg ws srv = Inr (srv\<lparr>line_buf := line_buf srv @ seg\<rparr>, ws)"
proof (induction seg arbitrary: srv)
  case Nil
  then show ?case by simp
next
  case (Cons c seg)
  then have "c \<noteq> LF" by auto
  with Cons show ?case using Cons.IH [of "srv\<lparr>line_buf := line_buf srv @ [c]\<rparr>"] by simp
qed

lemma feed_prefix:
  "LF \<notin> set seg \<Longrightarrow> length (line_buf srv) + length seg \<le> MAX_LINE \<Longrightarrow>
     feed_client_bytes h (seg @ data) ws srv =
       feed_client_bytes h data ws (srv\<lparr>line_buf := line_buf srv @ seg\<rparr>)"
proof (induction seg arbitrary: srv)
  case Nil
  then show ?case by simp
next
  case (Cons c seg)
  then have "c \<noteq> LF" by auto
  with Cons show ?case using Cons.IH [of "srv\<lparr>line_buf := line_buf srv @ [c]\<rparr>"] by simp
qed

lemma reads_are_feed:
  "client_fd srv \<ge> 0 \<Longrightarrow>
     try_read_client h (map R_data chunks) ws srv = feed_client_bytes h (concat chunks) ws srv"
proof (induction chunks arbitrary: ws srv)
  case Nil
  then show ?case by simp
next
  case (Cons ch chunks)
  then show ?case by (auto simp: feed_append split: sum.split)
qed

section \<open>Lines and responses\<close>

lemma length_strip_eol: "length (strip_eol l) \<le> length l"
  by (simp add: strip_eol_def length_dropWhile_le le_trans [OF length_dropWhile_le])

lemma strip_eol_id: "l = [] \<or> last l \<noteq> CR \<and> last l \<noteq> LF \<Longrightarrow> strip_eol l = l"
  by (cases l rule: rev_cases) (auto simp: strip_eol_def)

lemma c_str_no_NUL: "NUL \<notin> set (c_str s)"
  by (simp add: c_str_def set_takeWhile_not)

text \<open>The request that the handler sees for a line.\<close>

definition request_of :: "string \<Rightarrow> string" where
  "request_of l = c_str (strip_eol l)"

text \<open>Every line of the data, the first one with \<open>k\<close> characters before it, is short.\<close>

fun short_lines :: "nat \<Rightarrow> string \<Rightarrow> bool" where
  "short_lines k [] = True"
| "short_lines k (c # data) =
     (if c = LF then short_lines 0 data else Suc k < MAX_LINE \<and> short_lines (Suc k) data)"

lemma short_lines_mono: "short_lines k data \<Longrightarrow> j \<le> k \<Longrightarrow> short_lines j data"
  by (induction k data arbitrary: j rule: short_lines.induct) auto

text \<open>All the data that a list of read outcomes can deliver.\<close>

fun data_of :: "read_outcome list \<Rightarrow> string" where
  "data_of [] = []"
| "data_of (R_data b # rs) = b @ data_of rs"
| "data_of (r # rs) = data_of rs"

context line_service
begin

lemma complete_line_ok:
  assumes "inv (service srv)" "length (line_buf srv) < MAX_LINE" "max_resp \<le> 32768"
  shows "\<exists>resp s' ok out ws'. handle (request_of (line_buf srv)) (service srv) = Inr (resp, s') \<and> inv s'
    \<and> write_all ws (resp @ [LF]) [] = (ok, out, ws')
    \<and> handle_complete_line handle ws srv =
        Inr ((if ok then srv\<lparr>service := s', sent := sent srv @ [(client_fd srv, out)], line_buf := []\<rparr>
              else close_client (srv\<lparr>service := s', sent := sent srv @ [(client_fd srv, out)]\<rparr>)), ws')"
proof -
  obtain resp s' where h: "handle (request_of (line_buf srv)) (service srv) = Inr (resp, s')" "inv s'"
    and r: "plain resp" "length resp + 1 < 32768"
    using serve [OF assms(1), of "request_of (line_buf srv)"] c_str_no_NUL assms(3)
    by (fastforce simp: request_of_def)
  obtain ok out ws' where w: "write_all ws (resp @ [LF]) [] = (ok, out, ws')" by (metis prod_cases3)
  have "length (strip_eol (line_buf srv)) < MAX_LINE"
    using length_strip_eol [of "line_buf srv"] assms(2) by simp
  then have "handle_complete_line handle ws srv =
        Inr ((if ok then srv\<lparr>service := s', sent := sent srv @ [(client_fd srv, out)], line_buf := []\<rparr>
              else close_client (srv\<lparr>service := s', sent := sent srv @ [(client_fd srv, out)]\<rparr>)), ws')"
    using h r w by (simp add: handle_complete_line_def Let_def request_of_def c_str_plain close_client_def)
  with h w show ?thesis by blast
qed

lemma feed_defined:
  "inv (service srv) \<Longrightarrow> short_lines (length (line_buf srv)) (data @ rest) \<Longrightarrow>
   length (line_buf srv) < MAX_LINE \<Longrightarrow> max_resp \<le> 32768 \<Longrightarrow>
     \<exists>srv' ws'. feed_client_bytes handle data ws srv = Inr (srv', ws') \<and> inv (service srv')
       \<and> length (line_buf srv') < MAX_LINE
       \<and> (client_fd srv' < 0 \<or> short_lines (length (line_buf srv')) rest)"
proof (induction data arbitrary: ws srv)
  case Nil
  then show ?case by simp
next
  case (Cons c data)
  show ?case
  proof (cases "c = LF")
    case True
    obtain srv1 ws1 where hc: "handle_complete_line handle ws srv = Inr (srv1, ws1)"
      "inv (service srv1)" "line_buf srv1 = []"
      using complete_line_ok [OF Cons.prems(1,3,4), of ws] by (fastforce simp: close_client_def Let_def)
    show ?thesis
    proof (cases "client_fd srv1 < 0")
      case True
      with \<open>c = LF\<close> hc show ?thesis by simp
    next
      case False
      with \<open>c = LF\<close> hc Cons.IH [of srv1 ws1] Cons.prems(2,4) show ?thesis by simp
    qed
  next
    case False
    with Cons.IH [of "srv\<lparr>line_buf := line_buf srv @ [c]\<rparr>" ws] Cons.prems show ?thesis by simp
  qed
qed

lemma read_defined:
  "inv (service srv) \<Longrightarrow> short_lines (length (line_buf srv)) (data_of rs) \<Longrightarrow>
   length (line_buf srv) < MAX_LINE \<Longrightarrow> max_resp \<le> 32768 \<Longrightarrow>
     \<exists>srv' ws'. try_read_client handle rs ws srv = Inr (srv', ws') \<and> inv (service srv')
       \<and> length (line_buf srv') < MAX_LINE"
proof (induction rs arbitrary: ws srv)
  case Nil
  then show ?case by simp
next
  case (Cons r rs)
  show ?case
  proof (cases r)
    case (R_data buf)
    with Cons.prems feed_defined [of srv buf "data_of rs" ws] obtain srv' ws' where
      f: "feed_client_bytes handle buf ws srv = Inr (srv', ws')" "inv (service srv')"
        "length (line_buf srv') < MAX_LINE" "client_fd srv' < 0 \<or> short_lines (length (line_buf srv')) (data_of rs)"
      by auto
    with R_data Cons.IH [of srv' ws'] Cons.prems(4) show ?thesis by auto
  qed (use Cons in \<open>simp_all add: close_client_def Let_def\<close>)
qed

lemma step_defined:
  assumes "inv (service srv)" "short_lines (length (line_buf srv)) (data_of (reads inp))"
    and "length (line_buf srv) < MAX_LINE" "max_resp \<le> 32768"
  shows "\<exists>srv'. server_step handle inp (Some srv) = Inr (Some srv') \<and> inv (service srv')
    \<and> length (line_buf srv') < MAX_LINE"
proof -
  let ?srv = "if rev_listen inp then try_accept (accepts inp) srv else srv"
  have acc: "service (try_accept as s) = service s \<and> (line_buf (try_accept as s) = line_buf s \<or>
      line_buf (try_accept as s) = [])" for as and s :: "'a qc_server"
    by (induction as s rule: try_accept.induct) (auto simp: close_client_def Let_def)
  have "inv (service ?srv)" "short_lines (length (line_buf ?srv)) (data_of (reads inp))"
      "length (line_buf ?srv) < MAX_LINE"
    using assms(1-3) acc [of "accepts inp" srv] short_lines_mono [of "length (line_buf srv)" _ 0] by auto
  from read_defined [OF this assms(4), of "writes inp"] this assms(1,3) show ?thesis
    by (auto simp: server_step_def Let_def)
qed

lemma feed_line:
  assumes "inv (service srv)" "line_buf srv = []" "client_fd srv \<ge> 0"
    and "LF \<notin> set l" "length l < MAX_LINE" "max_resp \<le> 32768"
  shows "\<exists>resp s'. handle (request_of l) (service srv) = Inr (resp, s') \<and> inv s'
    \<and> (\<forall>data. feed_client_bytes handle (l @ LF # data) [] srv =
        feed_client_bytes handle data []
          (srv\<lparr>service := s', sent := sent srv @ [(client_fd srv, resp @ [LF])]\<rparr>))"
proof -
  have seg: "feed_client_bytes handle l [] srv = Inr (srv\<lparr>line_buf := l\<rparr>, [])"
    using assms(2,4,5) feed_segment [of l srv handle "[]"] by simp
  let ?srv = "srv\<lparr>line_buf := l\<rparr>"
  have pre: "inv (service ?srv)" "length (line_buf ?srv) < MAX_LINE" using assms(1,5) by simp_all
  obtain resp s' ok out ws' where h: "handle (request_of l) (service srv) = Inr (resp, s')" "inv s'"
    and w: "write_all [] (resp @ [LF]) [] = (ok, out, ws')"
    and hc: "handle_complete_line handle [] ?srv =
        Inr ((if ok then ?srv\<lparr>service := s', sent := sent ?srv @ [(client_fd ?srv, out)], line_buf := []\<rparr>
              else close_client (?srv\<lparr>service := s', sent := sent ?srv @ [(client_fd ?srv, out)]\<rparr>)), ws')"
    using complete_line_ok [OF pre assms(6), of "[]"] by auto
  have "ok" "out = resp @ [LF]" "ws' = []" using w by (simp_all add: write_all_regular)
  with hc have hc': "handle_complete_line handle [] ?srv =
      Inr (srv\<lparr>line_buf := [], service := s', sent := sent srv @ [(client_fd srv, resp @ [LF])]\<rparr>, [])"
    by simp
  have "srv\<lparr>line_buf := [], service := s', sent := x\<rparr> = srv\<lparr>service := s', sent := x\<rparr>" for x
    using assms(2) by (cases srv) simp
  then show ?thesis
    using h hc' seg assms(3) by (simp add: feed_append)
qed

lemma feed_lines:
  "inv (service srv) \<Longrightarrow> line_buf srv = [] \<Longrightarrow> client_fd srv \<ge> 0 \<Longrightarrow> max_resp \<le> 32768 \<Longrightarrow>
   \<forall>l \<in> set ls. LF \<notin> set l \<and> length l < MAX_LINE \<Longrightarrow>
     \<exists>rs s'. serve_all handle (map request_of ls) (service srv) = Inr (rs, s') \<and> length rs = length ls
       \<and> (\<forall>r \<in> set rs. r \<noteq> [] \<and> plain r)
       \<and> feed_client_bytes handle (concat (map (\<lambda>l. l @ [LF]) ls)) [] srv =
           Inr (srv\<lparr>service := s', sent := sent srv @ map (\<lambda>r. (client_fd srv, r @ [LF])) rs\<rparr>, [])"
proof (induction ls arbitrary: srv)
  case Nil
  then show ?case by simp
next
  case (Cons l ls)
  obtain resp s1 where h: "handle (request_of l) (service srv) = Inr (resp, s1)" "inv s1"
    and feed: "\<forall>data. feed_client_bytes handle (l @ LF # data) [] srv =
        feed_client_bytes handle data []
          (srv\<lparr>service := s1, sent := sent srv @ [(client_fd srv, resp @ [LF])]\<rparr>)"
    using feed_line [OF Cons.prems(1-3) _ _ Cons.prems(4), of l] Cons.prems(5) by auto
  have "resp \<noteq> [] \<and> plain resp"
    using serve [OF Cons.prems(1), of "request_of l"] h(1) c_str_no_NUL by (auto simp: request_of_def)
  moreover obtain rs s' where "serve_all handle (map request_of ls) s1 = Inr (rs, s')"
      "length rs = length ls" "\<forall>r \<in> set rs. r \<noteq> [] \<and> plain r"
    "feed_client_bytes handle (concat (map (\<lambda>l. l @ [LF]) ls)) []
         (srv\<lparr>service := s1, sent := sent srv @ [(client_fd srv, resp @ [LF])]\<rparr>) =
       Inr (srv\<lparr>service := s', sent := (sent srv @ [(client_fd srv, resp @ [LF])]) @
              map (\<lambda>r. (client_fd srv, r @ [LF])) rs\<rparr>, [])"
    using Cons.IH [of "srv\<lparr>service := s1, sent := sent srv @ [(client_fd srv, resp @ [LF])]\<rparr>"]
      Cons.prems h(2) by auto
  ultimately show ?case using h feed by simp
qed

end

lemma feed_too_long:
  assumes "LF \<notin> set l" "MAX_LINE < length l" "line_buf srv = []"
  shows "\<exists>srv'. feed_client_bytes h (l @ data) ws srv = Inr (srv', ws) \<and> srv' = close_client srv"
proof -
  obtain a c b where l: "l = a @ c # b" and a: "length a = MAX_LINE"
    using assms(2) by (metis id_take_nth_drop length_take min.absorb2 less_imp_le)
  have "feed_client_bytes h (a @ c # b @ data) ws srv =
      feed_client_bytes h (c # b @ data) ws (srv\<lparr>line_buf := a\<rparr>)"
    using feed_prefix [of a srv h "c # b @ data" ws] assms(1,3) a l by simp
  then show ?thesis
    using assms(1,3) a l by (auto simp: close_client_def Let_def)
qed

lemma server_path_nonempty [simp]: "server_path p \<noteq> []"
  by (auto simp: server_path_def snprintf_def split: option.split list.split)

lemma start_result:
  assumes "qc_server_start sys socket_path ctx thread = (res, cl, ul)" "calloc_ok sys" "socket_fd sys \<ge> 0"
  shows "res = None \<and> cl = [socket_fd sys] \<or>
    (\<exists>srv. res = Some srv \<and> cl = [] \<and> listen_fd srv = socket_fd sys \<and> closed srv = [] \<and> path srv \<noteq> [])"
proof -
  let ?r = "qc_server_start sys socket_path ctx thread"
  have r: "res = fst ?r" "cl = fst (snd ?r)" using assms(1) by simp_all
  show ?thesis
  proof (cases "bind_ok sys \<and> listen_ok sys \<and> nonblock_ok sys \<and> (thread \<longrightarrow> pthread_ok sys)")
    case True
    then show ?thesis using assms(2,3) unfolding r by (simp add: qc_server_start_def Let_def)
  next
    case False
    then have "fst ?r = None \<and> fst (snd ?r) = [socket_fd sys]"
      using assms(2,3) by (simp add: qc_server_start_def Let_def)
    then show ?thesis unfolding r by blast
  qed
qed

lemma stop_eq:
  "qc_server_stop (Some srv) = Some (srv\<lparr>stop := True,
      closed := closed srv @ (if client_fd srv \<ge> 0 then [client_fd srv] else [])
                           @ (if listen_fd srv \<ge> 0 then [listen_fd srv] else []),
      client_fd := (if client_fd srv \<ge> 0 then - 1 else client_fd srv),
      listen_fd := (if listen_fd srv \<ge> 0 then - 1 else listen_fd srv),
      thread_started := False,
      unlinked := unlinked srv @ (if path srv \<noteq> [] then [path srv] else [])\<rparr>)"
  by (cases srv) (simp add: qc_server_stop_def Let_def)

section \<open>Properties\<close>

definition demo_server :: "plugin qc_server" where
  "demo_server =
     \<lparr>listen_fd = 3, client_fd = 5, path = DEFAULT_SOCK, use_thread = True, thread_started = True,
      stop = False, line_buf = [], service = (slot_malloc, Some all_on, [], fresh_st),
      sent = [], closed = [], unlinked = []\<rparr>"

lemma demo_server_ok: "plugin_ok (service demo_server)" "line_buf demo_server = []" "client_fd demo_server = 5"
  by (simp_all add: demo_server_def plugin_ok_def slot_malloc_ok fresh_st_wf env_ok_def)

text \<open>
  C4: a connected client that sends lines of at most 8191 characters gets exactly one
  response line for every line, in the order of the lines, on its own connection, computed
  by the handler from the line without its line end, each handler call seeing the state that
  the previous one left; nothing is left in the line buffer and the client stays connected.
\<close>

theorem server_answers_lines_in_order:
  assumes "plugin_ok (service srv)" "line_buf srv = []" "client_fd srv \<ge> 0"
    and "\<forall>l \<in> set ls. LF \<notin> set l \<and> length l < MAX_LINE"
  shows "\<exists>rs pl. serve_all serve_line (map request_of ls) (service srv) = Inr (rs, pl)
    \<and> length rs = length ls \<and> (\<forall>r \<in> set rs. r \<noteq> [] \<and> LF \<notin> set r)
    \<and> feed_client_bytes serve_line (concat (map (\<lambda>l. l @ [LF]) ls)) [] srv =
        Inr (srv\<lparr>service := pl, sent := sent srv @ map (\<lambda>r. (client_fd srv, r @ [LF])) rs\<rparr>, [])"
  using proto.feed_lines [OF assms(1-3) order_refl assms(4)] plain_no_LF by blast

theorem server_answers_lines_in_order_witness:
  "\<exists>r1 r2 pl. feed_client_bytes serve_line (console_line @ LF # ''x'' @ [CR, LF]) [] demo_server =
     Inr (demo_server\<lparr>service := pl, sent := [(5, r1 @ [LF]), (5, r2 @ [LF])]\<rparr>, [])"
proof -
  have "\<forall>l \<in> set [console_line, ''x'' @ [CR]]. LF \<notin> set l \<and> length l < MAX_LINE"
    by (simp add: console_line_def)
  note answers = server_answers_lines_in_order [OF demo_server_ok(1,2) _ this]
  let ?ls = "[console_line, ''x'' @ [CR]]"
  obtain rs pl where len: "length rs = length ?ls"
    and feed: "feed_client_bytes serve_line (concat (map (\<lambda>l. l @ [LF]) ?ls)) [] demo_server =
       Inr (demo_server\<lparr>service := pl,
              sent := sent demo_server @ map (\<lambda>r. (client_fd demo_server, r @ [LF])) rs\<rparr>, [])"
  proof -
    have "client_fd demo_server \<ge> 0" by (simp add: demo_server_ok)
    from answers [OF this] that show thesis by blast
  qed
  from len obtain r1 r2 where "rs = [r1, r2]"
    by (auto simp: length_Suc_conv)
  with feed show ?thesis by (cases pl) (auto simp: demo_server_def)
qed

text \<open>
  C21: how the byte stream of a client is cut into reads makes no difference: two sequences
  of reads with the same bytes lead to the same server, the same responses and the same
  remaining system calls, whatever the outcomes of the writes.
\<close>

theorem server_chunking_irrelevant:
  assumes "client_fd srv \<ge> 0" "concat chunks1 = concat chunks2"
  shows "try_read_client h (map R_data chunks1) ws srv = try_read_client h (map R_data chunks2) ws srv"
  using assms by (simp add: reads_are_feed)

theorem server_chunking_irrelevant_witness:
  "try_read_client serve_line (map R_data [''{}'', [LF]]) [] demo_server =
   try_read_client serve_line (map R_data [''{}'' @ [LF]]) [] demo_server"
  by (rule server_chunking_irrelevant) (simp_all add: demo_server_ok)

text \<open>
  C26: one step of the server is defined whatever poll, accept, the reads and the writes
  return, and whatever bytes the client sends, as long as every line has at most 8191
  characters; the handler's state stays well-formed and the line buffer inside its array.
\<close>

theorem server_step_defined:
  assumes "plugin_ok (service srv)" "length (line_buf srv) < MAX_LINE"
    and "short_lines (length (line_buf srv)) (data_of (reads inp))"
  shows "\<exists>srv'. server_step serve_line inp (Some srv) = Inr (Some srv')
    \<and> plugin_ok (service srv') \<and> length (line_buf srv') < MAX_LINE"
  using proto.step_defined [OF assms(1,3,2) order_refl] .

theorem server_step_defined_witness:
  "\<exists>srv'. server_step serve_line
      \<lparr>poll_ok = True, rev_listen = True, rev_client = True, accepts = [A_eintr, A_conn 9 True],
       reads = [R_data (''abc'' @ [LF, NUL]), R_eintr, R_data [LF], R_error], writes = [W_eintr, W_some 3, W_error]\<rparr>
      (Some demo_server) = Inr (Some srv') \<and> plugin_ok (service srv')"
  using server_step_defined [of demo_server "\<lparr>poll_ok = True, rev_listen = True, rev_client = True,
      accepts = [A_eintr, A_conn 9 True],
      reads = [R_data (''abc'' @ [LF, NUL]), R_eintr, R_data [LF], R_error], writes = [W_eintr, W_some 3, W_error]\<rparr>"]
  by (auto simp: demo_server_ok)

text \<open>
  C35: The bound is off by one. A line of exactly 8192 characters passes the length check and
  its terminating NUL is written one byte past the array; only longer lines are refused, by
  dropping the client without an answer.
\<close>

theorem server_line_bound:
  assumes "line_buf srv = []" "LF \<notin> set l" "last l \<noteq> CR"
  shows "(length l = MAX_LINE \<longrightarrow> feed_client_bytes h (l @ [LF]) ws srv = Inl Out_Of_Bounds)
    \<and> (MAX_LINE < length l \<longrightarrow> feed_client_bytes h (l @ [LF]) ws srv = Inr (close_client srv, ws))"
proof (intro conjI impI)
  assume len: "length l = MAX_LINE"
  then have "l \<noteq> []" by auto
  then have "last l \<noteq> LF" using assms(2) last_in_set by metis
  then have "strip_eol l = l" using assms(3) by (intro strip_eol_id) simp
  then have "handle_complete_line h ws (srv\<lparr>line_buf := l\<rparr>) = Inl Out_Of_Bounds"
    using len by (simp add: handle_complete_line_def Let_def)
  then show "feed_client_bytes h (l @ [LF]) ws srv = Inl Out_Of_Bounds"
    using feed_prefix [of l srv h "[LF]" ws] assms(1,2) len by simp
next
  assume "MAX_LINE < length l"
  then show "feed_client_bytes h (l @ [LF]) ws srv = Inr (close_client srv, ws)"
    using feed_too_long [of l srv h "[LF]" ws] assms(1,2) by blast
qed

theorem server_line_bound_witness:
  "feed_client_bytes serve_line (replicate 8192 (CHR ''a'') @ [LF]) [] demo_server = Inl Out_Of_Bounds"
  using server_line_bound [of demo_server "replicate 8192 (CHR ''a'')" serve_line "[]"]
  by (simp add: demo_server_ok last_replicate)

text \<open>
  A start that fails after the socket was made closes it; a server that was started, and
  has had any client since, closes both descriptors when it is stopped, removes its socket
  file, and does nothing any more when it is polled or its thread runs on.
\<close>

theorem server_start_stop:
  assumes "qc_server_start sys socket_path ctx thread = (res, cl, ul)" "calloc_ok sys" "socket_fd sys \<ge> 0"
  shows "case res of
      None \<Rightarrow> cl = [socket_fd sys]
    | Some srv \<Rightarrow> cl = [] \<and> (\<exists>srv'. qc_server_stop (Some (srv\<lparr>client_fd := c\<rparr>)) = Some srv'
        \<and> set (closed srv') = (if c \<ge> 0 then {c, socket_fd sys} else {socket_fd sys})
        \<and> path srv \<in> set (unlinked srv') \<and> path srv \<noteq> []
        \<and> server_step h inp (Some srv') = Inr (Some srv'))"
  using start_result [OF assms] assms(3) by (auto simp: stop_eq server_step_def)

theorem server_start_stop_witness:
  "\<exists>srv srv'. fst (qc_server_start
        \<lparr>calloc_ok = True, socket_fd = 3, bind_ok = True, listen_ok = True, nonblock_ok = True, pthread_ok = True\<rparr>
        None () True) = Some srv
     \<and> qc_server_stop (Some (srv\<lparr>client_fd := 7\<rparr>)) = Some srv' \<and> set (closed srv') = {7, 3}"
proof -
  let ?sys = "\<lparr>calloc_ok = True, socket_fd = 3, bind_ok = True, listen_ok = True, nonblock_ok = True,
               pthread_ok = True\<rparr>"
  obtain srv :: "unit qc_server" and cl ul where r: "qc_server_start ?sys None () True = (Some srv, cl, ul)"
    by (simp add: qc_server_start_def Let_def)
  from server_start_stop [OF r, of 7 "\<lambda>l s. Inr ([], s)" undefined] r show ?thesis by auto
qed

end
