(* ===== verification/Agent.thy ===== *)
theory Agent
  imports Server
begin

text \<open>
  plugin/agent.c: the plugin's arguments, its installation, the callbacks that QEMU calls on
  the vCPU threads, and its removal. The static variables are the record \<open>agent\<close>; the state
  that the callbacks share with the server (queue, shadow, hypercall, counters) is the
  \<open>proto_st\<close> of theory \<open>Protocol\<close>, and \<open>queue_on\<close> is \<open>g_queue != NULL\<close>.

  \<open>os_malloc\<close> and \<open>os_env\<close> are the parameters of the request handler (the allocator and
  what the other vCPUs do while a request waits); a callback gets the guest memory that its
  vCPU reads. Callback registrations that QEMU is asked for are recorded.

  Main results: the last occurrence of an argument decides; after a successful installation
  the handler's invariant holds, and every callback keeps it.
\<close>

section \<open>State\<close>

record agent_config =
  g_socket_path :: string
  g_socket_thread :: bool
  g_vga_enabled :: bool
  g_vga_refresh :: bool
  g_hypercall :: bool
  g_queue_timeout_ms :: int

record agent =
  g_cfg :: agent_config
  queue_on :: bool
  g_ctx :: "qc_proto_ctx option"
  g_st :: proto_st
  g_server :: "plugin qc_server option"
  os_malloc :: malloc
  os_env :: vcpu_env
  stopped_servers :: "plugin qc_server list"
  plugin_outs :: "string list"
  registered :: bool

section \<open>Arguments\<close>

definition parse_bool_arg :: "string option \<Rightarrow> bool \<Rightarrow> bool" where
  "parse_bool_arg val default_val =
     (case val of
        None \<Rightarrow> default_val
      | Some v \<Rightarrow>
          if v = [] then default_val
          else if v = ''on'' \<or> v = ''1'' \<or> v = ''true'' \<or> v = ''yes'' then True
          else if v = ''off'' \<or> v = ''0'' \<or> v = ''false'' \<or> v = ''no'' then False
          else default_val)"

definition default_config :: agent_config where
  "default_config =
     \<lparr>g_socket_path = snprintf 256 DEFAULT_SOCK, g_socket_thread = True, g_vga_enabled = True,
      g_vga_refresh = True, g_hypercall = True, g_queue_timeout_ms = QUEUE_TIMEOUT_MS_DEFAULT\<rparr>"

text \<open>One argument; \<open>strncmp(a, key, n) == 0\<close> is \<open>prefix key a\<close>.\<close>

definition parse_arg :: "string \<Rightarrow> agent_config \<Rightarrow> agent_config" where
  "parse_arg a c =
     (if prefix ''socket='' a then c\<lparr>g_socket_path := snprintf 256 (drop 7 a)\<rparr>
      else if prefix ''socket_thread='' a then c\<lparr>g_socket_thread := parse_bool_arg (Some (drop 14 a)) True\<rparr>
      else if prefix ''vga='' a then c\<lparr>g_vga_enabled := parse_bool_arg (Some (drop 4 a)) True\<rparr>
      else if prefix ''vga_refresh='' a then c\<lparr>g_vga_refresh := parse_bool_arg (Some (drop 12 a)) True\<rparr>
      else if prefix ''hypercall='' a then c\<lparr>g_hypercall := parse_bool_arg (Some (drop 10 a)) True\<rparr>
      else if prefix ''vcpu_queue_timeout_ms='' a
      then (let v = atoi (drop 22 a) in if v > 0 then c\<lparr>g_queue_timeout_ms := v\<rparr> else c)
      else c)"

fun parse_loop :: "string option list \<Rightarrow> agent_config \<Rightarrow> agent_config" where
  "parse_loop [] c = c"
| "parse_loop (None # argv) c = parse_loop argv c"
| "parse_loop (Some a # argv) c = parse_loop argv (parse_arg a c)"

definition parse_args :: "string option list \<Rightarrow> agent_config" where
  "parse_args argv = parse_loop argv default_config"

section \<open>Callbacks\<close>

definition drain_queue :: "guest_reader \<Rightarrow> agent \<Rightarrow> agent c_result" where
  "drain_queue rd a =
     (if queue_on a
      then (case qc_queue_drain rd (pq (g_st a)) of
              Inl e \<Rightarrow> Inl e
            | Inr q \<Rightarrow> Inr (a\<lparr>g_st := (g_st a)\<lparr>pq := q\<rparr>\<rparr>))
      else Inr a)"

definition vcpu_tb_exec :: "guest_reader \<Rightarrow> agent \<Rightarrow> agent c_result" where
  "vcpu_tb_exec rd a = drain_queue rd a"

text \<open>The server works on the plugin's globals; they are copied in and out of its record.\<close>

definition poll_server :: "step_input \<Rightarrow> agent \<Rightarrow> agent c_result" where
  "poll_server inp a =
     (case g_server a of
        None \<Rightarrow> Inr a
      | Some srv \<Rightarrow>
          (case qc_server_poll serve_line inp
                  (Some (srv\<lparr>service := (os_malloc a, g_ctx a, os_env a, g_st a)\<rparr>)) of
             Inl e \<Rightarrow> Inl e
           | Inr None \<Rightarrow> Inr a
           | Inr (Some srv) \<Rightarrow>
               (case service srv of
                  (m, ctx, env, st) \<Rightarrow> Inr (a\<lparr>g_server := Some srv, os_env := env, g_st := st\<rparr>))))"

text \<open>
  The translation callback: the new state, the instructions on which a memory callback was
  registered, and whether the execution callback was.
\<close>

definition vcpu_tb_trans ::
    "guest_reader \<Rightarrow> step_input \<Rightarrow> 'i option list option \<Rightarrow> agent \<Rightarrow>
       (agent \<times> ('i \<times> bool) list \<times> bool) c_result" where
  "vcpu_tb_trans rd inp tb a =
     (case drain_queue rd a of
        Inl e \<Rightarrow> Inl e
      | Inr a \<Rightarrow>
          (case (if \<not> g_socket_thread (g_cfg a) \<and> g_server a \<noteq> None then poll_server inp a else Inr a) of
             Inl e \<Rightarrow> Inl e
           | Inr a \<Rightarrow>
               (let (insns, a) =
                  (if g_vga_enabled (g_cfg a) \<or> g_hypercall (g_cfg a)
                   then (let (insns, st) = qc_mem_instrument_tb tb (g_vga_enabled (g_cfg a))
                                             (g_hypercall (g_cfg a)) (pstats (g_st a))
                         in (insns, a\<lparr>g_st := (g_st a)\<lparr>pstats := st\<rparr>\<rparr>))
                   else ([], a))
                in Inr (a, insns, queue_on a))))"

definition vcpu_idle :: "guest_reader \<Rightarrow> agent \<Rightarrow> agent c_result" where
  "vcpu_idle rd a = drain_queue rd a"

definition vcpu_discon :: "u32 \<Rightarrow> u32 \<Rightarrow> u32 \<Rightarrow> u32 \<Rightarrow> agent \<Rightarrow> agent" where
  "vcpu_discon EXC IRQ HOST type a =
     a\<lparr>g_st := (g_st a)\<lparr>pstats := qc_discon_on_event EXC IRQ HOST type (pstats (g_st a))\<rparr>\<rparr>"

section \<open>Installation and removal\<close>

text \<open>\<open>stopped_servers\<close> records the freed server as \<open>qc_server_stop\<close> left it.\<close>

definition plugin_exit :: "agent \<Rightarrow> agent" where
  "plugin_exit a =
     (let a = (case g_server a of
                 None \<Rightarrow> a
               | Some srv \<Rightarrow>
                   a\<lparr>g_server := None,
                     stopped_servers := stopped_servers a @ [the (qc_server_stop (Some srv))]\<rparr>);
          a = (if queue_on a
               then a\<lparr>queue_on := False, g_st := (g_st a)\<lparr>pq := (pq (g_st a))\<lparr>sq := qc_queue_destroy (sq (pq (g_st a)))\<rparr>\<rparr>\<rparr>
               else a)
      in a\<lparr>plugin_outs := plugin_outs a @ [''qemu-connect: unloaded'' @ [LF]]\<rparr>)"

definition on_off :: "bool \<Rightarrow> string" where
  "on_off b = (if b then ''on'' else ''off'')"

text \<open>\<open>info\<close>: the target's name and whether it is a full system; None: NULL.\<close>

definition installed_msg ::
    "(string option \<times> bool) option \<Rightarrow> plugin qc_server \<Rightarrow> agent_config \<Rightarrow> string" where
  "installed_msg info srv c =
     snprintf 768
       (''qemu-connect: installed (target='' @
        (case info of Some (Some name, _) \<Rightarrow> name | _ \<Rightarrow> ''?'') @
        '' system='' @ (case info of Some (_, True) \<Rightarrow> ''yes'' | _ \<Rightarrow> ''no'') @
        '' socket='' @ path srv @
        '' thread='' @ on_off (qc_server_uses_thread (Some srv)) @
        '' vga='' @ on_off (g_vga_enabled c) @ '' refresh='' @ on_off (g_vga_refresh c) @
        '' hypercall='' @ on_off (g_hypercall c) @
        '' qtimeout='' @ dec_int (g_queue_timeout_ms c) @
        ''ms proto='' @ PROTO @ '')'' @ [LF])"

text \<open>\<open>queue_calloc\<close>: whether the queue's calloc succeeds. The result is the return value.\<close>

definition qemu_plugin_install ::
    "bool \<Rightarrow> start_calls \<Rightarrow> (string option \<times> bool) option \<Rightarrow> string option list \<Rightarrow> agent \<Rightarrow> int \<times> agent" where
  "qemu_plugin_install queue_calloc sys info argv a =
     (let c = parse_args argv;
          st = (g_st a)\<lparr>phc := qc_hypercall_init, pstats := qc_discon_init (pstats (g_st a)),
                        pq := (pq (g_st a))\<lparr>svga := Some qc_vga_init\<rparr>\<rparr>;
          a = a\<lparr>g_cfg := c, g_st := st\<rparr>
      in case qc_queue_create queue_calloc (g_queue_timeout_ms c) of
           None \<Rightarrow>
             (1, a\<lparr>plugin_outs := plugin_outs a @ [''qemu-connect: failed to create queue'' @ [LF]]\<rparr>)
         | Some q \<Rightarrow>
             (let a = a\<lparr>queue_on := True, g_st := st\<lparr>pq := (pq st)\<lparr>sq := q\<rparr>\<rparr>,
                        g_ctx := Some \<lparr>ctx_queue = True, vga_refresh_enabled = g_vga_refresh c,
                                       socket_thread = g_socket_thread c,
                                       vga_enabled = g_vga_enabled c,
                                       hypercall_enabled = g_hypercall c\<rparr>\<rparr>
              in case fst (qc_server_start sys (Some (g_socket_path c))
                             (os_malloc a, g_ctx a, os_env a, g_st a) (g_socket_thread c)) of
                   None \<Rightarrow>
                     (1, a\<lparr>queue_on := False,
                           g_st := (g_st a)\<lparr>pq := (pq (g_st a))\<lparr>sq := qc_queue_destroy q\<rparr>\<rparr>,
                           plugin_outs := plugin_outs a @ [''qemu-connect: failed to start control socket'' @ [LF]]\<rparr>)
                 | Some srv \<Rightarrow>
                     (0, a\<lparr>g_server := Some srv, registered := True,
                           plugin_outs := plugin_outs a @ [installed_msg info srv c]\<rparr>)))"

section \<open>Arguments, last occurrence first\<close>

definition present :: "'a option list \<Rightarrow> 'a list" where
  "present xs = concat (map (\<lambda>x. case x of None \<Rightarrow> [] | Some y \<Rightarrow> [y]) xs)"

definition last_value :: "string \<Rightarrow> string option list \<Rightarrow> string option" where
  "last_value key argv = map_option (drop (length key)) (find (prefix key) (rev (present argv)))"

lemma present_snoc [simp]: "present [] = []" "present (xs @ [None]) = present xs"
  "present (xs @ [Some a]) = present xs @ [a]"
  by (simp_all add: present_def)

lemma last_value_snoc [simp]:
  "last_value key [] = None" "last_value key (xs @ [None]) = last_value key xs"
  by (simp_all add: last_value_def)

lemma last_value_Some:
  "length key = n \<Longrightarrow> last_value key (xs @ [Some a]) =
     (if prefix key a then Some (drop n a) else last_value key xs)"
  by (auto simp: last_value_def)

lemmas last_value_keys =
  last_value_Some [of "''socket=''" 7, simplified] last_value_Some [of "''socket_thread=''" 14, simplified]
  last_value_Some [of "''vga=''" 4, simplified] last_value_Some [of "''vga_refresh=''" 12, simplified]
  last_value_Some [of "''hypercall=''" 10, simplified]

lemma parse_loop_snoc [simp]:
  "parse_loop (xs @ [None]) c = parse_loop xs c"
  "parse_loop (xs @ [Some a]) c = parse_arg a (parse_loop xs c)"
  by (induction xs c rule: parse_loop.induct) auto

lemma parse_arg_fields:
  "g_socket_path (parse_arg a c) =
     (if prefix ''socket='' a then snprintf 256 (drop 7 a) else g_socket_path c)"
  "g_socket_thread (parse_arg a c) =
     (if prefix ''socket_thread='' a then parse_bool_arg (Some (drop 14 a)) True else g_socket_thread c)"
  "g_vga_enabled (parse_arg a c) =
     (if prefix ''vga='' a then parse_bool_arg (Some (drop 4 a)) True else g_vga_enabled c)"
  "g_vga_refresh (parse_arg a c) =
     (if prefix ''vga_refresh='' a then parse_bool_arg (Some (drop 12 a)) True else g_vga_refresh c)"
  "g_hypercall (parse_arg a c) =
     (if prefix ''hypercall='' a then parse_bool_arg (Some (drop 10 a)) True else g_hypercall c)"
  "g_queue_timeout_ms (parse_arg a c) =
     (if prefix ''vcpu_queue_timeout_ms='' a \<and> atoi (drop 22 a) > 0 then atoi (drop 22 a)
      else g_queue_timeout_ms c)"
  by (auto simp: parse_arg_def Let_def prefix_def)

lemma timeout_range: "0 < g_queue_timeout_ms (parse_args argv) \<and> int32 (g_queue_timeout_ms (parse_args argv))"
proof (induction argv rule: rev_induct)
  case Nil
  then show ?case by (simp add: parse_args_def default_config_def int32_def)
next
  case (snoc x xs)
  then show ?case
    using atoi_range by (cases x) (auto simp: parse_args_def parse_arg_fields int32_def)
qed

section \<open>Invariant\<close>

definition agent_service :: "agent \<Rightarrow> plugin" where
  "agent_service a = (os_malloc a, g_ctx a, os_env a, g_st a)"

definition agent_ok :: "agent \<Rightarrow> bool" where
  "agent_ok a \<longleftrightarrow> plugin_ok (agent_service a)
     \<and> (\<forall>srv. g_server a = Some srv \<longrightarrow> length (line_buf srv) < MAX_LINE)"

lemma drain_queue_free: "slot_free (sq (pq (g_st a))) \<Longrightarrow> drain_queue rd a = Inr a"
  by (simp add: drain_queue_def qc_queue_drain_def drain_take_def slot_free_def)

lemma agent_ok_free: "agent_ok a \<Longrightarrow> slot_free (sq (pq (g_st a)))"
  by (simp add: agent_ok_def agent_service_def plugin_ok_def proto_wf_def)

lemma poll_server_ok:
  assumes "agent_ok a" "\<forall>srv. g_server a = Some srv \<longrightarrow> short_lines (length (line_buf srv)) (data_of (reads inp))"
  shows "\<exists>a'. poll_server inp a = Inr a' \<and> agent_ok a' \<and> g_cfg a' = g_cfg a \<and> queue_on a' = queue_on a"
proof (cases "g_server a")
  case None
  with assms(1) show ?thesis by (simp add: poll_server_def)
next
  case (Some srv)
  let ?srv = "srv\<lparr>service := agent_service a\<rparr>"
  show ?thesis
  proof (cases "use_thread srv")
    case True
    with Some assms(1) show ?thesis
      by (simp add: poll_server_def qc_server_poll_def agent_ok_def agent_service_def)
  next
    case False
    have "plugin_ok (service ?srv)" "short_lines (length (line_buf ?srv)) (data_of (reads inp))"
        "length (line_buf ?srv) < MAX_LINE"
      using assms Some by (auto simp: agent_ok_def)
    from proto.step_defined [OF this order_refl] obtain srv' where
      srv': "server_step serve_line inp (Some ?srv) = Inr (Some srv')" "plugin_ok (service srv')"
        "length (line_buf srv') < MAX_LINE" by blast
    obtain m ctx env st where svc: "service srv' = (m, ctx, env, st)" by (cases "service srv'")
    have "plugin_ok (os_malloc a, g_ctx a, env, st)"
      using srv'(2) svc assms(1) by (auto simp: plugin_ok_def agent_ok_def agent_service_def)
    then show ?thesis
      using Some False srv' svc
      by (simp add: poll_server_def qc_server_poll_def agent_ok_def agent_service_def)
  qed
qed

lemma agent_ok_stats [simp]:
  "agent_ok (a\<lparr>g_st := (g_st a)\<lparr>pstats := st\<rparr>\<rparr>) = agent_ok a"
  by (simp add: agent_ok_def agent_service_def plugin_ok_def proto_wf_def)

text \<open>What a start leaves when it succeeds.\<close>

lemma start_Some:
  "fst (qc_server_start sys p s thread) = Some srv \<Longrightarrow>
     line_buf srv = [] \<and> client_fd srv = - 1 \<and> path srv = server_path p \<and> use_thread srv = thread"
  by (auto simp: qc_server_start_def Let_def split: if_splits)

section \<open>Properties\<close>

text \<open>
  The last occurrence of an argument decides, with the documented defaults where there
  is none; the socket path is cut to 255 characters; an unreadable switch value counts as
  on; the queue timeout is always positive and fits an int.
\<close>

theorem plugin_args_last_wins:
  "g_socket_path (parse_args argv) =
     take 255 (case last_value ''socket='' argv of None \<Rightarrow> DEFAULT_SOCK | Some v \<Rightarrow> v)
   \<and> g_socket_thread (parse_args argv) = parse_bool_arg (last_value ''socket_thread='' argv) True
   \<and> g_vga_enabled (parse_args argv) = parse_bool_arg (last_value ''vga='' argv) True
   \<and> g_vga_refresh (parse_args argv) = parse_bool_arg (last_value ''vga_refresh='' argv) True
   \<and> g_hypercall (parse_args argv) = parse_bool_arg (last_value ''hypercall='' argv) True
   \<and> 0 < g_queue_timeout_ms (parse_args argv) \<and> g_queue_timeout_ms (parse_args argv) < 2 ^ 31"
proof -
  have t: "0 < g_queue_timeout_ms (parse_args argv) \<and> g_queue_timeout_ms (parse_args argv) < 2 ^ 31"
    using timeout_range by (simp add: int32_def)
  have "g_socket_path (parse_args argv) =
     take 255 (case last_value ''socket='' argv of None \<Rightarrow> DEFAULT_SOCK | Some v \<Rightarrow> v)
   \<and> g_socket_thread (parse_args argv) = parse_bool_arg (last_value ''socket_thread='' argv) True
   \<and> g_vga_enabled (parse_args argv) = parse_bool_arg (last_value ''vga='' argv) True
   \<and> g_vga_refresh (parse_args argv) = parse_bool_arg (last_value ''vga_refresh='' argv) True
   \<and> g_hypercall (parse_args argv) = parse_bool_arg (last_value ''hypercall='' argv) True"
  proof (induction argv rule: rev_induct)
    case Nil
    then show ?case
      by (simp add: parse_args_def default_config_def parse_bool_arg_def snprintf_def)
  next
    case (snoc x xs)
    then show ?case
      by (cases x) (simp_all add: parse_args_def parse_arg_fields snprintf_def last_value_keys)
  qed
  with t show ?thesis by blast
qed

text \<open>
  C30: installation either fails with 1 and leaves neither a queue nor a server, or returns 0
  with both: then the context has the flags of the arguments, the queue their timeout, the
  server their socket path (cut to 107 characters; the default for an empty one), the event
  window is empty, and the request handler's invariant holds, so that every theorem about
  the server and the handler applies.
\<close>

theorem install_establishes_service:
  assumes "malloc_ok (os_malloc a)" "env_ok (os_env a)" "g_server a = None" "\<not> queue_on a"
    and "qemu_plugin_install queue_calloc sys info argv a = (rc, a')"
  shows "rc = 1 \<and> \<not> queue_on a' \<and> g_server a' = None \<or>
    rc = 0 \<and> queue_on a' \<and> agent_ok a' \<and>
    (\<exists>srv ctx. g_server a' = Some srv \<and> path srv = server_path (Some (g_socket_path (parse_args argv)))
       \<and> g_ctx a' = Some ctx \<and> ctx_queue ctx
       \<and> socket_thread ctx = g_socket_thread (parse_args argv)
       \<and> vga_refresh_enabled ctx = g_vga_refresh (parse_args argv)
       \<and> default_timeout_ms (sq (pq (g_st a'))) = g_queue_timeout_ms (parse_args argv)
       \<and> phc (g_st a') = qc_hypercall_init)"
proof (cases queue_calloc)
  case False
  then show ?thesis
    using assms(3-5) by (auto simp: qemu_plugin_install_def Let_def qc_queue_create_def)
next
  case True
  let ?c = "parse_args argv"
  obtain q where q: "qc_queue_create True (g_queue_timeout_ms ?c) = Some q"
      "slot_free q" "default_timeout_ms q = g_queue_timeout_ms ?c"
    using timeout_range [of argv] by (simp add: qc_queue_create_def slot_free_def)
  let ?ctx = "\<lparr>ctx_queue = True, vga_refresh_enabled = g_vga_refresh ?c, socket_thread = g_socket_thread ?c,
              vga_enabled = g_vga_enabled ?c, hypercall_enabled = g_hypercall ?c\<rparr>"
  let ?st = "(g_st a)\<lparr>phc := qc_hypercall_init, pstats := qc_discon_init (pstats (g_st a)),
              pq := (pq (g_st a))\<lparr>svga := Some qc_vga_init, sq := q\<rparr>\<rparr>"
  let ?start = "fst (qc_server_start sys (Some (g_socket_path ?c)) (os_malloc a, Some ?ctx, os_env a, ?st)
                   (g_socket_thread ?c))"
  have wf: "plugin_ok (os_malloc a, Some ?ctx, os_env a, ?st)"
    using assms(1,2) q timeout_range [of argv]
    by (simp add: plugin_ok_def proto_wf_def vga_wf_init hc_wf_init)
  show ?thesis
  proof (cases ?start)
    case None
    then show ?thesis
      using assms(3,5) True q(1) by (auto simp: qemu_plugin_install_def Let_def)
  next
    case (Some srv)
    then show ?thesis
      using assms(5) True q wf start_Some [OF Some]
      by (auto simp: qemu_plugin_install_def Let_def agent_ok_def agent_service_def)
  qed
qed

text \<open>An agent before installation, with system calls that all succeed.\<close>

definition blank_agent :: agent where
  "blank_agent = \<lparr>g_cfg = default_config, queue_on = False, g_ctx = None, g_st = fresh_st, g_server = None,
     os_malloc = slot_malloc, os_env = [], stopped_servers = [], plugin_outs = [], registered = False\<rparr>"

definition good_calls :: start_calls where
  "good_calls = \<lparr>calloc_ok = True, socket_fd = 3, bind_ok = True, listen_ok = True, nonblock_ok = True,
     pthread_ok = True\<rparr>"

theorem install_establishes_service_witness:
  "agent_ok (snd (qemu_plugin_install True good_calls None [Some ''vga=off''] blank_agent))"
proof -
  obtain rc a' where r: "qemu_plugin_install True good_calls None [Some ''vga=off''] blank_agent = (rc, a')"
    by fastforce
  have ok: "malloc_ok (os_malloc blank_agent)" "env_ok (os_env blank_agent)"
      "g_server blank_agent = None" "\<not> queue_on blank_agent"
    by (simp_all add: blank_agent_def slot_malloc_ok env_ok_def)
  have "rc = 0"
    using r by (auto simp: qemu_plugin_install_def Let_def qc_queue_create_def qc_server_start_def good_calls_def)
  then show ?thesis using install_establishes_service [OF ok r] r by simp
qed

text \<open>
  The translation callback, in either socket mode, keeps the plugin's invariant: between
  two requests the drain finds no job and changes nothing, the polled server step is defined
  for every outcome of its system calls as long as the client's lines are short, and
  instrumenting the block only touches the hypercall switch.
\<close>

theorem tb_trans_keeps_invariant:
  assumes "agent_ok a"
    and "\<forall>srv. g_server a = Some srv \<longrightarrow> short_lines (length (line_buf srv)) (data_of (reads inp))"
  shows "\<exists>a' insns. vcpu_tb_trans rd inp tb a = Inr (a', insns, queue_on a) \<and> agent_ok a'"
proof -
  have drain: "drain_queue rd a = Inr a" using drain_queue_free agent_ok_free assms(1) by blast
  obtain a1 where a1: "(if \<not> g_socket_thread (g_cfg a) \<and> g_server a \<noteq> None then poll_server inp a else Inr a) = Inr a1"
    "agent_ok a1" "queue_on a1 = queue_on a"
    using poll_server_ok [OF assms] assms(1) by (cases "\<not> g_socket_thread (g_cfg a) \<and> g_server a \<noteq> None") auto
  then show ?thesis
    by (simp add: vcpu_tb_trans_def drain Let_def split: prod.split)
qed

theorem tb_trans_keeps_invariant_witness:
  "\<exists>a' insns. vcpu_tb_trans (\<lambda>p n. (0, [])) \<lparr>poll_ok = True, rev_listen = True, rev_client = False,
      accepts = [A_conn 9 True], reads = [], writes = []\<rparr> (Some [Some ''mov'']) blank_agent
     = Inr (a', insns, False) \<and> agent_ok a'"
proof -
  have "agent_ok blank_agent"
    by (simp add: agent_ok_def agent_service_def plugin_ok_def blank_agent_def slot_malloc_ok env_ok_def fresh_st_wf)
  from tb_trans_keeps_invariant [OF this, of "\<lparr>poll_ok = True, rev_listen = True, rev_client = False,
      accepts = [A_conn 9 True], reads = [], writes = []\<rparr>" "\<lambda>p n. (0, [])" "Some [Some ''mov'']"]
  show ?thesis by (simp add: blank_agent_def)
qed

text \<open>
  C31: removing an installed plugin releases everything it holds: the server and the queue
  are gone, the listening socket and a connected client are closed and the socket file is
  unlinked; and a callback that still arrives afterwards does nothing but the
  instrumentation of its block, so it touches neither the freed queue nor the freed server.
\<close>

theorem exit_releases_service:
  assumes "g_server a = Some srv" "queue_on a" "a' = plugin_exit a"
  shows "g_server a' = None \<and> \<not> queue_on a' \<and>
    (\<exists>s. stopped_servers a' = stopped_servers a @ [s] \<and> client_fd s < 0 \<and> listen_fd s < 0 \<and>
         \<not> thread_started s \<and> {fd \<in> {client_fd srv, listen_fd srv}. fd \<ge> 0} \<subseteq> set (closed s) \<and>
         (path srv \<noteq> [] \<longrightarrow> path srv \<in> set (unlinked s))) \<and>
    vcpu_tb_exec rd a' = Inr a' \<and> vcpu_idle rd a' = Inr a' \<and>
    (\<exists>insns st. vcpu_tb_trans rd inp tb a' = Inr (a'\<lparr>g_st := (g_st a')\<lparr>pstats := st\<rparr>\<rparr>, insns, False))"
proof -
  have none: "g_server a' = None" "\<not> queue_on a'"
    using assms by (simp_all add: plugin_exit_def Let_def)
  have idle: "drain_queue rd a' = Inr a'" using none(2) by (simp add: drain_queue_def)
  have same: "a'\<lparr>g_st := (g_st a')\<lparr>pstats := pstats (g_st a')\<rparr>\<rparr> = a'" by simp
  have "\<exists>insns st. vcpu_tb_trans rd inp tb a' = Inr (a'\<lparr>g_st := (g_st a')\<lparr>pstats := st\<rparr>\<rparr>, insns, False)"
  proof (cases "g_vga_enabled (g_cfg a') \<or> g_hypercall (g_cfg a')")
    case True
    obtain insns st where "qc_mem_instrument_tb tb (g_vga_enabled (g_cfg a')) (g_hypercall (g_cfg a'))
        (pstats (g_st a')) = (insns, st)" by fastforce
    with True none idle show ?thesis by (auto simp: vcpu_tb_trans_def)
  next
    case False
    with none idle have "vcpu_tb_trans rd inp tb a' = Inr (a', [], False)"
      by (simp add: vcpu_tb_trans_def)
    with same show ?thesis by metis
  qed
  moreover have "\<exists>s. stopped_servers a' = stopped_servers a @ [s] \<and> client_fd s < 0 \<and> listen_fd s < 0 \<and>
         \<not> thread_started s \<and> {fd \<in> {client_fd srv, listen_fd srv}. fd \<ge> 0} \<subseteq> set (closed s) \<and>
         (path srv \<noteq> [] \<longrightarrow> path srv \<in> set (unlinked s))"
    using assms by (simp add: plugin_exit_def Let_def stop_eq) auto
  ultimately show ?thesis using none idle by (simp add: vcpu_tb_exec_def vcpu_idle_def)
qed

theorem exit_releases_service_witness:
  "vcpu_tb_exec (\<lambda>p n. (0, [1]))
     (plugin_exit (blank_agent\<lparr>g_server := Some demo_server, queue_on := True\<rparr>)) =
   Inr (plugin_exit (blank_agent\<lparr>g_server := Some demo_server, queue_on := True\<rparr>))"
proof -
  let ?a = "blank_agent\<lparr>g_server := Some demo_server, queue_on := True\<rparr>"
  have a: "g_server ?a = Some demo_server" "queue_on ?a" by simp_all
  show ?thesis
    using exit_releases_service [OF a refl, of "\<lambda>p n. (0, [1])"
        "\<lparr>poll_ok = True, rev_listen = False, rev_client = False, accepts = [], reads = [], writes = []\<rparr>"
        "Some [Some ''mov'']"]
    by blast
qed

end
