(* ===== verification/Qmp.thy ===== *)
theory Qmp
  imports CText
begin

text \<open>
  cli/qmp.c: the client of QEMU's machine protocol. A connection is the record \<open>qc_qmp\<close>: what
  the peer still delivers (one outcome per read of one byte; past the end the connection is
  closed), what the writes return (past the end a write takes everything), what was sent,
  and the sleeps made. A NULL handle is None. Lines are C strings, so a line is cut at a NUL
  before it is searched.

  The loops that the code runs forever end because every read line takes input off the
  connection and a closed connection is an error. Main results: \<open>execute\<close> skips events and
  answers with the first response; typing a text sends its keys in order and waits for each;
  the key map is the US layout, total on printable ASCII and injective.
\<close>

section \<open>Connection\<close>

datatype read1 = Q_char char | Q_eintr | Q_err

record qc_qmp =
  q_in :: "read1 list"
  q_writes :: "int list"
  q_sent :: string
  q_slept :: "int list"

abbreviation (input) LINE_BUF :: nat where "LINE_BUF \<equiv> 8192"

text \<open>None is the return value -1; otherwise the line in \<open>buf\<close>.\<close>

function qmp_readline :: "nat \<Rightarrow> read1 list \<Rightarrow> string \<Rightarrow> string option \<times> read1 list" where
  "qmp_readline buflen ins buf =
     (if buflen \<le> length buf + 1 then (Some buf, ins)
      else (case ins of
              [] \<Rightarrow> (if buf = [] then None else Some buf, [])
            | Q_eintr # ins \<Rightarrow> qmp_readline buflen ins buf
            | Q_err # ins \<Rightarrow> (None, ins)
            | Q_char c # ins \<Rightarrow>
                if c = LF then (Some buf, ins)
                else if c \<noteq> CR then qmp_readline buflen ins (buf @ [c])
                else qmp_readline buflen ins buf))"
  by pat_completeness auto
termination
  by (relation "measure (\<lambda>(n, ins, buf). length ins)") auto

declare qmp_readline.simps [simp del]

text \<open>One \<open>write\<close> of a text: its return value, and the connection after it.\<close>

definition write1 :: "string \<Rightarrow> qc_qmp \<Rightarrow> int \<times> qc_qmp" where
  "write1 s q =
     (case q_writes q of
        [] \<Rightarrow> (int (length s), q\<lparr>q_sent := q_sent q @ s\<rparr>)
      | n # ns \<Rightarrow> (n, q\<lparr>q_writes := ns, q_sent := q_sent q @ take (nat n) s\<rparr>))"

text \<open>Whether it succeeded.\<close>

definition qmp_write_line :: "string \<Rightarrow> qc_qmp \<Rightarrow> bool \<times> qc_qmp" where
  "qmp_write_line line q =
     (let (n, q) = write1 line q in
      if n \<noteq> int (length line) then (False, q)
      else (let (n, q) = write1 [LF] q in (n = 1, q)))"

definition sleep_ms :: "int \<Rightarrow> qc_qmp \<Rightarrow> qc_qmp" where
  "sleep_ms ms q = (if ms \<le> 0 then q else q\<lparr>q_slept := q_slept q @ [ms]\<rparr>)"

lemma readline_shorter:
  "qmp_readline n ins buf = (r, ins') \<Longrightarrow> length ins' \<le> length ins \<and>
     (length buf + 1 < n \<longrightarrow> ins \<noteq> [] \<longrightarrow> length ins' < length ins)"
proof (induction n ins buf rule: qmp_readline.induct)
  case (1 n ins buf)
  show ?case
  proof (cases "n \<le> length buf + 1")
    case True
    then show ?thesis using "1.prems" by (subst (asm) qmp_readline.simps) auto
  next
    case False
    note eq = "1.prems" [unfolded qmp_readline.simps [of n ins buf] if_not_P [OF False]]
    show ?thesis
    proof (cases ins)
      case Nil
      then show ?thesis using eq by auto
    next
      case (Cons x xs)
      then show ?thesis
        using eq "1.IH" [OF False] by (cases x) (fastforce split: if_splits)+
    qed
  qed
qed

lemma readline_Nil [simp]: "qmp_readline LINE_BUF [] [] = (None, [])"
  by (simp add: qmp_readline.simps)

lemma readline_Some: "qmp_readline LINE_BUF ins [] = (Some l, ins') \<Longrightarrow> length ins' < length ins"
  using readline_shorter [of LINE_BUF ins "[]" "Some l" ins'] by (cases "ins = []") auto

section \<open>Requests\<close>

definition has :: "string \<Rightarrow> string \<Rightarrow> bool" where
  "has line pat = (strstr line pat \<noteq> None)"

definition quoted :: "string \<Rightarrow> string" where
  "quoted s = DQ # s @ [DQ]"

text \<open>
  The loop of \<open>qc_qmp_execute\<close>: return value, the caller's buffer (of \<open>out_len\<close> bytes; 0 for
  none), and the input left.
\<close>

function exec_loop :: "nat \<Rightarrow> read1 list \<Rightarrow> string \<Rightarrow> int \<times> string \<times> read1 list" where
  "exec_loop out_len ins out =
     (case qmp_readline LINE_BUF ins [] of
        (None, ins') \<Rightarrow> (- 1, out, ins')
      | (Some line, ins') \<Rightarrow>
           (let line = c_str line in
            if has line (quoted ''event'') then exec_loop out_len ins' out
            else
             (let out = (if out_len \<noteq> 0 then snprintf out_len line else out) in
              if has line (quoted ''error'') then (1, out, ins')
              else if has line (quoted ''return'') then (0, out, ins')
              else exec_loop out_len ins' out)))"
  by pat_completeness auto
termination
  by (relation "measure (\<lambda>(n, ins, out). length ins)") (auto dest!: readline_Some [OF sym])

declare exec_loop.simps [simp del]

text \<open>\<open>q\<close> is None when NULL; the return value, the caller's buffer and the connection.\<close>

definition qc_qmp_execute :: "qc_qmp option \<Rightarrow> string \<Rightarrow> string \<Rightarrow> nat \<Rightarrow> int \<times> string \<times> qc_qmp option" where
  "qc_qmp_execute q cmd_json out out_len =
     (case q of
        None \<Rightarrow> (- 1, out, None)
      | Some q \<Rightarrow>
          (let (ok, q) = qmp_write_line cmd_json q in
           if \<not> ok then (- 1, out, Some q)
           else (let (rc, out, ins) = exec_loop out_len (q_in q) out
                 in (rc, out, Some (q\<lparr>q_in := ins\<rparr>)))))"

fun quit_loop :: "nat \<Rightarrow> read1 list \<Rightarrow> int \<times> read1 list" where
  "quit_loop 0 ins = (0, ins)"
| "quit_loop (Suc i) ins =
     (case qmp_readline LINE_BUF ins [] of
        (None, ins) \<Rightarrow> (0, ins)
      | (Some line, ins) \<Rightarrow>
          (let line = c_str line in
           if has line ''SHUTDOWN'' \<or> has line (quoted ''return'') then (0, ins)
           else if has line (quoted ''error'') then (1, ins)
           else quit_loop i ins))"

definition quit_cmd :: string where
  \<open>quit_cmd = ''{"execute":"quit"}''\<close>

definition qc_qmp_quit :: "qc_qmp option \<Rightarrow> int \<times> qc_qmp option" where
  "qc_qmp_quit q =
     (case q of
        None \<Rightarrow> (- 1, None)
      | Some q \<Rightarrow>
          (let (ok, q) = qmp_write_line quit_cmd q in
           if \<not> ok then (- 1, Some q)
           else (let (rc, ins) = quit_loop 32 (q_in q) in (rc, Some (q\<lparr>q_in := ins\<rparr>)))))"

text \<open>
  The handshake: \<open>conn\<close> is the connection that \<open>connect_unix\<close> opens for the path (None: it
  fails), \<open>calloc_ok\<close> whether the handle can be allocated. None is the return value NULL.
\<close>

definition capabilities_cmd :: string where
  \<open>capabilities_cmd = ''{"execute":"qmp_capabilities"}''\<close>

function caps_loop :: "read1 list \<Rightarrow> (string \<times> read1 list) option" where
  "caps_loop ins =
     (case qmp_readline LINE_BUF ins [] of
        (None, _) \<Rightarrow> None
      | (Some line, ins') \<Rightarrow>
          (let line = c_str line in
           if has line (quoted ''return'') \<or> has line (quoted ''error'') then Some (line, ins')
           else caps_loop ins'))"
  by pat_completeness auto
termination
  by (relation "measure length") (auto dest!: readline_Some [OF sym])

declare caps_loop.simps [simp del]

definition qc_qmp_connect :: "string option \<Rightarrow> qc_qmp option \<Rightarrow> bool \<Rightarrow> qc_qmp option" where
  "qc_qmp_connect path conn calloc_ok =
     (if path = None \<or> path = Some [] then None
      else (case conn of
        None \<Rightarrow> None
      | Some q \<Rightarrow>
          if \<not> calloc_ok then None
          else (case qmp_readline LINE_BUF (q_in q) [] of
                  (None, _) \<Rightarrow> None
                | (Some line, ins) \<Rightarrow>
                    if \<not> has (c_str line) (quoted ''QMP'') then None
                    else
                      (let (ok, q) = qmp_write_line capabilities_cmd (q\<lparr>q_in := ins\<rparr>) in
                       if \<not> ok then None
                       else (case caps_loop (q_in q) of
                               None \<Rightarrow> None
                             | Some (line, ins) \<Rightarrow>
                                 if has line (quoted ''error'') then None
                                 else Some (q\<lparr>q_in := ins\<rparr>))))))"

section \<open>Keys\<close>

definition key_cmd :: "string \<Rightarrow> string" where
  \<open>key_cmd qcode = ''{"execute":"send-key","arguments":{"keys":[{"type":"qcode","data":"'' @ qcode @ ''"}]}}''\<close>

definition shift_key_cmd :: "string \<Rightarrow> string" where
  \<open>shift_key_cmd qcode =
     ''{"execute":"send-key","arguments":{"keys":[{"type":"qcode","data":"shift"},{"type":"qcode","data":"''
     @ qcode @ ''"}]}}''\<close>

definition qc_qmp_send_key :: "qc_qmp option \<Rightarrow> string option \<Rightarrow> int \<times> qc_qmp option" where
  "qc_qmp_send_key q qcode =
     (if qcode = None \<or> qcode = Some [] then (- 1, q)
      else (let (rc, out, q) = qc_qmp_execute q (snprintf 256 (key_cmd (the qcode))) [] 1024
            in (rc, q)))"

text \<open>The switch over the punctuation: the key and whether shift is held.\<close>

definition sym_table :: "(char \<times> string \<times> bool) list" where
  \<open>sym_table =
     [(CHR ''-'', ''minus'', False), (CHR ''='', ''equal'', False),
      (CHR ''['', ''bracket_left'', False), (CHR '']'', ''bracket_right'', False),
      (BS, ''backslash'', False), (CHR '';'', ''semicolon'', False),
      (CHR 0x27, ''apostrophe'', False), (CHR '','', ''comma'', False),
      (CHR ''.'', ''dot'', False), (CHR ''/'', ''slash'', False),
      (CHR 0x60, ''grave_accent'', False),
      (CHR ''!'', ''1'', True), (CHR ''@'', ''2'', True), (CHR ''#'', ''3'', True),
      (CHR ''$'', ''4'', True), (CHR ''%'', ''5'', True), (CHR ''^'', ''6'', True),
      (CHR ''&'', ''7'', True), (CHR ''*'', ''8'', True), (CHR ''('', ''9'', True),
      (CHR '')'', ''0'', True), (CHR ''_'', ''minus'', True), (CHR ''+'', ''equal'', True),
      (CHR ''{'', ''bracket_left'', True), (CHR ''}'', ''bracket_right'', True),
      (CHR ''|'', ''backslash'', True), (CHR '':'', ''semicolon'', True),
      (DQ, ''apostrophe'', True), (CHR ''<'', ''comma'', True), (CHR ''>'', ''dot'', True),
      (CHR ''?'', ''slash'', True), (CHR ''~'', ''grave_accent'', True)]\<close>

text \<open>None is the return value -1; otherwise what \<open>out\<close> holds and \<open>*need_shift\<close>.\<close>

definition map_char :: "int \<Rightarrow> nat \<Rightarrow> (string \<times> bool) option" where
  "map_char ch out_len =
     (if out_len < 16 then None
      else if ch = 10 \<or> ch = 13 then Some (''ret'', False)
      else if ch = 9 then Some (''tab'', False)
      else if ch = 8 \<or> ch = 127 then Some (''backspace'', False)
      else if ch = 32 then Some (''spc'', False)
      else if ch = 27 then Some (''esc'', False)
      else if 97 \<le> ch \<and> ch \<le> 122 then Some ([char_of (nat ch)], False)
      else if 65 \<le> ch \<and> ch \<le> 90 then Some ([char_of (nat (ch - 65 + 97))], True)
      else if 48 \<le> ch \<and> ch \<le> 57 then Some ([char_of (nat ch)], False)
      else if ch < 0 \<or> 255 < ch then None
      else (case map_of sym_table (char_of (nat ch)) of
              None \<Rightarrow> None
            | Some (name, shift) \<Rightarrow> Some (snprintf out_len name, shift)))"

definition qc_qmp_char_to_qcode :: "int \<Rightarrow> string option" where
  "qc_qmp_char_to_qcode ch = map_option fst (map_char ch 32)"

fun type_loop :: "string \<Rightarrow> int \<Rightarrow> qc_qmp option \<Rightarrow> int \<times> qc_qmp option" where
  "type_loop [] delay_ms q = (0, q)"
| "type_loop (c # p) delay_ms q =
     (case map_char (int (ord c)) 32 of
        None \<Rightarrow> (- 1, q)
      | Some (code, shift) \<Rightarrow>
          (let (rc, q) =
             (if shift
              then (let (rc, out, q) = qc_qmp_execute q (snprintf 320 (shift_key_cmd code)) [] 1024 in (rc, q))
              else qc_qmp_send_key q (Some code))
           in if rc \<noteq> 0 then (- 1, q)
              else type_loop p delay_ms (map_option (sleep_ms delay_ms) q)))"

text \<open>\<open>text\<close> is None when NULL, else a C string.\<close>

definition qc_qmp_type :: "qc_qmp option \<Rightarrow> string option \<Rightarrow> int \<Rightarrow> int \<times> qc_qmp option" where
  "qc_qmp_type q txt delay_ms =
     (case txt of None \<Rightarrow> (- 1, q) | Some t \<Rightarrow> type_loop t delay_ms q)"

definition qc_qmp_type_line :: "qc_qmp option \<Rightarrow> string option \<Rightarrow> int \<Rightarrow> bool \<Rightarrow> int \<times> qc_qmp option" where
  "qc_qmp_type_line q txt delay_ms enter =
     (let (rc, q) = qc_qmp_type q txt delay_ms in
      if rc \<noteq> 0 then (- 1, q)
      else if enter then
        (let (rc, q) = qc_qmp_send_key q (Some ''ret'') in
         if rc \<noteq> 0 then (- 1, q)
         else (0, map_option (sleep_ms (if delay_ms > 0 then delay_ms else 15)) q))
      else (0, q))"

section \<open>Reading lines\<close>

text \<open>A line of the peer, with its newline; the peer's carriage returns are dropped.\<close>

definition incoming :: "string \<Rightarrow> read1 list" where
  "incoming l = map Q_char l @ [Q_char LF]"

lemma readline_incoming_acc:
  "LF \<notin> set l \<Longrightarrow> length buf + length l + 1 < n \<Longrightarrow>
     qmp_readline n (incoming l @ rest) buf = (Some (buf @ filter (\<lambda>c. c \<noteq> CR) l), rest)"
proof (induction l arbitrary: buf)
  case Nil
  then show ?case by (simp add: incoming_def qmp_readline.simps)
next
  case (Cons c l)
  then have "c \<noteq> LF" by auto
  with Cons show ?case
    by (subst incoming_def, subst list.map, subst append_Cons, subst qmp_readline.simps)
       (auto simp: incoming_def)
qed

lemma readline_incoming:
  assumes "LF \<notin> set l" "CR \<notin> set l" "NUL \<notin> set l" "length l < 8191"
  shows "qmp_readline LINE_BUF (incoming l @ rest) [] = (Some l, rest)" "c_str l = l"
proof -
  have "filter (\<lambda>c. c \<noteq> CR) l = l" using assms(2) by (induction l) auto
  then show "qmp_readline LINE_BUF (incoming l @ rest) [] = (Some l, rest)"
    using readline_incoming_acc [of l "[]" LINE_BUF rest] assms(1,4) by simp
  show "c_str l = l" using assms(3) by (simp add: c_str_def takeWhile_not_idem)
qed

definition line_ok :: "string \<Rightarrow> bool" where
  "line_ok l \<longleftrightarrow> LF \<notin> set l \<and> CR \<notin> set l \<and> NUL \<notin> set l \<and> length l < 8191"

definition is_event :: "string \<Rightarrow> bool" where
  "is_event l = has l (quoted ''event'')"

text \<open>The class of a response: 1 for an error, 0 for a return, None for neither.\<close>

definition response_class :: "string \<Rightarrow> int option" where
  "response_class l =
     (if has l (quoted ''error'') then Some 1 else if has l (quoted ''return'') then Some 0 else None)"

lemma exec_loop_event:
  "line_ok l \<Longrightarrow> is_event l \<Longrightarrow> exec_loop n (incoming l @ rest) out = exec_loop n rest out"
  by (subst exec_loop.simps) (simp add: line_ok_def readline_incoming is_event_def)

lemma exec_loop_events:
  "\<forall>l \<in> set ls. line_ok l \<and> is_event l \<Longrightarrow>
     exec_loop n (concat (map incoming ls) @ rest) out = exec_loop n rest out"
  by (induction ls) (simp_all add: exec_loop_event)

lemma exec_loop_response:
  "line_ok l \<Longrightarrow> \<not> is_event l \<Longrightarrow> response_class l = Some rc \<Longrightarrow>
     exec_loop n (incoming l @ rest) out = (rc, if n \<noteq> 0 then snprintf n l else out, rest)"
  by (subst exec_loop.simps)
     (auto simp: line_ok_def readline_incoming is_event_def response_class_def Let_def split: if_splits)

lemma write_line_regular:
  "q_writes q = [] \<Longrightarrow> qmp_write_line s q = (True, q\<lparr>q_sent := q_sent q @ s @ [LF]\<rparr>)"
  by (simp add: qmp_write_line_def write1_def Let_def)

section \<open>Typing\<close>

text \<open>The command that a character is typed with.\<close>

definition char_cmd :: "char \<Rightarrow> string" where
  "char_cmd c =
     (case map_char (int (ord c)) 32 of
        None \<Rightarrow> []
      | Some (code, shift) \<Rightarrow> if shift then shift_key_cmd code else key_cmd code)"

lemma map_of_range: "map_of xs k = Some v \<Longrightarrow> P v" if "list_all (\<lambda>(k, v). P v) xs"
  using that by (induction xs) (auto split: if_splits)

lemma sym_table_names:
  "list_all (\<lambda>(k, v). fst v \<noteq> [] \<and> length (fst v) \<le> 15) sym_table"
  by (simp add: sym_table_def)

lemma sym_table_name:
  assumes "map_of sym_table c = Some (name, sh)"
  shows "name \<noteq> []" "length name \<le> 15"
  using map_of_range [OF sym_table_names assms] by simp_all

lemma map_char_code:
  assumes "map_char ch 32 = Some (code, shift)"
  shows "code \<noteq> [] \<and> length code \<le> 15"
  using assms
  by (auto simp: map_char_def snprintf_def split: if_splits option.splits prod.splits
      dest: sym_table_name intro: min.coboundedI1)

lemma length_key_cmd: "length (key_cmd code) \<le> 140 + length code" "length (shift_key_cmd code) \<le> 140 + length code"
  by (simp_all add: key_cmd_def shift_key_cmd_def)

text \<open>Sending one key: the whole command goes out, and one response is taken.\<close>

lemma execute_response:
  assumes "q_writes q = []" "q_in q = concat (map incoming evs) @ incoming l @ rest"
    and "\<forall>e \<in> set evs. line_ok e \<and> is_event e" "line_ok l" "\<not> is_event l" "response_class l = Some rc"
  shows "qc_qmp_execute (Some q) cmd out n =
    (rc, if n \<noteq> 0 then snprintf n l else out,
     Some (q\<lparr>q_in := rest, q_sent := q_sent q @ cmd @ [LF]\<rparr>))"
  using assms by (simp add: qc_qmp_execute_def write_line_regular exec_loop_events exec_loop_response)

lemma send_key_cmd: "length code \<le> 100 \<Longrightarrow> snprintf 256 (key_cmd code) = key_cmd code"
  using length_key_cmd(1) [of code] by (simp add: snprintf_def)

lemma shift_key_cmd: "length code \<le> 100 \<Longrightarrow> snprintf 320 (shift_key_cmd code) = shift_key_cmd code"
  using length_key_cmd(2) [of code] by (simp add: snprintf_def)

text \<open>A peer that answers every command with a return, after any events.\<close>

fun good_peer :: "nat \<Rightarrow> read1 list \<Rightarrow> read1 list \<Rightarrow> bool" where
  "good_peer 0 ins rest = (ins = rest)"
| "good_peer (Suc n) ins rest =
     (\<exists>evs l ins'. ins = concat (map incoming evs) @ incoming l @ ins' \<and> good_peer n ins' rest
        \<and> (\<forall>e \<in> set evs. line_ok e \<and> is_event e) \<and> line_ok l \<and> \<not> is_event l \<and> response_class l = Some 0)"

definition slept :: "int \<Rightarrow> nat \<Rightarrow> int list" where
  "slept d n = (if d \<le> 0 then [] else replicate n d)"

lemma type_loop_sends:
  "q_writes q = [] \<Longrightarrow> good_peer (length t) (q_in q) rest \<Longrightarrow>
   \<forall>c \<in> set t. map_char (int (ord c)) 32 \<noteq> None \<Longrightarrow>
     type_loop t d (Some q) =
       (0, Some (q\<lparr>q_in := rest, q_sent := q_sent q @ concat (map (\<lambda>c. char_cmd c @ [LF]) t),
                   q_slept := q_slept q @ slept d (length t)\<rparr>))"
proof (induction t arbitrary: q)
  case Nil
  then show ?case by (cases q) (simp add: slept_def)
next
  case (Cons c t)
  obtain code shift where code: "map_char (int (ord c)) 32 = Some (code, shift)"
    using Cons.prems(3) by auto
  obtain evs l ins' where peer: "q_in q = concat (map incoming evs) @ incoming l @ ins'"
    "good_peer (length t) ins' rest" "\<forall>e \<in> set evs. line_ok e \<and> is_event e"
    "line_ok l" "\<not> is_event l" "response_class l = Some 0"
    using Cons.prems(2) by auto
  note ex = execute_response [OF Cons.prems(1) peer(1,3-6)]
  have len: "code \<noteq> []" "length code \<le> 100" using map_char_code [OF code] by auto
  let ?q = "sleep_ms d (q\<lparr>q_in := ins', q_sent := q_sent q @ char_cmd c @ [LF]\<rparr>)"
  have "type_loop (c # t) d (Some q) = type_loop t d (Some ?q)"
    using code len ex
    by (cases shift) (simp_all add: qc_qmp_send_key_def send_key_cmd shift_key_cmd char_cmd_def)
  moreover have "q_writes ?q = []" "good_peer (length t) (q_in ?q) rest"
    using Cons.prems(1) peer(2) by (simp_all add: sleep_ms_def)
  ultimately show ?case
    using Cons.IH [of ?q] Cons.prems(3) by (simp add: sleep_ms_def slept_def)
qed

lemma type_loop_stops:
  assumes "q_writes q = []" "good_peer (length t) (q_in q) rest"
    and "\<forall>c \<in> set t. map_char (int (ord c)) 32 \<noteq> None" "map_char (int (ord x)) 32 = None"
  shows "type_loop (t @ x # rem) d (Some q) =
    (- 1, Some (q\<lparr>q_in := rest, q_sent := q_sent q @ concat (map (\<lambda>c. char_cmd c @ [LF]) t),
                   q_slept := q_slept q @ slept d (length t)\<rparr>))"
proof -
  have "type_loop (t @ u) d q0 = (let (rc, q1) = type_loop t d q0 in if rc \<noteq> 0 then (rc, q1) else type_loop u d q1)"
    for u q0
    by (induction t d q0 rule: type_loop.induct) (auto simp: Let_def split: option.split prod.split)
  then show ?thesis using type_loop_sends [OF assms(1-3), of d] assms(4) by simp
qed

lemma eq_char_of_iff: "c = char_of n \<longleftrightarrow> take_bit 8 n = ord c"
  by (metis char_of_eq_iff)
lemma type_line_sends:
  assumes "q_writes q = []" "\<forall>c \<in> set t. map_char (int (ord c)) 32 \<noteq> None"
    and "good_peer (length t) (q_in q) mid" "good_peer 1 mid rest" "0 < d"
  shows "qc_qmp_type_line (Some q) (Some t) d True =
    (0, Some (q\<lparr>q_in := rest,
                q_sent := q_sent q @ concat (map (\<lambda>c. char_cmd c @ [LF]) t) @ key_cmd ''ret'' @ [LF],
                q_slept := q_slept q @ replicate (length t + 1) d\<rparr>))"
proof -
  let ?q = "q\<lparr>q_in := mid, q_sent := q_sent q @ concat (map (\<lambda>c. char_cmd c @ [LF]) t),
              q_slept := q_slept q @ replicate (length t) d\<rparr>"
  have typed: "qc_qmp_type (Some q) (Some t) d = (0, Some ?q)"
    using type_loop_sends [OF assms(1,3,2), of d] assms(5) by (simp add: qc_qmp_type_def slept_def)
  obtain evs l where peer: "q_in ?q = concat (map incoming evs) @ incoming l @ rest"
    "\<forall>e \<in> set evs. line_ok e \<and> is_event e" "line_ok l" "\<not> is_event l" "response_class l = Some 0"
    using assms(4) by (auto simp: One_nat_def)
  have "q_writes ?q = []" using assms(1) by simp
  note ex = execute_response [OF this peer, of "key_cmd ''ret''" "[]" 1024]
  have "qc_qmp_send_key (Some ?q) (Some ''ret'') =
      (0, Some (?q\<lparr>q_in := rest, q_sent := q_sent ?q @ key_cmd ''ret'' @ [LF]\<rparr>))"
    using ex by (simp add: qc_qmp_send_key_def send_key_cmd)
  then show ?thesis
    using typed assms(5) by (simp add: qc_qmp_type_line_def sleep_ms_def replicate_append_same)
qed

section \<open>The handshake\<close>

text \<open>
  A greeting, then any messages that are no response, then a response: a return gives a
  connection positioned after it, an error none.
\<close>

lemma caps_loop_skips:
  assumes "\<forall>e \<in> set evs. line_ok e \<and> response_class e = None" "line_ok l" "response_class l \<noteq> None"
  shows "caps_loop (concat (map incoming evs) @ incoming l @ rest) = Some (l, rest)"
  using assms(1)
proof (induction evs)
  case Nil
  then show ?case
    using assms(2,3) by (subst caps_loop.simps)
      (auto simp: line_ok_def readline_incoming response_class_def Let_def split: if_splits)
next
  case (Cons e evs)
  then show ?case
    by (subst caps_loop.simps) (auto simp: line_ok_def readline_incoming response_class_def Let_def split: if_splits)
qed

lemma connect_handshake:
  assumes "p \<noteq> []" "q_writes q = []" "q_in q = incoming g @ concat (map incoming evs) @ incoming l @ rest"
    and "line_ok g" "has g (quoted ''QMP'')" "\<forall>e \<in> set evs. line_ok e \<and> response_class e = None"
    and "line_ok l" "response_class l = Some rc"
  shows "qc_qmp_connect (Some p) (Some q) True =
    (if rc = 0 then Some (q\<lparr>q_in := rest, q_sent := q_sent q @ capabilities_cmd @ [LF]\<rparr>) else None)"
proof -
  let ?q = "q\<lparr>q_in := concat (map incoming evs) @ incoming l @ rest, q_sent := q_sent q @ capabilities_cmd @ [LF]\<rparr>"
  have "qmp_readline LINE_BUF (q_in q) [] = (Some g, concat (map incoming evs) @ incoming l @ rest)" "c_str g = g"
    using assms(3,4) readline_incoming [of g] by (simp_all add: line_ok_def)
  moreover have "caps_loop (q_in ?q) = Some (l, rest)"
    using caps_loop_skips [OF assms(6,7)] assms(8) by simp
  moreover have "has l (quoted ''error'') \<longleftrightarrow> rc \<noteq> 0"
    using assms(8) by (auto simp: response_class_def split: if_splits)
  ultimately show ?thesis
    using assms(1,2,5) by (simp add: qc_qmp_connect_def write_line_regular Let_def)
qed

section \<open>The US layout\<close>

text \<open>
  The layout as a reference: the character of each key without and with shift.
\<close>

definition us_layout :: "(char \<times> char) list" where
  \<open>us_layout =
     zip (CHR 0x60 # ''1234567890-=[]'' @ BS # '';'' @ CHR 0x27 # '',./'' @ ''abcdefghijklmnopqrstuvwxyz'')
         (''~!@#$%^&*()_+{}|:'' @ DQ # ''<>?'' @ ''ABCDEFGHIJKLMNOPQRSTUVWXYZ'')\<close>

definition base_key :: "char \<Rightarrow> string" where
  "base_key c = (case map_char (int (ord c)) 32 of None \<Rightarrow> [] | Some (k, shift) \<Rightarrow> k)"

lemma us_pairs: "list_all (\<lambda>(a, b). map_char (int (ord a)) 32 = Some (base_key a, False) \<and>
     map_char (int (ord b)) 32 = Some (base_key a, True)) us_layout"
  by (simp add: us_layout_def map_char_def sym_table_def snprintf_def base_key_def char_of_eq_iff eq_char_of_iff)

lemma us_keys_distinct: "distinct (map (base_key \<circ> fst) us_layout)"
  by (simp add: us_layout_def map_char_def sym_table_def snprintf_def base_key_def char_of_eq_iff eq_char_of_iff)

lemma map_char_supported:
  assumes "0 \<le> ch" "ch < 256"
  shows "map_char ch 32 \<noteq> None \<longleftrightarrow> ch \<in> {8, 9, 10, 13, 27} \<or> 32 \<le> ch \<and> ch \<le> 127"
proof -
  obtain n where n: "ch = int n" "n < 256" using assms by (metis nat_int nonneg_int_cases of_nat_less_numeral_iff zero_less_imp_eq_int nat_less_iff of_nat_numeral)
  have "map_of sym_table (char_of n) \<noteq> None \<longleftrightarrow> char_of n \<in> fst ` set sym_table"
    by (simp only: map_of_eq_None_iff not_not)
  also have "\<dots> \<longleftrightarrow> n \<in> {33..47} \<union> {58..64} \<union> {91..96} \<union> {123..126}"
    using n(2) take_bit_nat_eq_self [of n 8] by (simp add: sym_table_def char_of_eq_iff) presburger
  finally have sy: "map_of sym_table (char_of n) \<noteq> None \<longleftrightarrow> n \<in> {33..47} \<union> {58..64} \<union> {91..96} \<union> {123..126}" .
  have "map_char ch 32 \<noteq> None \<longleftrightarrow> n \<in> {8, 9, 10, 13, 27, 32, 127} \<or> 97 \<le> n \<and> n \<le> 122 \<or> 65 \<le> n \<and> n \<le> 90
      \<or> 48 \<le> n \<and> n \<le> 57 \<or> map_of sym_table (char_of n) \<noteq> None"
    using n by (simp add: map_char_def option.case_eq_if split_beta ex_bool_eq) auto
  also have "\<dots> \<longleftrightarrow> ch \<in> {8, 9, 10, 13, 27} \<or> 32 \<le> ch \<and> ch \<le> 127"
    unfolding sy using n(1) by simp presburger
  finally show ?thesis .
qed

lemma map_char_domain:
  "{ch. 0 \<le> ch \<and> ch < 256 \<and> map_char ch 32 \<noteq> None} = {8, 9, 10, 13, 27} \<union> {32..127}"
proof (rule set_eqI)
  fix ch :: int
  show "ch \<in> {ch. 0 \<le> ch \<and> ch < 256 \<and> map_char ch 32 \<noteq> None} \<longleftrightarrow> ch \<in> {8, 9, 10, 13, 27} \<union> {32..127}"
  proof (cases "0 \<le> ch \<and> ch < 256")
    case True
    then have ms: "(map_char ch 32 \<noteq> None) = (ch \<in> {8, 9, 10, 13, 27} \<or> 32 \<le> ch \<and> ch \<le> 127)"
      by (intro map_char_supported) simp_all
    show ?thesis using True unfolding mem_Collect_eq ms by simp
  next
    case False
    then show ?thesis by auto
  qed
qed

section \<open>Properties\<close>

text \<open>
  \<open>qc_qmp_execute\<close> sends the command as one line, skips any number of events that come
  before the response, and takes exactly the first response: the result is 1 for an error
  and 0 for a return, the response is in the caller's buffer up to its size, and what the
  peer sends after it is left unread.
\<close>

theorem qmp_execute_first_response:
  assumes "q_writes q = []" "q_in q = concat (map incoming evs) @ incoming l @ rest"
    and "\<forall>e \<in> set evs. line_ok e \<and> is_event e" "line_ok l" "\<not> is_event l" "response_class l = Some rc"
    and "0 < n"
  shows "qc_qmp_execute (Some q) cmd out n =
    (rc, take (n - 1) l, Some (q\<lparr>q_in := rest, q_sent := q_sent q @ cmd @ [LF]\<rparr>))"
  using execute_response [OF assms(1-6), of cmd out n] assms(7) by (simp add: snprintf_def)

definition event_msg :: string where
  \<open>event_msg = ''{"event":"RESUME"}''\<close>

definition return_msg :: string where
  \<open>return_msg = ''{"return":{}}''\<close>

lemma demo_lines:
  "line_ok event_msg" "is_event event_msg" "line_ok return_msg" "\<not> is_event return_msg"
  "response_class return_msg = Some 0"
  by (simp_all add: line_ok_def is_event_def response_class_def has_def quoted_def event_msg_def return_msg_def)

theorem qmp_execute_first_response_witness:
  "qc_qmp_execute (Some \<lparr>q_in = incoming event_msg @ incoming return_msg, q_writes = [], q_sent = [], q_slept = []\<rparr>)
     ''x'' [] 5 = (0, take 4 return_msg, Some \<lparr>q_in = [], q_writes = [], q_sent = ''x'' @ [LF], q_slept = []\<rparr>)"
  using qmp_execute_first_response
    [of "\<lparr>q_in = incoming event_msg @ incoming return_msg, q_writes = [], q_sent = [], q_slept = []\<rparr>"
        "[event_msg]" return_msg "[]" 0 5 "''x''" "[]"] demo_lines
  by simp

text \<open>
  C23: typing a line whose characters are all on the keyboard sends exactly one key command
  per character, in order, then the Enter key if asked for, each only after the response to
  the one before, and succeeds when the peer accepts them all, whatever events it mixes in.
\<close>

theorem qmp_type_line_in_order:
  assumes "q_writes q = []" "\<forall>c \<in> set t. map_char (int (ord c)) 32 \<noteq> None"
    and "good_peer (length t) (q_in q) mid" "good_peer 1 mid rest" "0 < d"
  shows "qc_qmp_type_line (Some q) (Some t) d True =
    (0, Some (q\<lparr>q_in := rest,
                q_sent := q_sent q @ concat (map (\<lambda>c. char_cmd c @ [LF]) t) @ key_cmd ''ret'' @ [LF],
                q_slept := q_slept q @ replicate (length t + 1) d\<rparr>))"
  using assms by (rule type_line_sends)

theorem qmp_type_line_in_order_witness:
  "fst (qc_qmp_type_line
     (Some \<lparr>q_in = incoming return_msg @ incoming event_msg @ incoming return_msg, q_writes = [], q_sent = [], q_slept = []\<rparr>)
     (Some ''A'') 20 True) = 0"
proof -
  let ?q = "\<lparr>q_in = incoming return_msg @ incoming event_msg @ incoming return_msg, q_writes = [], q_sent = [], q_slept = []\<rparr>"
  have one: "\<exists>evs l ins'. incoming return_msg @ r = concat (map incoming evs) @ incoming l @ ins' \<and> ins' = r \<and>
      (\<forall>e \<in> set evs. line_ok e \<and> is_event e) \<and> line_ok l \<and> \<not> is_event l \<and> response_class l = Some 0" for r
    using demo_lines by (intro exI [of _ "[]"] exI [of _ return_msg] exI [of _ r]) simp
  then have p1: "good_peer (length ''A'') (q_in ?q) (incoming event_msg @ incoming return_msg)" by simp
  have "\<exists>evs l ins'. incoming event_msg @ incoming return_msg = concat (map incoming evs) @ incoming l @ ins' \<and> ins' = [] \<and>
      (\<forall>e \<in> set evs. line_ok e \<and> is_event e) \<and> line_ok l \<and> \<not> is_event l \<and> response_class l = Some 0"
    using demo_lines by (intro exI [of _ "[event_msg]"] exI [of _ return_msg] exI [of _ "[]"]) simp
  then have p2: "good_peer 1 (incoming event_msg @ incoming return_msg) []" by (simp add: One_nat_def)
  have "\<forall>c \<in> set ''A''. map_char (int (ord c)) 32 \<noteq> None" by (simp add: map_char_def)
  from qmp_type_line_in_order [OF _ this p1 p2, of 20] show ?thesis by simp
qed

text \<open>
  Typing stops at the first character that is not on the keyboard: the keys before it
  have been sent, in order, nothing is sent for it or after it, and the result is -1.
\<close>

theorem qmp_type_stops_at_unmapped:
  assumes "q_writes q = []" "good_peer (length t) (q_in q) rest"
    and "\<forall>c \<in> set t. map_char (int (ord c)) 32 \<noteq> None" "map_char (int (ord x)) 32 = None"
  shows "\<exists>q'. qc_qmp_type (Some q) (Some (t @ x # u)) d = (- 1, Some q')
    \<and> q_sent q' = q_sent q @ concat (map (\<lambda>c. char_cmd c @ [LF]) t) \<and> q_in q' = rest"
  using type_loop_stops [OF assms, of u d] by (simp add: qc_qmp_type_def)

theorem qmp_type_stops_at_unmapped_witness:
  "\<exists>q'. qc_qmp_type (Some \<lparr>q_in = [], q_writes = [], q_sent = [], q_slept = []\<rparr>) (Some (CHR 0xE9 # ''x'')) 20 =
     (- 1, Some q') \<and> q_sent q' = []"
  using qmp_type_stops_at_unmapped [of "\<lparr>q_in = [], q_writes = [], q_sent = [], q_slept = []\<rparr>" "[]" "[]"
      "CHR 0xE9" "''x''" 20]
  by (auto simp: map_char_def sym_table_def char_of_eq_iff eq_char_of_iff)

text \<open>
  The key map is the US layout: every key is sent without shift for its lower character
  and with shift for its upper one, different keys have different names, and the characters
  that can be typed are exactly the printable ASCII characters, newline, carriage return,
  tab, backspace, delete and escape.
\<close>

theorem keymap_is_us_layout:
  "list_all (\<lambda>(a, b). map_char (int (ord a)) 32 = Some (base_key a, False)
       \<and> map_char (int (ord b)) 32 = Some (base_key a, True)) us_layout
   \<and> distinct (map (base_key \<circ> fst) us_layout)
   \<and> {ch. 0 \<le> ch \<and> ch < 256 \<and> map_char ch 32 \<noteq> None} = {8, 9, 10, 13, 27} \<union> {32..127}"
  by (intro conjI us_pairs us_keys_distinct map_char_domain)

end
