(* ===== verification/Host.thy ===== *)
theory Host
  imports CText Qmp "HOL-Library.State_Monad"
begin

text \<open>
  The operating system as the command line client uses it: environment, files, sockets,
  processes, locks, time, standard output. An operation of the client is a computation of
  the state monad of the library over the record \<open>host\<close>, written in \<open>do\<close> notation.

  Time is \<open>h_clock\<close> in milliseconds; it moves by the sleeps and by the time that requests
  to the plugin and waits for processes take. What the outside answers is in the record: the
  outcomes of \<open>fork\<close>, of the connections to the plugin and of those to QMP are lists, one
  element for each call, past the end of which the call fails. A socket file exists from
  its time in \<open>h_socks\<close> on. Effects that the theorems are about (locks, input to the guest)
  are recorded in \<open>h_log\<close>.
\<close>

section \<open>Computations\<close>

definition asks :: "('s \<Rightarrow> 'a) \<Rightarrow> ('s, 'a) state" where
  "asks f = do { s \<leftarrow> State_Monad.get; State_Monad.return (f s) }"

lemma run_asks [simp]: "run_state (asks f) s = (f s, s)"
  by (simp add: asks_def)

lemma run_update [simp]: "run_state (State_Monad.update f) s = ((), f s)"
  by (simp add: State_Monad.update_def)

abbreviation give :: "'a \<Rightarrow> ('s, 'a) state" where
  "give \<equiv> State_Monad.return"

abbreviation change :: "('s \<Rightarrow> 's) \<Rightarrow> ('s, unit) state" where
  "change \<equiv> State_Monad.update"

text \<open>
  What a computation does to a state that satisfies \<open>P\<close>: the result and the state after it
  satisfy \<open>Q\<close>. Every computation here ends, so this is total correctness.
\<close>

definition does :: "('s \<Rightarrow> bool) \<Rightarrow> ('s, 'a) state \<Rightarrow> ('a \<Rightarrow> 's \<Rightarrow> bool) \<Rightarrow> bool" where
  "does P m Q \<longleftrightarrow> (\<forall>s. P s \<longrightarrow> (case run_state m s of (a, t) \<Rightarrow> Q a t))"

named_theorems does_intros "rules of the computations"

lemma does_bind:
  "does P m R \<Longrightarrow> (\<And>a. does (R a) (f a) Q) \<Longrightarrow> does P (Monad_Syntax.bind m f) Q"
  by (fastforce simp: does_def split: prod.splits)

lemma does_return: "(\<And>s. P s \<Longrightarrow> Q a s) \<Longrightarrow> does P (give a) Q"
  by (simp add: does_def)

lemma does_asks: "(\<And>s. P s \<Longrightarrow> Q (f s) s) \<Longrightarrow> does P (asks f) Q"
  by (simp add: does_def)

lemma does_change: "(\<And>s. P s \<Longrightarrow> Q () (f s)) \<Longrightarrow> does P (change f) Q"
  by (simp add: does_def)

lemma does_if:
  "(b \<Longrightarrow> does P m Q) \<Longrightarrow> (\<not> b \<Longrightarrow> does P n Q) \<Longrightarrow> does P (if b then m else n) Q"
  by simp

lemma does_weaken:
  "does P' m Q' \<Longrightarrow> (\<And>s. P s \<Longrightarrow> P' s) \<Longrightarrow> (\<And>a s. Q' a s \<Longrightarrow> Q a s) \<Longrightarrow> does P m Q"
  by (fastforce simp: does_def split: prod.splits)

lemma doesD: "does P m Q \<Longrightarrow> P s \<Longrightarrow> run_state m s = (a, t) \<Longrightarrow> Q a t"
  by (fastforce simp: does_def)

lemma doesI: "(\<And>s a t. P s \<Longrightarrow> run_state m s = (a, t) \<Longrightarrow> Q a t) \<Longrightarrow> does P m Q"
  by (auto simp: does_def)

text \<open>A computation that keeps a part \<open>f\<close> of the state as it is.\<close>

definition keeps :: "('s \<Rightarrow> 'b) \<Rightarrow> ('s, 'a) state \<Rightarrow> bool" where
  "keeps f m \<longleftrightarrow> state_io_rel (\<lambda>s t. f t = f s) m"

named_theorems keeps_intros "computations that keep a part of the state"

lemma keepsD: "keeps f m \<Longrightarrow> run_state m s = (a, t) \<Longrightarrow> f t = f s"
  by (auto simp: keeps_def)

lemma keepsI: "(\<And>s a t. run_state m s = (a, t) \<Longrightarrow> f t = f s) \<Longrightarrow> keeps f m"
  by (auto simp: keeps_def)

lemma keeps_bind [keeps_intros]:
  "keeps f m \<Longrightarrow> (\<And>a. keeps f (g a)) \<Longrightarrow> keeps f (Monad_Syntax.bind m g)"
proof (rule keepsI)
  fix s b t
  assume m: "keeps f m" and g: "\<And>a. keeps f (g a)"
    and r: "run_state (Monad_Syntax.bind m g) s = (b, t)"
  obtain a u where a: "run_state m s = (a, u)" by fastforce
  with r have "run_state (g a) u = (b, t)" by simp
  then show "f t = f s" using keepsD [OF m a] keepsD [OF g] by simp
qed

lemma keeps_return [keeps_intros]: "keeps f (give a)"
  by (rule keepsI) simp

lemma keeps_asks [keeps_intros]: "keeps f (asks g)"
  by (rule keepsI) simp

lemma keeps_change [keeps_intros]: "(\<And>s. f (g s) = f s) \<Longrightarrow> keeps f (change g)"
  by (rule keepsI) auto

lemma keeps_if [keeps_intros]:
  "keeps f m \<Longrightarrow> keeps f n \<Longrightarrow> keeps f (if b then m else n)"
  by simp

lemma keeps_does: "keeps f m \<Longrightarrow> does (\<lambda>s. P (f s)) m (\<lambda>_ s. P (f s))"
  by (rule doesI) (auto dest: keepsD)

section \<open>The record\<close>

text \<open>
  A process: when it exits by itself, how long it takes to exit after a SIGTERM (None: it
  does not), and whether it is a child of this program, which the system keeps as a zombie
  until it is waited for.
\<close>

record proc =
  p_exit :: "int option"
  p_term :: "nat option"
  p_child :: bool

text \<open>One connection to the plugin: its time, whether the write succeeds, what the reads give.\<close>

datatype chunk = K_data string | K_eof | K_err

record conn =
  c_time :: nat
  c_write :: bool
  c_chunks :: "chunk list"

text \<open>
  What \<open>fork\<close> started: times from the start on, and what its log file holds in the end (None:
  the log cannot be opened).
\<close>

record spawn =
  sp_pid :: int
  sp_exit :: "nat option"
  sp_term :: "nat option"
  sp_psock :: "nat option"
  sp_qsock :: "nat option"
  sp_log :: "string option"

datatype event =
    E_lock string
  | E_unlock string
  | E_input string string  \<comment> \<open>the QMP socket and what was sent on the connection\<close>
  | E_request string string
  | E_exec "string list"

text \<open>The statics of \<open>paths.c\<close>.\<close>

record paths =
  g_exe_dir :: string
  g_plugin :: string
  g_iso :: string
  g_disk :: string
  g_root :: string
  g_guest :: string
  g_init :: bool

record host =
  h_clock :: int
  h_paths :: paths
  h_exe :: "string option"
  h_cwd :: "string option"
  h_env :: "string \<rightharpoonup> string"
  h_files :: "string \<rightharpoonup> string"
  h_dirs :: "string \<Rightarrow> bool"
  h_listing :: "string \<Rightarrow> string list"
  h_real :: "string \<Rightarrow> string option"
  h_writable :: "string \<Rightarrow> bool"
  h_socks :: "string \<rightharpoonup> int"
  h_procs :: "int \<rightharpoonup> proc"
  h_self :: int
  h_logs :: "string \<rightharpoonup> string"
  h_forks :: "spawn option list"
  h_conns :: "conn option list"
  h_qmps :: "(qc_qmp option \<times> bool) list"
  h_lockable :: "string \<Rightarrow> bool"
  h_out :: string
  h_log :: "event list"
  h_hung :: bool
  h_ub :: "ub option"

text \<open>A world with nothing in it, for examples.\<close>

definition bare_host :: host where
  "bare_host =
     \<lparr>h_clock = 0,
      h_paths = \<lparr>g_exe_dir = [], g_plugin = [], g_iso = [], g_disk = [], g_root = [], g_guest = [],
                 g_init = False\<rparr>,
      h_exe = None, h_cwd = None, h_env = Map.empty, h_files = Map.empty, h_dirs = (\<lambda>_. False),
      h_listing = (\<lambda>_. []), h_real = (\<lambda>_. None), h_writable = (\<lambda>_. True),
      h_socks = Map.empty, h_procs = Map.empty, h_self = 1000, h_logs = Map.empty, h_forks = [], h_conns = [], h_qmps = [],
      h_lockable = (\<lambda>_. True), h_out = [], h_log = [], h_hung = False, h_ub = None\<rparr>"

section \<open>Time, output, environment\<close>

definition sleep :: "nat \<Rightarrow> (host, unit) state" where
  "sleep ms = change (\<lambda>w. w\<lparr>h_clock := h_clock w + int ms\<rparr>)"

definition now_ms :: "(host, int) state" where
  "now_ms = asks h_clock"

definition print :: "string \<Rightarrow> (host, unit) state" where
  "print s = change (\<lambda>w. w\<lparr>h_out := h_out w @ s\<rparr>)"

definition log_event :: "event \<Rightarrow> (host, unit) state" where
  "log_event e = change (\<lambda>w. w\<lparr>h_log := h_log w @ [e]\<rparr>)"

definition getenv :: "string \<Rightarrow> (host, string option) state" where
  "getenv k = asks (\<lambda>w. h_env w k)"

section \<open>Files and sockets\<close>

definition sock_there :: "host \<Rightarrow> string \<Rightarrow> bool" where
  "sock_there w p = (case h_socks w p of None \<Rightarrow> False | Some t \<Rightarrow> t \<le> h_clock w)"

definition exists_path :: "string \<Rightarrow> (host, bool) state" where
  "exists_path p = asks (\<lambda>w. p \<noteq> [] \<and> (h_files w p \<noteq> None \<or> h_dirs w p \<or> sock_there w p))"

definition unlink :: "string \<Rightarrow> (host, unit) state" where
  "unlink p = change (\<lambda>w. w\<lparr>h_files := (h_files w)(p := None),
                            h_socks := (if sock_there w p then (h_socks w)(p := None) else h_socks w)\<rparr>)"

definition mkdir :: "string \<Rightarrow> (host, unit) state" where
  "mkdir p = change (\<lambda>w. if h_writable w p then w\<lparr>h_dirs := (h_dirs w)(p := True)\<rparr> else w)"

text \<open>
  The names that \<open>readdir\<close> finds, in the order of the directory; \<open>h_listing\<close> has the names that
  can occur in it. Entries that are no regular files are left out.
\<close>

definition opendir :: "string \<Rightarrow> (host, string list option) state" where
  "opendir p = asks (\<lambda>w. if h_dirs w p
     then Some (filter (\<lambda>e. h_files w (p @ ''/'' @ e) \<noteq> None) (h_listing w p)) else None)"

definition realpath_or :: "string \<Rightarrow> (host, string) state" where
  "realpath_or p = asks (\<lambda>w. case h_real w p of Some r \<Rightarrow> r | None \<Rightarrow> snprintf 4096 p)"

text \<open>The first undefined behaviour; what comes after it means nothing.\<close>

definition undefined_at :: "ub \<Rightarrow> (host, unit) state" where
  "undefined_at e = change (\<lambda>w. w\<lparr>h_ub := (if h_ub w = None then Some e else h_ub w)\<rparr>)"

text \<open>Whether \<open>fopen(p, "w")\<close>, the writing and \<open>fclose\<close> stored the text.\<close>

definition write_file :: "string \<Rightarrow> string \<Rightarrow> (host, bool) state" where
  "write_file p s = do {
     ok \<leftarrow> asks (\<lambda>w. h_writable w p);
     if ok then do { change (\<lambda>w. w\<lparr>h_files := (h_files w)(p \<mapsto> s)\<rparr>); give True }
     else give False }"

section \<open>Processes\<close>

definition gone :: "host \<Rightarrow> proc \<Rightarrow> bool" where
  "gone w p = (case p_exit p of None \<Rightarrow> False | Some t \<Rightarrow> t \<le> h_clock w)"

text \<open>\<open>kill(pid, 0)\<close> succeeds, or fails with EPERM: a zombie still counts.\<close>

definition alive :: "host \<Rightarrow> int \<Rightarrow> bool" where
  "alive w pid \<longleftrightarrow> 0 < pid \<and>
     (case h_procs w pid of None \<Rightarrow> False | Some p \<Rightarrow> \<not> gone w p \<or> p_child p)"

definition exit_by :: "int \<Rightarrow> proc \<Rightarrow> proc" where
  "exit_by t p = p\<lparr>p_exit := Some (case p_exit p of None \<Rightarrow> t | Some e \<Rightarrow> min e t)\<rparr>"

definition sigkill :: "int \<Rightarrow> (host, unit) state" where
  "sigkill pid = change (\<lambda>w. w\<lparr>h_procs := (h_procs w)(pid := map_option (exit_by (h_clock w)) (h_procs w pid))\<rparr>)"

definition sigterm :: "int \<Rightarrow> (host, unit) state" where
  "sigterm pid = change (\<lambda>w. w\<lparr>h_procs := (h_procs w)(pid := map_option
     (\<lambda>p. case p_term p of None \<Rightarrow> p | Some d \<Rightarrow> exit_by (h_clock w + int d) p) (h_procs w pid))\<rparr>)"

text \<open>
  \<open>waitpid(pid, ..., 0)\<close>: for a child it blocks until the exit and removes the zombie; a child
  that never exits blocks it for ever (\<open>h_hung\<close>). Another process is an error at once.
\<close>

definition waitpid :: "int \<Rightarrow> (host, unit) state" where
  "waitpid pid = change (\<lambda>w.
     case h_procs w pid of
       None \<Rightarrow> w
     | Some p \<Rightarrow>
         if \<not> p_child p then w
         else (case p_exit p of
                 None \<Rightarrow> w\<lparr>h_hung := True\<rparr>
               | Some t \<Rightarrow> w\<lparr>h_clock := max (h_clock w) t, h_procs := (h_procs w)(pid := None)\<rparr>))"

text \<open>\<open>waitpid(pid, ..., WNOHANG) == pid\<close>.\<close>

definition reaped :: "int \<Rightarrow> (host, bool) state" where
  "reaped pid = do {
     dead \<leftarrow> asks (\<lambda>w. case h_procs w pid of None \<Rightarrow> False | Some p \<Rightarrow> p_child p \<and> gone w p);
     if dead then do { change (\<lambda>w. w\<lparr>h_procs := (h_procs w)(pid := None)\<rparr>); give True }
     else give False }"

text \<open>
  \<open>fork\<close> and the \<open>execlp\<close> of QEMU with its arguments in the child, which writes its log and
  opens the two sockets at the given paths: the pid, or -1. The logs are kept apart from the
  files.
\<close>

definition start_qemu :: "string list \<Rightarrow> string \<Rightarrow> string \<Rightarrow> string \<Rightarrow> (host, int) state" where
  "start_qemu argv psock qsock logpath = do {
     fs \<leftarrow> asks h_forks;
     change (\<lambda>w. w\<lparr>h_forks := tl (h_forks w)\<rparr>);
     (case fs of
        Some s # _ \<Rightarrow> do {
          log_event (E_exec argv);
          change (\<lambda>w.
            let after = (\<lambda>d. h_clock w + int d) in
            w\<lparr>h_procs := (h_procs w)(sp_pid s \<mapsto>
                 \<lparr>p_exit = map_option after (sp_exit s), p_term = sp_term s, p_child = True\<rparr>),
              h_socks := (h_socks w)(psock := map_option after (sp_psock s),
                                     qsock := map_option after (sp_qsock s)),
              h_logs := (case sp_log s of None \<Rightarrow> h_logs w | Some l \<Rightarrow> (h_logs w)(logpath \<mapsto> l))\<rparr>);
          give (sp_pid s) }
      | _ \<Rightarrow> give (- 1)) }"

section \<open>QMP connections\<close>

text \<open>
  A connection that \<open>qc_qmp_connect\<close> opened is a value that the client threads through; its
  effects (the sleeps, what was sent) reach the host when it is closed.
\<close>

definition qmp_open :: "string \<Rightarrow> (host, qc_qmp option) state" where
  "qmp_open p = do {
     qs \<leftarrow> asks h_qmps;
     change (\<lambda>w. w\<lparr>h_qmps := tl (h_qmps w)\<rparr>);
     give (case qs of [] \<Rightarrow> None | (conn, mem) # _ \<Rightarrow> qc_qmp_connect (Some p) conn mem) }"

definition qc_qmp_close :: "string \<Rightarrow> qc_qmp option \<Rightarrow> (host, unit) state" where
  "qc_qmp_close p q =
     (case q of
        None \<Rightarrow> give ()
      | Some q \<Rightarrow> do {
          sleep (nat (sum_list (q_slept q)));
          log_event (E_input p (q_sent q)) })"

section \<open>What the tests depend on\<close>

lemma sock_there_frame [simp]:
  "sock_there (w\<lparr>h_paths := x0\<rparr>) = sock_there w"
  "sock_there (w\<lparr>h_env := x1\<rparr>) = sock_there w"
  "sock_there (w\<lparr>h_files := x2\<rparr>) = sock_there w"
  "sock_there (w\<lparr>h_dirs := x3\<rparr>) = sock_there w"
  "sock_there (w\<lparr>h_conns := x4\<rparr>) = sock_there w"
  "sock_there (w\<lparr>h_forks := x5\<rparr>) = sock_there w"
  "sock_there (w\<lparr>h_qmps := x6\<rparr>) = sock_there w"
  "sock_there (w\<lparr>h_out := x7\<rparr>) = sock_there w"
  "sock_there (w\<lparr>h_log := x8\<rparr>) = sock_there w"
  "sock_there (w\<lparr>h_hung := x9\<rparr>) = sock_there w"
  "sock_there (w\<lparr>h_ub := x10\<rparr>) = sock_there w"
  "sock_there (w\<lparr>h_procs := x11\<rparr>) = sock_there w"
  by (simp_all add: fun_eq_iff sock_there_def cong: option.case_cong)

lemma gone_frame [simp]:
  "gone (w\<lparr>h_paths := x0\<rparr>) = gone w"
  "gone (w\<lparr>h_env := x1\<rparr>) = gone w"
  "gone (w\<lparr>h_files := x2\<rparr>) = gone w"
  "gone (w\<lparr>h_dirs := x3\<rparr>) = gone w"
  "gone (w\<lparr>h_conns := x4\<rparr>) = gone w"
  "gone (w\<lparr>h_forks := x5\<rparr>) = gone w"
  "gone (w\<lparr>h_qmps := x6\<rparr>) = gone w"
  "gone (w\<lparr>h_out := x7\<rparr>) = gone w"
  "gone (w\<lparr>h_log := x8\<rparr>) = gone w"
  "gone (w\<lparr>h_hung := x9\<rparr>) = gone w"
  "gone (w\<lparr>h_ub := x10\<rparr>) = gone w"
  "gone (w\<lparr>h_procs := x11\<rparr>) = gone w"
  "gone (w\<lparr>h_socks := x12\<rparr>) = gone w"
  by (simp_all add: fun_eq_iff gone_def cong: option.case_cong)

lemma alive_frame [simp]:
  "alive (w\<lparr>h_paths := x0\<rparr>) = alive w"
  "alive (w\<lparr>h_env := x1\<rparr>) = alive w"
  "alive (w\<lparr>h_files := x2\<rparr>) = alive w"
  "alive (w\<lparr>h_dirs := x3\<rparr>) = alive w"
  "alive (w\<lparr>h_conns := x4\<rparr>) = alive w"
  "alive (w\<lparr>h_forks := x5\<rparr>) = alive w"
  "alive (w\<lparr>h_qmps := x6\<rparr>) = alive w"
  "alive (w\<lparr>h_out := x7\<rparr>) = alive w"
  "alive (w\<lparr>h_log := x8\<rparr>) = alive w"
  "alive (w\<lparr>h_hung := x9\<rparr>) = alive w"
  "alive (w\<lparr>h_ub := x10\<rparr>) = alive w"
  "alive (w\<lparr>h_socks := x11\<rparr>) = alive w"
  by (simp_all add: fun_eq_iff alive_def split: option.split)

section \<open>What the calls keep\<close>

lemma keeps_calls [keeps_intros]:
  "(\<And>w t. f (w\<lparr>h_clock := t\<rparr>) = f w) \<Longrightarrow> keeps f (sleep ms)"
  "keeps f now_ms"
  "(\<And>w s. f (w\<lparr>h_out := s\<rparr>) = f w) \<Longrightarrow> keeps f (print s)"
  "(\<And>w l. f (w\<lparr>h_log := l\<rparr>) = f w) \<Longrightarrow> keeps f (log_event e)"
  "keeps f (getenv k)"
  "keeps f (exists_path p)"
  "(\<And>w fs ss. f (w\<lparr>h_files := fs, h_socks := ss\<rparr>) = f w) \<Longrightarrow> keeps f (unlink p)"
  "(\<And>w ds. f (w\<lparr>h_dirs := ds\<rparr>) = f w) \<Longrightarrow> keeps f (mkdir p)"
  "keeps f (opendir p)" "keeps f (realpath_or p)"
  "(\<And>w u. f (w\<lparr>h_ub := u\<rparr>) = f w) \<Longrightarrow> keeps f (undefined_at u)"
  "(\<And>w ps. f (w\<lparr>h_procs := ps\<rparr>) = f w) \<Longrightarrow> keeps f (sigkill pid)"
  "(\<And>w ps. f (w\<lparr>h_procs := ps\<rparr>) = f w) \<Longrightarrow> keeps f (sigterm pid)"
  by (simp_all add: sleep_def now_ms_def print_def log_event_def getenv_def exists_path_def unlink_def
      sigkill_def sigterm_def mkdir_def opendir_def realpath_or_def undefined_at_def keeps_change keeps_asks)

lemma keeps_start_qemu [keeps_intros]:
  "(\<And>w fs. f (w\<lparr>h_forks := fs\<rparr>) = f w) \<Longrightarrow> (\<And>w l. f (w\<lparr>h_log := l\<rparr>) = f w) \<Longrightarrow>
     (\<And>w ps ss ls. f (w\<lparr>h_procs := ps, h_socks := ss, h_logs := ls\<rparr>) = f w) \<Longrightarrow> keeps f (start_qemu argv p q l)"
  unfolding start_qemu_def
  by (intro keeps_intros) (auto simp: Let_def intro!: keeps_intros split: list.split option.split)

lemma keeps_write_file [keeps_intros]:
  "(\<And>w fs. f (w\<lparr>h_files := fs\<rparr>) = f w) \<Longrightarrow> keeps f (write_file p s)"
  by (auto simp: write_file_def intro!: keeps_intros)

lemma keeps_waitpid [keeps_intros]:
  "(\<And>w t ps. f (w\<lparr>h_clock := t, h_procs := ps\<rparr>) = f w) \<Longrightarrow> (\<And>w. f (w\<lparr>h_hung := True\<rparr>) = f w) \<Longrightarrow>
     keeps f (waitpid pid)"
  by (auto simp: waitpid_def intro!: keeps_intros split: option.split)

lemma keeps_reaped [keeps_intros]:
  "(\<And>w ps. f (w\<lparr>h_procs := ps\<rparr>) = f w) \<Longrightarrow> keeps f (reaped pid)"
  by (auto simp: reaped_def intro!: keeps_intros)

lemma keeps_qmp_open [keeps_intros]:
  "(\<And>w qs. f (w\<lparr>h_qmps := qs\<rparr>) = f w) \<Longrightarrow> keeps f (qmp_open p)"
  by (auto simp: qmp_open_def intro!: keeps_intros)

lemma keeps_qmp_close [keeps_intros]:
  "(\<And>w t. f (w\<lparr>h_clock := t\<rparr>) = f w) \<Longrightarrow> (\<And>w l. f (w\<lparr>h_log := l\<rparr>) = f w) \<Longrightarrow>
     keeps f (qc_qmp_close p q)"
  by (auto simp: qc_qmp_close_def intro!: keeps_intros split: option.split)

end
