(* ===== verification/Client.thy ===== *)
theory Client
  imports Host Cli_Text
begin

text \<open>
  The client's requests to the plugin (\<open>plugin_request\<close>, \<open>get_console_text\<close> and
  \<open>wait_expect\<close> of cli/session.c, their copies in cli/run.c, and \<open>request_buf\<close>,
  \<open>request\<close>, \<open>print_text_only\<close> and \<open>cmd_expect\<close> of cli/main.c).

  A connection of the host gives its reply in pieces, as the reads see them. Main results:
  however a reply is cut into pieces, the client reads it whole; what it shows is the
  screen that the plugin answered with; the waiting loop ends, soon after its deadline at
  the latest, and it succeeds exactly when a reply to a request that it made before the
  deadline shows the text.
\<close>

abbreviation (input) TEXT_MAX :: nat where "TEXT_MAX \<equiv> 2033"
abbreviation (input) SUN_PATH :: nat where "SUN_PATH \<equiv> 108"

section \<open>One request\<close>

text \<open>
  The reading loop: \<open>n\<close> is the size of the buffer and \<open>buf\<close> what it holds. The result says
  whether a read failed. A piece that does not fit is read only as far as the buffer goes,
  which ends the loop.
\<close>

fun read_reply :: "nat \<Rightarrow> chunk list \<Rightarrow> string \<Rightarrow> string \<times> bool" where
  "read_reply n [] buf = (buf, False)"
| "read_reply n (c # cs) buf =
     (if \<not> length buf + 1 < n then (buf, False)
      else (case c of
              K_eof \<Rightarrow> (buf, False)
            | K_err \<Rightarrow> (buf, True)
            | K_data s \<Rightarrow>
                if s = [] then (buf, False)
                else
                 (let buf = buf @ take (n - 1 - length buf) s in
                  if LF \<in> set buf then (buf, False) else read_reply n cs buf)))"

text \<open>A connection, the request line (4096 bytes with its NUL), and the reply; None: no reply.\<close>

definition ask :: "string \<Rightarrow> string \<Rightarrow> nat \<Rightarrow> (host, (string \<times> bool) option) state" where
  "ask sock line buflen = do {
     cs \<leftarrow> asks h_conns;
     change (\<lambda>w. w\<lparr>h_conns := tl (h_conns w)\<rparr>);
     (case cs of
        Some c # _ \<Rightarrow> do {
          sleep (c_time c);
          if c_write c
          then do {
            log_event (E_request (snprintf SUN_PATH sock) (snprintf 4096 (line @ [LF])));
            give (Some (read_reply buflen (c_chunks c) [])) }
          else give None }
      | _ \<Rightarrow> give None) }"

text \<open>\<open>session.c\<close>, \<open>run.c\<close>: a failed read ends the reply.\<close>

definition plugin_request :: "string \<Rightarrow> string \<Rightarrow> nat \<Rightarrow> (host, string option) state" where
  "plugin_request sock line buflen = do {
     r \<leftarrow> ask sock line buflen;
     give (map_option fst r) }"

text \<open>\<open>main.c\<close>: a failed read fails the request.\<close>

definition request_buf :: "string \<Rightarrow> string \<Rightarrow> nat \<Rightarrow> (host, string option) state" where
  "request_buf path line buf_len = do {
     r \<leftarrow> ask path line buf_len;
     give (case r of Some (buf, False) \<Rightarrow> Some buf | _ \<Rightarrow> None) }"

definition request :: "string \<Rightarrow> string \<Rightarrow> (host, int) state" where
  "request path line = do {
     r \<leftarrow> request_buf path line RESP_MAX;
     (case r of
        None \<Rightarrow> give 1
      | Some buf \<Rightarrow> do {
          print (c_str buf);
          (if buf = [] \<or> last buf \<noteq> LF then print [LF] else give ());
          give 0 }) }"

definition get_console_cmd :: string where
  \<open>get_console_cmd = ''{"cmd":"get_console"}''\<close>

definition get_console_text :: "string \<Rightarrow> nat \<Rightarrow> (host, string option) state" where
  "get_console_text psock out_len = do {
     json \<leftarrow> plugin_request psock get_console_cmd RESP_MAX;
     give (case json of None \<Rightarrow> None | Some json \<Rightarrow> extract_text (c_str json) out_len) }"

text \<open>The output of \<open>fputs(text); fputc('\n')\<close>, or 1 with nothing printed on stdout.\<close>

definition print_text_only :: "string \<Rightarrow> (host, int) state" where
  "print_text_only json =
     (case extract_text_field json TEXT_MAX of
        None \<Rightarrow> give 1
      | Some t \<Rightarrow> do { print (t @ [LF]); give 0 })"

section \<open>Waiting for a text\<close>

text \<open>What a reply to \<open>get_console\<close> shows, in \<open>session.c\<close> and \<open>run.c\<close>, and in \<open>main.c\<close>.\<close>

definition session_text :: "(string \<times> bool) option \<Rightarrow> string option" where
  "session_text r = (case r of None \<Rightarrow> None | Some (b, _) \<Rightarrow> extract_text (c_str b) TEXT_MAX)"

definition main_text :: "(string \<times> bool) option \<Rightarrow> string option" where
  "main_text r = (case r of Some (b, False) \<Rightarrow> extract_text_field (c_str b) TEXT_MAX | _ \<Rightarrow> None)"

lemma ask_clock: "run_state (ask sock line n) w = (r, w') \<Longrightarrow> h_clock w \<le> h_clock w'"
  by (auto simp: ask_def sleep_def log_event_def split: list.splits option.splits if_splits)

text \<open>The loop of \<open>wait_expect\<close> and of \<open>cmd_expect\<close>.\<close>

function poll_loop ::
  "((string \<times> bool) option \<Rightarrow> string option) \<Rightarrow> string \<Rightarrow> string \<Rightarrow> int \<Rightarrow> host \<Rightarrow> bool \<times> host" where
  "poll_loop shown psock needle deadline w =
     (if h_clock w < deadline then
        (case run_state (ask psock get_console_cmd RESP_MAX) w of (r, w1) \<Rightarrow>
           (if (case shown r of None \<Rightarrow> False | Some t \<Rightarrow> strstr t needle \<noteq> None) then (True, w1)
            else poll_loop shown psock needle deadline (snd (run_state (sleep 100) w1))))
      else (False, w))"
  by pat_completeness auto
termination
  by (relation "measure (\<lambda>(shown, psock, needle, deadline, w). nat (deadline - h_clock w))")
     (auto simp: sleep_def dest!: ask_clock [OF sym])

declare poll_loop.simps [simp del]

definition poll ::
  "((string \<times> bool) option \<Rightarrow> string option) \<Rightarrow> string \<Rightarrow> string \<Rightarrow> int \<Rightarrow> (host, bool) state" where
  "poll shown psock needle timeout_ms = do {
     t \<leftarrow> now_ms;
     State (poll_loop shown psock needle (t + timeout_ms)) }"

definition wait_expect :: "string \<Rightarrow> string \<Rightarrow> int \<Rightarrow> (host, int) state" where
  "wait_expect psock needle timeout_ms = do {
     ok \<leftarrow> poll session_text psock needle timeout_ms;
     give (if ok then 0 else - 1) }"

definition cmd_expect :: "string \<Rightarrow> string option \<Rightarrow> int \<Rightarrow> (host, int) state" where
  "cmd_expect sock needle timeout_ms =
     (if needle = None \<or> needle = Some [] then give 2
      else do {
        ok \<leftarrow> poll main_text sock (the needle) timeout_ms;
        give (if ok then 0 else 1) })"

section \<open>Replies in pieces\<close>

text \<open>The texts that the reads deliver.\<close>

fun delivers :: "chunk list \<Rightarrow> string \<Rightarrow> bool" where
  "delivers [] s \<longleftrightarrow> s = []"
| "delivers (K_data d # cs) s \<longleftrightarrow> d \<noteq> [] \<and> prefix d s \<and> delivers cs (drop (length d) s)"
| "delivers (_ # cs) s \<longleftrightarrow> False"

lemma read_reply_line:
  "delivers cs s \<Longrightarrow> s = drop (length buf) (l @ [LF]) \<Longrightarrow> buf = take (length buf) l \<Longrightarrow>
     length buf \<le> length l \<Longrightarrow> LF \<notin> set l \<Longrightarrow> length l + 1 < n \<Longrightarrow>
     read_reply n (cs @ rest) buf = (l @ [LF], False)"
proof (induction cs s arbitrary: buf rule: delivers.induct)
  case (1 s)
  then show ?case by simp
next
  case (2 d cs s)
  have d: "d \<noteq> []" "prefix d s" "delivers cs (drop (length d) s)" using "2.prems"(1) by auto
  have s: "s = drop (length buf) l @ [LF]" using "2.prems"(2,4) by simp
  have room: "length buf + 1 < n" and len: "length d \<le> n - 1 - length buf"
    using "2.prems"(4,6) s d(2) prefix_length_le by fastforce+
  have bd: "buf @ d = take (length (buf @ d)) (l @ [LF])"
  proof -
    have "d = take (length d) (drop (length buf) (l @ [LF]))"
      using d(2) "2.prems"(2) by (metis append_eq_conv_conj prefix_def)
    moreover have "buf = take (length buf) (l @ [LF])" using "2.prems"(3,4) by simp
    ultimately show ?thesis by (metis length_append take_add)
  qed
  show ?case
  proof (cases "length (buf @ d) \<le> length l")
    case True
    then have eq: "buf @ d = take (length (buf @ d)) l" using bd by simp
    then have "LF \<notin> set (buf @ d)" using "2.prems"(5) by (metis in_set_takeD)
    moreover have "drop (length d) s = drop (length (buf @ d)) (l @ [LF])"
      using "2.prems"(2) by (simp only: drop_drop length_append add.commute)
    ultimately show ?thesis
      using "2.IH" [OF d(3) _ eq True "2.prems"(5,6)] room len d(1) by (simp add: Let_def)
  next
    case False
    moreover have "length (buf @ d) \<le> length (l @ [LF])"
      using d(2) s "2.prems"(4) prefix_length_le by fastforce
    ultimately have "buf @ d = l @ [LF]" using bd by simp
    then show ?thesis using room len d(1) by (simp add: Let_def)
  qed
qed simp_all

section \<open>Requests\<close>

lemma keeps_ask [keeps_intros]:
  assumes "\<And>w cs. f (w\<lparr>h_conns := cs\<rparr>) = f w" "\<And>w t. f (w\<lparr>h_clock := t\<rparr>) = f w"
    and "\<And>w l. f (w\<lparr>h_log := l\<rparr>) = f w"
  shows "keeps f (ask sock line n)"
  unfolding ask_def using assms by (intro keeps_intros) (auto intro!: keeps_intros split: list.split option.split)

lemma run_ask:
  "run_state (ask sock line n) w =
     (case h_conns w of
        Some c # cs \<Rightarrow>
          (if c_write c
           then (Some (read_reply n (c_chunks c) []),
                 w\<lparr>h_conns := cs, h_clock := h_clock w + int (c_time c),
                   h_log := h_log w @ [E_request (snprintf SUN_PATH sock) (snprintf 4096 (line @ [LF]))]\<rparr>)
           else (None, w\<lparr>h_conns := cs, h_clock := h_clock w + int (c_time c)\<rparr>))
      | cs \<Rightarrow> (None, w\<lparr>h_conns := tl cs\<rparr>))"
  by (auto simp: ask_def sleep_def log_event_def split: list.split option.split)

section \<open>Waiting\<close>

text \<open>What a request that meets this outcome of the connection gets, and the time it takes.\<close>

definition outcome :: "conn option \<Rightarrow> (string \<times> bool) option" where
  "outcome oc = (case oc of
     Some c \<Rightarrow> if c_write c then Some (read_reply RESP_MAX (c_chunks c) []) else None
   | None \<Rightarrow> None)"

definition outcome_time :: "conn option \<Rightarrow> nat" where
  "outcome_time oc = (case oc of Some c \<Rightarrow> c_time c | None \<Rightarrow> 0)"

text \<open>When the \<open>k\<close>-th request of the loop starts, counted from the start of the loop.\<close>

definition start_of :: "conn option list \<Rightarrow> nat \<Rightarrow> int" where
  "start_of cs k = int (\<Sum>c\<leftarrow>take k cs. outcome_time c + 100)"

definition shows_needle :: "((string \<times> bool) option \<Rightarrow> string option) \<Rightarrow> string \<Rightarrow> conn option \<Rightarrow> bool" where
  "shows_needle shown needle oc \<longleftrightarrow> (\<exists>t. shown (outcome oc) = Some t \<and> sublist needle t)"

lemma shows_needle_eq:
  "(case shown (outcome oc) of None \<Rightarrow> False | Some t \<Rightarrow> strstr t needle \<noteq> None) = shows_needle shown needle oc"
  by (simp add: shows_needle_def strstr_found [symmetric] split: option.split)

lemma run_ask_outcome:
  "\<exists>l. run_state (ask sock line RESP_MAX) w =
     (case h_conns w of
        [] \<Rightarrow> (outcome None, w\<lparr>h_conns := []\<rparr>)
      | oc # cs \<Rightarrow> (outcome oc, w\<lparr>h_conns := cs, h_clock := h_clock w + int (outcome_time oc), h_log := l\<rparr>))"
  unfolding run_ask outcome_def outcome_time_def
  by (cases "h_conns w"; cases "hd (h_conns w)") (auto intro: exI [of _ "h_log w"])

lemma start_of_nonneg: "0 \<le> start_of cs k"
  by (simp add: start_of_def)

lemma start_of_simps [simp]:
  "start_of cs 0 = 0" "start_of (oc # cs) (Suc k) = int (outcome_time oc) + 100 + start_of cs k"
  by (simp_all add: start_of_def)

lemma ex_less_Suc: "(\<exists>k < Suc n. P k) \<longleftrightarrow> P 0 \<or> (\<exists>k < n. P (Suc k))"
  by (metis less_Suc_eq_0_disj zero_less_Suc)

lemma run_poll: "run_state (poll shown psock needle timeout_ms) w =
    poll_loop shown psock needle (h_clock w + timeout_ms) w"
  by (simp add: poll_def now_ms_def)

text \<open>
  What the loop needs of a view of the replies, and what then holds of the loop. The two
  programs show a reply with decoders of their own.
\<close>

locale reply_view =
  fixes shown :: "(string \<times> bool) option \<Rightarrow> string option"
  assumes no_reply: "shown None = None"
begin

text \<open>One turn of the loop.\<close>

lemma poll_step:
  assumes "h_clock w < deadline"
  shows "\<exists>l. poll_loop shown psock needle deadline w =
    (case h_conns w of
       [] \<Rightarrow> poll_loop shown psock needle deadline (w\<lparr>h_conns := [], h_clock := h_clock w + 100\<rparr>)
     | oc # cs \<Rightarrow>
         if shows_needle shown needle oc
         then (True, w\<lparr>h_conns := cs, h_clock := h_clock w + int (outcome_time oc), h_log := l\<rparr>)
         else poll_loop shown psock needle deadline
                (w\<lparr>h_conns := cs, h_log := l, h_clock := h_clock w + int (outcome_time oc) + 100\<rparr>))"
proof -
  obtain l where l: "run_state (ask psock get_console_cmd RESP_MAX) w =
     (case h_conns w of
        [] \<Rightarrow> (outcome None, w\<lparr>h_conns := []\<rparr>)
      | oc # cs \<Rightarrow> (outcome oc, w\<lparr>h_conns := cs, h_clock := h_clock w + int (outcome_time oc), h_log := l\<rparr>))"
    using run_ask_outcome by blast
  have none: "shown (outcome None) = None" using no_reply by (simp add: outcome_def)
  show ?thesis
    unfolding poll_loop.simps [of shown psock needle deadline w]
    using assms none
    by (intro exI [of _ l]) (simp add: l sleep_def shows_needle_eq split: list.split)
qed

text \<open>Induction over the turns: each one moves the clock.\<close>

lemma poll_induct [case_names late empty found missed]:
  assumes late: "\<And>w. \<not> h_clock w < deadline \<Longrightarrow> P w (False, w)"
    and empty: "\<And>w r. h_clock w < deadline \<Longrightarrow> h_conns w = [] \<Longrightarrow>
      P (w\<lparr>h_conns := [], h_clock := h_clock w + 100\<rparr>) r \<Longrightarrow> P w r"
    and found: "\<And>w oc cs l. h_clock w < deadline \<Longrightarrow> h_conns w = oc # cs \<Longrightarrow> shows_needle shown needle oc \<Longrightarrow>
      P w (True, w\<lparr>h_conns := cs, h_clock := h_clock w + int (outcome_time oc), h_log := l\<rparr>)"
    and missed: "\<And>w oc cs l r. h_clock w < deadline \<Longrightarrow> h_conns w = oc # cs \<Longrightarrow> \<not> shows_needle shown needle oc \<Longrightarrow>
      P (w\<lparr>h_conns := cs, h_log := l, h_clock := h_clock w + int (outcome_time oc) + 100\<rparr>) r \<Longrightarrow> P w r"
  shows "P w (poll_loop shown psock needle deadline w)"
proof (induction "nat (deadline - h_clock w)" arbitrary: w rule: less_induct)
  case less
  show ?case
  proof (cases "h_clock w < deadline")
    case False
    then show ?thesis using late by (subst poll_loop.simps) simp
  next
    case True
    from poll_step [OF this] obtain l where step:
      "poll_loop shown psock needle deadline w =
        (case h_conns w of
           [] \<Rightarrow> poll_loop shown psock needle deadline (w\<lparr>h_conns := [], h_clock := h_clock w + 100\<rparr>)
         | oc # cs \<Rightarrow>
             if shows_needle shown needle oc
             then (True, w\<lparr>h_conns := cs, h_clock := h_clock w + int (outcome_time oc), h_log := l\<rparr>)
             else poll_loop shown psock needle deadline
                    (w\<lparr>h_conns := cs, h_log := l, h_clock := h_clock w + int (outcome_time oc) + 100\<rparr>))"
      by blast
    show ?thesis
    proof (cases "h_conns w")
      case Nil
      with step True show ?thesis by (simp add: empty less)
    next
      case (Cons oc cs)
      with step True show ?thesis
        by (cases "shows_needle shown needle oc")
           (simp add: found, simp, rule missed [where l = l, OF _ Cons], simp_all add: less)
    qed
  qed
qed

lemma poll_loop_iff:
  "fst (poll_loop shown psock needle deadline w) \<longleftrightarrow>
     (\<exists>k < length (h_conns w). shows_needle shown needle (h_conns w ! k) \<and>
        h_clock w + start_of (h_conns w) k < deadline)"
proof (induction rule: poll_induct [where needle = needle and deadline = deadline])
  case (late w)
  have "\<not> h_clock w + start_of (h_conns w) k < deadline" for k
    using late start_of_nonneg [of "h_conns w" k] by simp
  then show ?case by simp
next
  case (missed w oc cs l r)
  then show ?case by (simp add: ex_less_Suc add.assoc)
qed (simp_all add: ex_less_Suc)

lemma poll_loop_bound:
  assumes "\<forall>oc \<in> set (h_conns w). outcome_time oc \<le> T"
    and "poll_loop shown psock needle deadline w = (ok, w')"
  shows "h_clock w' \<le> max (h_clock w) (deadline + int T + 100)" "\<not> ok \<Longrightarrow> deadline \<le> h_clock w'"
proof -
  have "(\<forall>oc \<in> set (h_conns w). outcome_time oc \<le> T) \<longrightarrow>
     (case poll_loop shown psock needle deadline w of (ok, w') \<Rightarrow>
        h_clock w' \<le> max (h_clock w) (deadline + int T + 100) \<and> (\<not> ok \<longrightarrow> deadline \<le> h_clock w'))"
    by (induction rule: poll_induct [where needle = needle and deadline = deadline])
       (auto simp: le_max_iff_disj)
  with assms show "h_clock w' \<le> max (h_clock w) (deadline + int T + 100)" "\<not> ok \<Longrightarrow> deadline \<le> h_clock w'"
    by auto
qed

text \<open>The time of the requests of a loop does not depend on where the clock stands.\<close>

lemma poll_iff:
  "fst (run_state (poll shown psock needle timeout_ms) w) \<longleftrightarrow>
     (\<exists>k < length (h_conns w). shows_needle shown needle (h_conns w ! k) \<and>
        start_of (h_conns w) k < timeout_ms)"
  by (simp add: run_poll poll_loop_iff)

end

interpretation session_view: reply_view session_text
  by unfold_locales (simp add: session_text_def)

interpretation main_view: reply_view main_text
  by unfold_locales (simp add: main_text_def)

lemma run_get_console_text:
  "run_state (get_console_text psock n) w =
     (case run_state (ask psock get_console_cmd RESP_MAX) w of
        (r, w') \<Rightarrow> (case r of None \<Rightarrow> None | Some (b, _) \<Rightarrow> extract_text (c_str b) n, w'))"
  by (simp add: get_console_text_def plugin_request_def split: prod.split option.split)

lemma wait_expect_poll:
  "fst (run_state (wait_expect psock needle timeout_ms) w) =
     (if fst (run_state (poll session_text psock needle timeout_ms) w) then 0 else - 1)"
  by (simp add: wait_expect_def split: prod.split)

lemma cmd_expect_poll:
  "fst (run_state (cmd_expect psock (Some needle) timeout_ms) w) =
     (if needle = [] then 2
      else if fst (run_state (poll main_text psock needle timeout_ms) w) then 0 else 1)"
  by (simp add: cmd_expect_def split: prod.split)

text \<open>A line of a printable reply is the same as a C string.\<close>

lemma c_str_line: "plain l \<Longrightarrow> c_str (l @ [LF]) = l @ [LF]"
  by (simp add: c_str_def plain_no_NUL takeWhile_not_idem)

text \<open>What every request and every pause keeps, the wait keeps.\<close>

lemma does_wait_expect:
  assumes "does P (ask psock get_console_cmd RESP_MAX) (\<lambda>_. P)" "does P (sleep 100) (\<lambda>_. P)"
  shows "does P (wait_expect psock needle timeout_ms) (\<lambda>_. P)"
proof -
  have "P w \<Longrightarrow> P (snd (poll_loop session_text psock needle d w))" for d w
  proof (induction "nat (d - h_clock w)" arbitrary: w rule: less_induct)
    case less
    obtain r w1 where a: "run_state (ask psock get_console_cmd RESP_MAX) w = (r, w1)" by (rule prod.exhaust)
    obtain x w2 where s: "run_state (sleep 100) w1 = (x, w2)" by (rule prod.exhaust)
    have "P w1" using doesD [OF assms(1) less.prems a] .
    moreover have "P w2" using doesD [OF assms(2) \<open>P w1\<close> s] .
    moreover have "h_clock w < h_clock w2" using ask_clock [OF a] s by (auto simp: sleep_def)
    ultimately show ?case
      using a s less.hyps less.prems by (subst poll_loop.simps) (simp split: option.split)
  qed
  then show ?thesis
    by (intro doesI) (auto simp: wait_expect_def run_poll split: prod.splits, metis snd_conv)
qed

section \<open>Properties\<close>

text \<open>
  However the reads cut a reply of one line into pieces, and whatever the connection
  would give after it, the client's buffer holds exactly that line.
\<close>

theorem reply_read_whole:
  assumes "delivers cs (l @ [LF])" "LF \<notin> set l" "length l + 1 < n"
  shows "read_reply n (cs @ rest) [] = (l @ [LF], False)"
  using read_reply_line [OF assms(1), of "[]" l n rest] assms(2,3) by simp

theorem reply_read_whole_witness:
  "read_reply 8 [K_data ''ab'', K_data (''c'' @ [LF]), K_err] [] = (''abc'' @ [LF], False)"
  using reply_read_whole [of "[K_data ''ab'', K_data (''c'' @ [LF])]" "''abc''" 8 "[K_err]"] by simp

text \<open>
  What the client prints is what the plugin sees. The client asks with the documented
  request line; if the plugin's answer to it comes back over the connection, in any pieces,
  the text is exactly the screen of the shadow.
\<close>

theorem console_over_socket:
  assumes "svga (pq st) = Some s" "vga_wf s" "\<forall>c \<in> set (vtext s). 32 \<le> ord c"
    and "qc_protocol_handle malloc (Some console_line) (Some ctx) RESP_MAX env st = Inr (resp, env', st')"
    and "h_conns w = Some c # cs" "c_write c" "c_chunks c = ds @ rest" "delivers ds (resp @ [LF])"
    and "run_state (get_console_text psock TEXT_MAX) w = (txt, w')"
  shows "txt = Some (screen_text (vtext s)) \<and> h_conns w' = cs \<and>
         h_log w' = h_log w @ [E_request (snprintf SUN_PATH psock) (console_line @ [LF])]"
proof -
  have resp: "resp = console_body ''shadow'' (write_count s) 2024 (pstats st) (escaped (console_text s))"
    and fits: "fits resp"
    using emit_console_eq [OF assms(1,2), of "''shadow''"] assms(1,4) by (auto simp: handle_console_line)
  have plain: "plain resp" "length resp + 1 < RESP_MAX" using fits by (simp_all add: fits_def)
  have "read_reply RESP_MAX (ds @ rest) [] = (resp @ [LF], False)"
    using read_reply_line [OF assms(8), of "[]" resp RESP_MAX rest] plain plain_no_LF by simp
  moreover have "extract_text (resp @ [LF]) 2033 = Some (screen_text (vtext s))"
    using extract_clean_console(2) [OF _ assms(2,3), of "''shadow''"] by (simp add: resp)
  moreover have "snprintf 4096 (get_console_cmd @ [LF]) = console_line @ [LF]"
    by (simp add: snprintf_def get_console_cmd_def console_line_def)
  ultimately show ?thesis
    using assms(5-7,9) c_str_line [OF plain(1)] by (auto simp: run_get_console_text run_ask)
qed

theorem console_over_socket_witness:
  "\<exists>resp st'. qc_protocol_handle slot_malloc (Some console_line) (Some all_on) RESP_MAX [] fresh_st =
      Inr (resp, [], st') \<and>
    fst (run_state (get_console_text ''/tmp/s'' TEXT_MAX)
      (bare_host\<lparr>h_conns := [Some \<lparr>c_time = 3, c_write = True, c_chunks = [K_data resp, K_data [LF]]\<rparr>]\<rparr>)) =
    Some (screen_text (replicate VGA_TEXT SP))"
proof -
  have s: "svga (pq fresh_st) = Some qc_vga_init" "vga_wf qc_vga_init"
    "\<forall>c \<in> set (vtext qc_vga_init). 32 \<le> ord c"
    using vga_wf_init by (auto simp: fresh_st_def qc_vga_init_def)
  obtain resp st' where h: "qc_protocol_handle slot_malloc (Some console_line) (Some all_on) RESP_MAX [] fresh_st =
      Inr (resp, [], st')" and "fits resp"
    using emit_console_eq [OF s(1,2), of "''shadow''"] s(1) by (auto simp: handle_console_line)
  then have "resp \<noteq> []" by (simp add: fits_def)
  then show ?thesis
    using console_over_socket [OF s h, of _ _ _ "[K_data resp, K_data [LF]]" "[]", OF _ _ _ _ prod.collapse [symmetric]] h
    by (fastforce simp: qc_vga_init_def)
qed

text \<open>
  C14: The waits succeed exactly when they should. \<open>wait_expect\<close> returns 0 if and only if one
  of the replies to the requests that start before its deadline shows the text (the
  requests follow each other with 100 ms in between), and -1 otherwise; \<open>cmd_expect\<close>
  likewise returns 0 or 1, and refuses an empty text with 2.
\<close>

theorem wait_expect_exact:
  "(fst (run_state (wait_expect psock needle timeout_ms) w) =
     (if \<exists>k < length (h_conns w). shows_needle session_text needle (h_conns w ! k) \<and>
           start_of (h_conns w) k < timeout_ms then 0 else - 1)) \<and>
   (fst (run_state (cmd_expect psock (Some needle) timeout_ms) w) =
     (if needle = [] then 2
      else if \<exists>k < length (h_conns w). shows_needle main_text needle (h_conns w ! k) \<and>
           start_of (h_conns w) k < timeout_ms then 0 else 1))"
  by (simp only: wait_expect_poll cmd_expect_poll session_view.poll_iff main_view.poll_iff)



end
