(* ===== verification/Paths.thy ===== *)
theory Paths
  imports Host
begin

text \<open>
  cli/paths.c: where the plugin, the guest's ISO and its disk are found. The settings come
  from the environment and from files of \<open>KEY=VALUE\<close> lines that fill in what the environment
  does not set; the results are statics, computed once.

  Main results: a settings file is a finite map laid under the environment, its first line
  for a key deciding; the process environment always wins; the documented priorities of the
  guest's paths hold.
\<close>

abbreviation (input) PATH_MAX :: nat where "PATH_MAX \<equiv> 4096"
abbreviation SQ :: char where "SQ \<equiv> CHR 0x27"

section \<open>File tests\<close>

definition is_file :: "host \<Rightarrow> string option \<Rightarrow> bool" where
  "is_file w p = (case p of None \<Rightarrow> False | Some s \<Rightarrow> s \<noteq> [] \<and> h_files w s \<noteq> None)"

definition is_dir :: "host \<Rightarrow> string option \<Rightarrow> bool" where
  "is_dir w p = (case p of None \<Rightarrow> False | Some s \<Rightarrow> s \<noteq> [] \<and> h_dirs w s)"

section \<open>Paths\<close>

text \<open>The part before the last slash; a slash at the start is kept.\<close>

definition dirname_into :: "string \<Rightarrow> nat \<Rightarrow> string" where
  "dirname_into path n =
     (let out = snprintf n path;
          r = dropWhile (\<lambda>c. c \<noteq> CHR ''/'') (rev out)
      in if r = [] then snprintf n ''.''
         else if tl r = [] then take 1 out
         else rev (tl r))"

definition resolve_exe_dir :: "(host, unit) state" where
  "resolve_exe_dir = do {
     exe \<leftarrow> asks h_exe;
     let dir = (case exe of
                  Some p \<Rightarrow> if p \<noteq> [] then dirname_into (take (PATH_MAX - 1) p) PATH_MAX
                            else snprintf PATH_MAX ''.''
                | None \<Rightarrow> snprintf PATH_MAX ''.'');
     change (\<lambda>w. w\<lparr>h_paths := (h_paths w)\<lparr>g_exe_dir := dir\<rparr>\<rparr>) }"

definition set_path :: "host \<Rightarrow> nat \<Rightarrow> string \<Rightarrow> string" where
  "set_path w n src = snprintf n (case h_real w src of Some r \<Rightarrow> r | None \<Rightarrow> src)"

section \<open>Settings files\<close>

text \<open>What the successive calls of \<open>fgets\<close> with a buffer of \<open>n + 1\<close> bytes read.\<close>

fun fgets_all :: "nat \<Rightarrow> nat \<Rightarrow> string \<Rightarrow> string \<Rightarrow> string list" where
  "fgets_all n room [] acc = (if acc = [] then [] else [acc])"
| "fgets_all n room (c # s) acc =
     (if c = LF then (acc @ [c]) # fgets_all n n s []
      else if room \<le> 1 then (acc @ [c]) # fgets_all n n s []
      else fgets_all n (room - 1) s (acc @ [c]))"

definition blank :: "char \<Rightarrow> bool" where
  "blank c \<longleftrightarrow> c = SP \<or> c = TAB"

definition trim_end :: "(char \<Rightarrow> bool) \<Rightarrow> string \<Rightarrow> string" where
  "trim_end P s = rev (dropWhile P (rev s))"

definition known_keys :: "string list" where
  "known_keys =
     [''QEMU_CONNECT_ROOT'', ''QEMU_CONNECT_HOME'', ''QEMU_CONNECT_GUEST'', ''QEMU_CONNECT_ISO'',
      ''QEMU_CONNECT_DISK'', ''QEMU_CONNECT_PLUGIN'', ''QEMU_CONNECT_CLI'', ''QEMU_CONNECT_PROMPT'']"

definition unquote :: "string \<Rightarrow> string" where
  "unquote v =
     (if v \<noteq> [] \<and> (hd v = DQ \<or> hd v = SQ) \<and> 1 < length v \<and> last v = hd v
      then butlast (tl v) else v)"

text \<open>The setting of one line, if it is one of a known key.\<close>

definition env_line :: "string \<Rightarrow> (string \<times> string) option" where
  "env_line line =
     (let p = dropWhile blank (c_str line) in
      if p = [] \<or> hd p = CHR ''#'' \<or> hd p = LF then None
      else
        (let p = (if prefix ''export '' p then dropWhile blank (drop 7 p) else p) in
         case strchr p (CHR ''='') of
           None \<Rightarrow> None
         | Some eq \<Rightarrow>
             (let key = trim_end blank (takeWhile (\<lambda>c. c \<noteq> CHR ''='') p);
                  val = unquote (trim_end (\<lambda>c. c = LF \<or> c = CR) (tl eq))
              in if key = [] then None
                 else if key \<notin> set known_keys then None
                 else Some (key, val))))"

text \<open>\<open>setenv(key, val, 0)\<close> leaves a variable that is set as it is.\<close>

definition setenv_0 :: "string \<Rightarrow> string \<Rightarrow> (string \<rightharpoonup> string) \<Rightarrow> (string \<rightharpoonup> string)" where
  "setenv_0 key val e = (if e key = None then e(key \<mapsto> val) else e)"

fun env_lines :: "string list \<Rightarrow> (string \<rightharpoonup> string) \<Rightarrow> (string \<rightharpoonup> string)" where
  "env_lines [] e = e"
| "env_lines (l # ls) e =
     (case env_line l of
        None \<Rightarrow> env_lines ls e
      | Some (key, val) \<Rightarrow>
          env_lines ls (if e key = None \<or> e key = Some [] then setenv_0 key val e else e))"

definition load_env_file :: "string option \<Rightarrow> (host, unit) state" where
  "load_env_file path = do {
     w \<leftarrow> State_Monad.get;
     if \<not> is_file w path then give ()
     else change (\<lambda>w. w\<lparr>h_env :=
            env_lines (fgets_all (PATH_MAX + 127) (PATH_MAX + 127) (the (h_files w (the path))) []) (h_env w)\<rparr>) }"

definition load_local_configs :: "string option \<Rightarrow> (host, unit) state" where
  "load_local_configs root = do {
     home \<leftarrow> getenv ''HOME'';
     (case root of
        Some r \<Rightarrow> if r \<noteq> [] then load_env_file (Some (snprintf PATH_MAX (r @ ''/.qemu-connect.local'')))
                  else give ()
      | None \<Rightarrow> give ());
     (case home of
        Some h \<Rightarrow> if h \<noteq> [] then load_env_file (Some (snprintf PATH_MAX (h @ ''/.config/qemu-connect/env'')))
                  else give ()
      | None \<Rightarrow> give ()) }"

section \<open>Initialisation\<close>

text \<open>The first choice of the tool's root, from the environment, the layout or the directory.\<close>

definition first_root :: "host \<Rightarrow> string" where
  "first_root w =
     (let env_root = h_env w ''QEMU_CONNECT_ROOT'';
          env_home = h_env w ''QEMU_CONNECT_HOME'';
          exe = g_exe_dir (h_paths w)
      in if is_dir w env_root then set_path w PATH_MAX (the env_root)
         else if is_dir w env_home then set_path w PATH_MAX (the env_home)
         else
           (let cand = snprintf PATH_MAX (exe @ ''/../share/qemu-connect'') in
            if is_dir w (Some cand) then set_path w PATH_MAX cand
            else if is_file w (Some ''build/qemu-connect'') \<or> is_file w (Some ''Makefile'')
            then (case h_cwd w of Some cwd \<Rightarrow> set_path w PATH_MAX cwd | None \<Rightarrow> snprintf PATH_MAX ''.'')
            else snprintf PATH_MAX (exe @ ''/..'')))"

definition find_plugin :: "host \<Rightarrow> string" where
  "find_plugin w =
     (let env_plugin = h_env w ''QEMU_CONNECT_PLUGIN'';
          root = g_root (h_paths w);
          c1 = snprintf PATH_MAX (g_exe_dir (h_paths w) @ ''/../lib/qemu-connect/libqemu-connect.so'');
          c2 = snprintf PATH_MAX (root @ ''/libqemu-connect.so'');
          c3 = snprintf PATH_MAX (root @ ''/build/libqemu-connect.so'')
      in if is_file w env_plugin then set_path w PATH_MAX (the env_plugin)
         else if is_file w (Some c1) then set_path w PATH_MAX c1
         else if is_file w (Some c3) then set_path w PATH_MAX c3
         else if is_file w (Some c2) then set_path w PATH_MAX c2
         else if is_file w (Some ''build/libqemu-connect.so'')
         then snprintf PATH_MAX ''build/libqemu-connect.so''
         else c3)"

text \<open>
  The ISO and the disk: \<open>var\<close> is the variable, \<open>tail\<close> the file's name below the guest's
  build directory.
\<close>

definition find_image :: "host \<Rightarrow> string \<Rightarrow> string \<Rightarrow> string" where
  "find_image w var tail =
     (let env_var = h_env w var;
          guest = g_guest (h_paths w)
      in if env_var \<noteq> None \<and> env_var \<noteq> Some [] then set_path w PATH_MAX (the env_var)
         else if guest \<noteq> [] then set_path w PATH_MAX (snprintf PATH_MAX (guest @ ''/build/'' @ tail))
         else
           (let bundled = snprintf PATH_MAX (g_root (h_paths w) @ ''/test/guest/build/'' @ tail);
                local = ''test/guest/build/'' @ tail
            in if is_file w (Some bundled) then set_path w PATH_MAX bundled
               else if is_file w (Some local) then snprintf PATH_MAX local
               else set_path w PATH_MAX bundled))"

definition init_paths :: "(host, unit) state" where
  "init_paths = do {
     done0 \<leftarrow> asks (\<lambda>w. g_init (h_paths w));
     if done0 then give ()
     else do {
       change (\<lambda>w. w\<lparr>h_paths := (h_paths w)\<lparr>g_init := True\<rparr>\<rparr>);
       resolve_exe_dir;
       change (\<lambda>w. w\<lparr>h_paths := (h_paths w)\<lparr>g_root := first_root w\<rparr>\<rparr>);
       root \<leftarrow> asks (\<lambda>w. g_root (h_paths w));
       load_local_configs (Some root);
       change (\<lambda>w. if is_dir w (h_env w ''QEMU_CONNECT_ROOT'')
                   then w\<lparr>h_paths := (h_paths w)\<lparr>g_root :=
                            set_path w PATH_MAX (the (h_env w ''QEMU_CONNECT_ROOT''))\<rparr>\<rparr>
                   else w);
       change (\<lambda>w. w\<lparr>h_paths := (h_paths w)\<lparr>g_guest :=
                 (if is_dir w (h_env w ''QEMU_CONNECT_GUEST'')
                  then set_path w PATH_MAX (the (h_env w ''QEMU_CONNECT_GUEST'')) else [])\<rparr>\<rparr>);
       change (\<lambda>w. w\<lparr>h_paths := (h_paths w)\<lparr>g_plugin := find_plugin w\<rparr>\<rparr>);
       change (\<lambda>w. w\<lparr>h_paths := (h_paths w)\<lparr>g_iso := find_image w ''QEMU_CONNECT_ISO'' ''kernel.iso''\<rparr>\<rparr>);
       change (\<lambda>w. w\<lparr>h_paths := (h_paths w)\<lparr>g_disk := find_image w ''QEMU_CONNECT_DISK'' ''disk.img''\<rparr>\<rparr>)
     } }"

definition qc_install_root :: "(host, string) state" where
  "qc_install_root = do { init_paths; asks (\<lambda>w. g_root (h_paths w)) }"

definition qc_default_plugin :: "(host, string) state" where
  "qc_default_plugin = do { init_paths; asks (\<lambda>w. g_plugin (h_paths w)) }"

definition qc_default_iso :: "(host, string) state" where
  "qc_default_iso = do { init_paths; asks (\<lambda>w. g_iso (h_paths w)) }"

definition qc_default_disk :: "(host, string) state" where
  "qc_default_disk = do { init_paths; asks (\<lambda>w. g_disk (h_paths w)) }"

section \<open>A settings file as a map\<close>

text \<open>What a settings file says: the first line that sets a key decides.\<close>

definition settings :: "host \<Rightarrow> string option \<Rightarrow> (string \<rightharpoonup> string)" where
  "settings w path =
     (if is_file w path
      then map_of (List.map_filter env_line
             (fgets_all (PATH_MAX + 127) (PATH_MAX + 127) (the (h_files w (the path))) []))
      else Map.empty)"

text \<open>The settings below the root come before those of the user's home.\<close>

definition local_settings :: "host \<Rightarrow> string \<Rightarrow> (string \<rightharpoonup> string)" where
  "local_settings w root =
     (case h_env w ''HOME'' of
        Some h \<Rightarrow> if h \<noteq> [] then settings w (Some (snprintf PATH_MAX (h @ ''/.config/qemu-connect/env'')))
                  else Map.empty
      | None \<Rightarrow> Map.empty) ++
     (if root \<noteq> [] then settings w (Some (snprintf PATH_MAX (root @ ''/.qemu-connect.local'')))
      else Map.empty)"

lemma file_tests [simp]:
  "is_file (w\<lparr>h_paths := p\<rparr>) = is_file w" "is_dir (w\<lparr>h_paths := p\<rparr>) = is_dir w"
  "is_file (w\<lparr>h_env := e\<rparr>) = is_file w" "is_dir (w\<lparr>h_env := e\<rparr>) = is_dir w"
  "set_path (w\<lparr>h_paths := p\<rparr>) = set_path w" "set_path (w\<lparr>h_env := e\<rparr>) = set_path w"
  by (simp_all add: is_file_def [abs_def] is_dir_def [abs_def] set_path_def [abs_def] cong: option.case_cong)

lemma env_lines_eq: "env_lines ls e = map_of (List.map_filter env_line ls) ++ e"
proof (induction ls arbitrary: e)
  case Nil
  then show ?case by (simp add: List.map_filter_simps)
next
  case (Cons l ls)
  let ?m = "map_of (List.map_filter env_line ls)"
  show ?case
  proof (cases "env_line l")
    case None
    with Cons show ?thesis by (simp add: List.map_filter_simps)
  next
    case (Some kv)
    obtain k v where kv: "kv = (k, v)" by (cases kv)
    have env: "env_lines (l # ls) e = ?m ++ (if e k = None then e(k \<mapsto> v) else e)"
      using Some kv Cons.IH by (simp add: setenv_0_def)
    have settings: "map_of (List.map_filter env_line (l # ls)) = ?m(k \<mapsto> v)"
      using Some kv by (simp add: List.map_filter_simps)
    show ?thesis
      unfolding env settings by (rule ext) (auto simp: map_add_def split: option.split)
  qed
qed

lemma run_load_env_file:
  "run_state (load_env_file path) w = ((), w\<lparr>h_env := settings w path ++ h_env w\<rparr>)"
  by (simp add: load_env_file_def settings_def env_lines_eq)

lemma settings_world [simp]:
  "settings (w\<lparr>h_env := e\<rparr>) path = settings w path"
  "settings (w\<lparr>h_paths := p\<rparr>) path = settings w path"
  by (simp_all add: settings_def)

lemma local_settings_paths [simp]: "local_settings (w\<lparr>h_paths := p\<rparr>) root = local_settings w root"
  by (simp add: local_settings_def split: option.split)

lemma run_load_local_configs:
  "run_state (load_local_configs (Some root)) w = ((), w\<lparr>h_env := local_settings w root ++ h_env w\<rparr>)"
  by (auto simp: load_local_configs_def getenv_def run_load_env_file local_settings_def
      split: option.split)

lemma env_line_known: "env_line l = Some (k, v) \<Longrightarrow> k \<in> set known_keys"
  by (auto simp: env_line_def Let_def split: if_splits option.splits)

lemma map_filter_known: "(k, v) \<in> set (List.map_filter env_line ls) \<Longrightarrow> k \<in> set known_keys"
  using env_line_known by (induction ls) (auto simp: List.map_filter_simps split: option.splits)

lemma settings_known: "settings w path k = Some v \<Longrightarrow> k \<in> set known_keys"
  by (auto simp: settings_def dest!: map_of_SomeD map_filter_known split: if_splits)

lemma local_settings_known: "local_settings w root k = Some v \<Longrightarrow> k \<in> set known_keys"
  by (auto simp: local_settings_def map_add_Some_iff split: option.splits if_splits dest: settings_known)

text \<open>Lines as they are written in a settings file.\<close>

lemma trim_end_append: "v \<noteq> [] \<Longrightarrow> \<not> P (last v) \<Longrightarrow> \<forall>c \<in> set u. P c \<Longrightarrow> trim_end P (v @ u) = v"
  by (cases v rule: rev_cases) (auto simp: trim_end_def dropWhile_append)

lemma trim_end_Nil: "\<forall>c \<in> set u. P c \<Longrightarrow> trim_end P u = []"
  by (simp add: trim_end_def)

lemma known_key_chars:
  assumes "k \<in> set known_keys"
  shows "k \<noteq> []" "\<forall>c \<in> set k. c \<noteq> CHR ''='' \<and> c \<noteq> NUL \<and> c \<noteq> SP \<and> c \<noteq> TAB \<and> c \<noteq> LF \<and> c \<noteq> CHR ''#''"
    and "\<not> prefix ''export '' (k @ r)"
  using assms by (auto simp: known_keys_def)

lemma c_str_append: "NUL \<notin> set s \<Longrightarrow> c_str (s @ t) = s @ c_str t"
  by (induction s) (auto simp: c_str_def)

lemma env_line_setting:
  assumes "k \<in> set known_keys" "NUL \<notin> set v" "v = [] \<or> last v \<noteq> CR \<and> last v \<noteq> LF"
    and "pre = [] \<or> pre = ''export ''"
  shows "env_line (pre @ k @ ''='' @ v @ [LF]) = Some (k, unquote v)"
proof -
  note k = known_key_chars [OF assms(1)]
  have nonul: "c_str (k @ ''='' @ v @ [LF]) = k @ ''='' @ v @ [LF]"
    using k(2) assms(2) by (auto simp: c_str_def takeWhile_eq_all_conv)
  have nb: "dropWhile blank (k @ r) = k @ r" for r
    using k(1,2) by (cases k) (auto simp: blank_def)
  have key: "takeWhile (\<lambda>c. c \<noteq> CHR ''='') (k @ ''='' @ v @ [LF]) = k"
    using k(2) by (induction k) auto
  have eq: "strchr (k @ ''='' @ v @ [LF]) (CHR ''='') = Some (''='' @ v @ [LF])"
  proof -
    have "dropWhile (\<lambda>c. c \<noteq> CHR ''='') (k @ ''='' @ v @ [LF]) = ''='' @ v @ [LF]"
      using k(2) by (induction k) auto
    then show ?thesis by (simp add: strchr_def)
  qed
  have tk: "trim_end blank k = k"
    using k(1,2) trim_end_append [of k blank "[]"] by (auto simp: blank_def)
  have tv: "trim_end (\<lambda>c. c = LF \<or> c = CR) (v @ [LF]) = v"
    using assms(3) trim_end_append [of v "\<lambda>c. c = LF \<or> c = CR" "[LF]"]
    by (cases "v = []") (auto simp: trim_end_def)
  have start: "k @ ''='' @ v @ [LF] \<noteq> []" "hd (k @ ''='' @ v @ [LF]) \<noteq> CHR ''#''"
    "hd (k @ ''='' @ v @ [LF]) \<noteq> LF"
    using k(1,2) by (cases k; auto)+
  show ?thesis
    using assms(4)
  proof
    assume "pre = []"
    then show ?thesis
      using nonul nb key eq tk tv start k(1) k(3) assms(1)
      by (simp add: env_line_def Let_def)
  next
    assume pre: "pre = ''export ''"
    have "c_str (pre @ k @ ''='' @ v @ [LF]) = pre @ k @ ''='' @ v @ [LF]"
      using nonul pre by (simp add: c_str_def)
    then show ?thesis
      using pre nb key eq tk tv start k(1) assms(1)
      by (simp add: env_line_def Let_def blank_def)
  qed
qed

section \<open>Initialisation once\<close>

definition exe_dir :: "host \<Rightarrow> string" where
  "exe_dir w = g_exe_dir (h_paths (snd (run_state resolve_exe_dir w)))"

text \<open>The root that is found before the settings files are read.\<close>

definition start_root :: "host \<Rightarrow> string" where
  "start_root w = first_root (snd (run_state resolve_exe_dir
                     (w\<lparr>h_paths := (h_paths w)\<lparr>g_init := True\<rparr>\<rparr>)))"

lemma init_paths_done: "g_init (h_paths w) \<Longrightarrow> run_state init_paths w = ((), w)"
  by (simp add: init_paths_def)

lemma init_paths_env:
  assumes "\<not> g_init (h_paths w)"
  shows "h_env (snd (run_state init_paths w)) = local_settings w (start_root w) ++ h_env w"
  using assms
  by (simp add: init_paths_def start_root_def resolve_exe_dir_def run_load_local_configs Let_def)

lemma find_image_env:
  "find_image (w\<lparr>h_env := env, h_paths := p\<rparr>) var tail =
     (if env var \<noteq> None \<and> env var \<noteq> Some [] then set_path w PATH_MAX (the (env var))
      else if g_guest p \<noteq> []
      then set_path w PATH_MAX (snprintf PATH_MAX (g_guest p @ ''/build/'' @ tail))
      else find_image (w\<lparr>h_env := Map.empty, h_paths := p\<rparr>) var tail)"
  by (auto simp: find_image_def Let_def)

text \<open>What the initialisation leaves: each path from the ones before it.\<close>

lemma run_init_paths:
  assumes "\<not> g_init (h_paths w)" "env = local_settings w (start_root w) ++ h_env w"
    and "root = (if is_dir w (env ''QEMU_CONNECT_ROOT'')
                 then set_path w PATH_MAX (the (env ''QEMU_CONNECT_ROOT'')) else start_root w)"
    and "guest = (if is_dir w (env ''QEMU_CONNECT_GUEST'')
                  then set_path w PATH_MAX (the (env ''QEMU_CONNECT_GUEST'')) else [])"
  obtains p q where "g_init p" "g_root q = root" "g_guest q = guest"
    "run_state init_paths w = ((), w\<lparr>h_env := env, h_paths := p\<rparr>)"
    "g_iso p = find_image (w\<lparr>h_env := env, h_paths := q\<rparr>) ''QEMU_CONNECT_ISO'' ''kernel.iso''"
proof -
  obtain r w1 where w1: "run_state resolve_exe_dir (w\<lparr>h_paths := (h_paths w)\<lparr>g_init := True\<rparr>\<rparr>) = (r, w1)"
    by (rule prod.exhaust)
  then obtain e where e: "w1 = w\<lparr>h_paths := (h_paths w)\<lparr>g_init := True, g_exe_dir := e\<rparr>\<rparr>"
    by (auto simp: resolve_exe_dir_def Let_def)
  have start: "first_root (w\<lparr>h_paths := (h_paths w)\<lparr>g_init := True, g_exe_dir := e\<rparr>\<rparr>) = start_root w"
    using w1 e by (simp add: start_root_def)
  let ?q = "(h_paths w)\<lparr>g_init := True, g_exe_dir := e, g_root := root, g_guest := guest\<rparr>"
  obtain pl where pl: "find_plugin (w\<lparr>h_env := env, h_paths := ?q\<rparr>) = pl" by simp
  obtain iso where iso: "find_image (w\<lparr>h_env := env, h_paths := ?q\<lparr>g_plugin := pl\<rparr>\<rparr>)
      ''QEMU_CONNECT_ISO'' ''kernel.iso'' = iso" by simp
  obtain disk where disk: "find_image (w\<lparr>h_env := env, h_paths := ?q\<lparr>g_plugin := pl, g_iso := iso\<rparr>\<rparr>)
      ''QEMU_CONNECT_DISK'' ''disk.img'' = disk" by simp
  have env: "run_state (load_local_configs (Some (start_root w)))
      (w\<lparr>h_paths := (h_paths w)\<lparr>g_init := True, g_exe_dir := e, g_root := start_root w\<rparr>\<rparr>) =
      ((), w\<lparr>h_paths := (h_paths w)\<lparr>g_init := True, g_exe_dir := e, g_root := start_root w\<rparr>, h_env := env\<rparr>)"
    using assms(2) by (simp add: run_load_local_configs)
  let ?p = "?q\<lparr>g_plugin := pl, g_iso := iso, g_disk := disk\<rparr>"
  have rt: "is_dir w (env ''QEMU_CONNECT_ROOT'') \<Longrightarrow> set_path w PATH_MAX (the (env ''QEMU_CONNECT_ROOT'')) = root"
    "\<not> is_dir w (env ''QEMU_CONNECT_ROOT'') \<Longrightarrow> start_root w = root"
    "is_dir w (env ''QEMU_CONNECT_GUEST'') \<Longrightarrow> set_path w PATH_MAX (the (env ''QEMU_CONNECT_GUEST'')) = guest"
    "\<not> is_dir w (env ''QEMU_CONNECT_GUEST'') \<Longrightarrow> guest = []"
    using assms(3,4) by simp_all
  have "run_state init_paths w = ((), w\<lparr>h_env := env, h_paths := ?p\<rparr>)"
  proof (cases "is_dir w (env ''QEMU_CONNECT_ROOT'')"; cases "is_dir w (env ''QEMU_CONNECT_GUEST'')")
  qed (use rt assms(1) w1 start env pl iso disk in \<open>simp_all add: init_paths_def e\<close>)
  then show thesis by (intro that [of ?p "?q\<lparr>g_plugin := pl\<rparr>"]) (simp_all add: iso)
qed

section \<open>Properties\<close>

text \<open>
  A line \<open>KEY=VALUE\<close> of a settings file, with or without \<open>export\<close> in front, sets a known
  key to its value without the quotes around it: what a user writes is what the
  environment gets.
\<close>

theorem setting_line_read:
  assumes "k \<in> set known_keys" "NUL \<notin> set v" "v = [] \<or> last v \<noteq> CR \<and> last v \<noteq> LF"
    and "pre = [] \<or> pre = ''export ''"
  shows "env_line (pre @ k @ ''='' @ v @ [LF]) = Some (k, unquote v)"
  using assms by (rule env_line_setting)

theorem setting_line_read_witness:
  "env_line (''export QEMU_CONNECT_ISO='' @ [DQ] @ ''/a b/k.iso'' @ [DQ, LF]) =
     Some (''QEMU_CONNECT_ISO'', ''/a b/k.iso'')"
  using setting_line_read [of "''QEMU_CONNECT_ISO''" "DQ # ''/a b/k.iso'' @ [DQ]" "''export ''"]
  by (simp add: known_keys_def unquote_def)

text \<open>
  C22: Reading the settings files lays one finite map under the environment: a variable of
  the process always wins, the file below the root wins over the one in the home, within a
  file the first line wins, and nothing but the known keys is ever set.
\<close>

theorem settings_layered:
  "run_state (load_local_configs (Some root)) w =
     ((), w\<lparr>h_env := local_settings w root ++ h_env w\<rparr>) \<and>
   dom (local_settings w root) \<subseteq> set known_keys"
  using run_load_local_configs local_settings_known by fastforce



end
