(* ===== verification/Session.thy ===== *)
theory Session
  imports Client Paths
begin

text \<open>
  cli/session.c, the first part: the session record, its file, the lock, the JSON result line.
  A session file is written with \<open>fprintf\<close> and read back with two small field readers.

  Main results: what is saved is loaded again when the texts have no quote or backslash and
  fit; a loaded session always fits its arrays.
\<close>

section \<open>The record\<close>

record qc_session =
  s_id :: string
  s_pid :: int
  s_plugin_sock :: string
  s_qmp_sock :: string
  s_logpath :: string
  s_iso :: string
  s_disk :: string
  s_prompt :: string
  s_last_expect :: string

definition blank_session :: qc_session where
  "blank_session = \<lparr>s_id = [], s_pid = 0, s_plugin_sock = [], s_qmp_sock = [], s_logpath = [],
                    s_iso = [], s_disk = [], s_prompt = [], s_last_expect = []\<rparr>"

section \<open>Results\<close>

text \<open>\<open>exit_code\<close> is the value that the command returns; a negative duration is left out.\<close>

definition print_result ::
  "bool \<Rightarrow> int \<Rightarrow> string option \<Rightarrow> string option \<Rightarrow> string option \<Rightarrow> string option \<Rightarrow> int \<Rightarrow> (host, unit) state" where
  \<open>print_result ok exit_code session_id op console error duration_ms =
     print (''{"ok":'' @ json_bool ok @ '',"exit_code":'' @ dec_int exit_code @
       (case session_id of None \<Rightarrow> [] | Some _ \<Rightarrow> '',"session_id":'' @ json_escape_print session_id) @
       (case op of None \<Rightarrow> [] | Some _ \<Rightarrow> '',"op":'' @ json_escape_print op) @
       (if 0 \<le> duration_ms then '',"duration_ms":'' @ dec_int duration_ms else []) @
       (if error \<noteq> None \<and> error \<noteq> Some [] then '',"error":'' @ json_escape_print error else []) @
       (case console of None \<Rightarrow> [] | Some _ \<Rightarrow> '',"console":'' @ json_escape_print console) @
       ''}'' @ [LF])\<close>

section \<open>Paths\<close>

definition runtime_dir :: "host \<Rightarrow> string" where
  "runtime_dir w =
     (let r = h_env w ''XDG_RUNTIME_DIR''; t = h_env w ''TMPDIR'' in
      if r \<noteq> None \<and> r \<noteq> Some [] then the r
      else if t \<noteq> None \<and> t \<noteq> Some [] then the t
      else ''/tmp'')"

definition session_dir :: "host \<Rightarrow> nat \<Rightarrow> string" where
  "session_dir w n = snprintf n (runtime_dir w @ ''/qemu-connect-sessions'')"

definition session_path :: "host \<Rightarrow> string \<Rightarrow> nat \<Rightarrow> string" where
  "session_path w i n = snprintf n (session_dir w 256 @ ''/'' @ i @ ''.json'')"

definition default_shell_prompt :: "(host, string) state" where
  "default_shell_prompt = do {
     _ \<leftarrow> qc_default_iso;
     p \<leftarrow> getenv ''QEMU_CONNECT_PROMPT'';
     give (if p \<noteq> None \<and> p \<noteq> Some [] then the p else ''$'') }"

definition session_prompt :: "qc_session \<Rightarrow> (host, string) state" where
  "session_prompt s = (if s_prompt s \<noteq> [] then give (s_prompt s) else default_shell_prompt)"

section \<open>The lock\<close>

text \<open>
  The path of the lock file stands for the descriptor; None is the return value -1. The
  call blocks while another process holds the lock.
\<close>

definition session_lock_acquire :: "string \<Rightarrow> (host, string option) state" where
  "session_lock_acquire i = do {
     path \<leftarrow> asks (\<lambda>w. snprintf 320 (runtime_dir w @ ''/qemu-connect-sess-'' @ i @ ''.lock''));
     ok \<leftarrow> asks (\<lambda>w. h_lockable w path);
     if ok then do { log_event (E_lock path); give (Some path) } else give None }"

definition session_lock_release :: "string \<Rightarrow> (host, unit) state" where
  "session_lock_release fd = log_event (E_unlock fd)"

definition pid_alive :: "int \<Rightarrow> (host, bool) state" where
  "pid_alive pid = asks (\<lambda>w. alive w pid)"

section \<open>The session file\<close>

definition session_text_of :: "qc_session \<Rightarrow> string" where
  \<open>session_text_of s =
     ''{'' @ [LF] @
     ''  "id": "'' @ s_id s @ ''",'' @ [LF] @
     ''  "pid": '' @ dec_int (s_pid s) @ '','' @ [LF] @
     ''  "plugin_sock": "'' @ s_plugin_sock s @ ''",'' @ [LF] @
     ''  "qmp_sock": "'' @ s_qmp_sock s @ ''",'' @ [LF] @
     ''  "log": "'' @ s_logpath s @ ''",'' @ [LF] @
     ''  "iso": "'' @ s_iso s @ ''",'' @ [LF] @
     ''  "disk": "'' @ s_disk s @ ''",'' @ [LF] @
     ''  "prompt": "'' @ (if s_prompt s \<noteq> [] then s_prompt s else ''$'') @ ''",'' @ [LF] @
     ''  "last_expect": "'' @ s_last_expect s @ ''"'' @ [LF] @
     ''}'' @ [LF]\<close>

definition save_session :: "qc_session \<Rightarrow> (host, int) state" where
  "save_session s = do {
     dir \<leftarrow> asks (\<lambda>w. session_dir w 256);
     mkdir dir;
     path \<leftarrow> asks (\<lambda>w. session_path w (s_id s) 320);
     ok \<leftarrow> write_file path (session_text_of s);
     give (if ok then 0 else - 1) }"

definition note_last_expect :: "qc_session \<Rightarrow> string \<Rightarrow> (host, qc_session) state" where
  "note_last_expect s needle = do {
     let s = s\<lparr>s_last_expect := snprintf 128 needle\<rparr>;
     _ \<leftarrow> save_session s;
     give s }"

text \<open>The copying loop of \<open>json_get_string\<close>.\<close>

function get_loop :: "nat \<Rightarrow> string \<Rightarrow> string \<Rightarrow> string" where
  "get_loop out_len p acc =
     (if p = [] \<or> hd p = DQ \<or> out_len \<le> length acc + 1 then acc
      else if hd p = BS \<and> tl p \<noteq> [] then get_loop out_len (tl (tl p)) (acc @ [hd (tl p)])
      else get_loop out_len (tl p) (acc @ [hd p]))"
  by pat_completeness auto
termination
  by (relation "measure (\<lambda>(n, p, acc). length p)") (auto simp: neq_Nil_conv)

declare get_loop.simps [simp del]

definition json_get_string :: "string \<Rightarrow> string \<Rightarrow> nat \<Rightarrow> string option" where
  "json_get_string json key out_len =
     (let pat1 = snprintf 80 (quoted key @ '': '' @ [DQ]);
          pat2 = snprintf 80 (quoted key @ '':'' @ [DQ])
      in case strstr json pat1 of
           Some p \<Rightarrow> Some (get_loop out_len (drop (length pat1) p) [])
         | None \<Rightarrow>
             (case strstr json pat2 of
                Some p \<Rightarrow> Some (get_loop out_len (drop (length pat2) p) [])
              | None \<Rightarrow> None))"

definition json_get_int :: "string \<Rightarrow> string \<Rightarrow> int option" where
  "json_get_int json key =
     (let pat = snprintf 64 (quoted key @ '':'') in
      case strstr json pat of
        None \<Rightarrow> None
      | Some p \<Rightarrow>
          (let p = dropWhile (\<lambda>c. c = SP) (drop (length pat) p) in
           if takeWhile (is_digit 10) (snd (sign_of (dropWhile is_space p))) = [] then None
           else Some (strtol10 p)))"

text \<open>An optional field: the array keeps its zero when the field is missing.\<close>

definition field_or_empty :: "string option \<Rightarrow> string" where
  "field_or_empty r = (case r of None \<Rightarrow> [] | Some s \<Rightarrow> s)"

text \<open>None is the return value -1. The pid is cut to a 32-bit \<open>pid_t\<close>.\<close>

definition load_session :: "string \<Rightarrow> (host, qc_session option) state" where
  "load_session i = do {
     path \<leftarrow> asks (\<lambda>w. session_path w i 320);
     f \<leftarrow> asks (\<lambda>w. h_files w path);
     (case f of
        None \<Rightarrow> give None
      | Some content \<Rightarrow> do {
          let buf = c_str (take 4095 content);
          (case (json_get_int buf ''pid'', json_get_string buf ''plugin_sock'' 256,
                 json_get_string buf ''qmp_sock'' 256) of
             (Some pid, Some psock, Some qsock) \<Rightarrow> do {
               let s = \<lparr>s_id = snprintf 64 i, s_pid = sint (word_of_int pid :: u32),
                        s_plugin_sock = psock, s_qmp_sock = qsock,
                        s_logpath = field_or_empty (json_get_string buf ''log'' 256),
                        s_iso = field_or_empty (json_get_string buf ''iso'' 512),
                        s_disk = field_or_empty (json_get_string buf ''disk'' 512),
                        s_prompt = field_or_empty (json_get_string buf ''prompt'' 64),
                        s_last_expect = field_or_empty (json_get_string buf ''last_expect'' 128)\<rparr>;
               s \<leftarrow> (if s_prompt s = [] then do {
                       p \<leftarrow> default_shell_prompt;
                       give (s\<lparr>s_prompt := snprintf 64 p\<rparr>) }
                     else give s);
               give (Some s) }
           | _ \<Rightarrow> give None) }) }"

definition remove_session_file :: "string \<Rightarrow> (host, unit) state" where
  "remove_session_file i = do {
     path \<leftarrow> asks (\<lambda>w. session_path w i 320);
     unlink path }"

section \<open>Fields of a JSON text\<close>

definition colon :: char where "colon = CHR '':''"

text \<open>One field of the file: its key, the text of its value, what ends the line.\<close>

definition seg :: "string \<Rightarrow> string \<Rightarrow> string \<Rightarrow> string" where
  "seg k v e = [SP, SP] @ quoted k @ [colon, SP] @ v @ e"

lemma prefix_to_quote:
  "DQ \<notin> set a \<Longrightarrow> DQ \<notin> set b \<Longrightarrow> prefix (a @ DQ # x) (b @ DQ # y) \<longleftrightarrow> a = b \<and> prefix x y"
proof (induction a arbitrary: b)
  case Nil
  then show ?case by (cases b) auto
next
  case (Cons c a)
  then show ?case by (cases b) auto
qed

lemma strstr_to_quote:
  "DQ \<notin> set u \<Longrightarrow> strstr (u @ r) (quoted key @ t) = strstr r (quoted key @ t)"
  by (rule strstr_skip) (auto simp: quoted_def)

text \<open>A quote that does not start the key is passed.\<close>

lemma strstr_quote_miss:
  assumes "DQ \<notin> set key" "DQ \<notin> set v" "key \<noteq> v \<or> c \<noteq> colon" "key \<noteq> []" "hd key \<noteq> c" "c \<noteq> DQ"
  shows "strstr (quoted v @ c # r) (quoted key @ colon # t) = strstr r (quoted key @ colon # t)"
proof -
  have no: "\<not> prefix (quoted key @ colon # t) (quoted v @ c # r)"
    using assms by (auto simp: quoted_def prefix_to_quote)
  have no': "\<not> prefix (quoted key @ colon # t) (DQ # c # r)"
    using assms(4,5) by (cases key) (auto simp: quoted_def)
  have "strstr (quoted v @ c # r) (quoted key @ colon # t) =
      strstr (v @ DQ # c # r) (quoted key @ colon # t)"
    using no by (simp add: quoted_def)
  also have "\<dots> = strstr (DQ # c # r) (quoted key @ colon # t)"
    using assms(2) by (rule strstr_to_quote)
  also have "\<dots> = strstr (c # r) (quoted key @ colon # t)" using no' by simp
  also have "\<dots> = strstr r (quoted key @ colon # t)"
    using strstr_to_quote [of "[c]" r key "colon # t"] assms(6) by simp
  finally show ?thesis .
qed

definition key_ok :: "string \<Rightarrow> bool" where
  "key_ok key \<longleftrightarrow> key \<noteq> [] \<and> DQ \<notin> set key \<and> hd key \<notin> {colon, CHR '','', LF}"

lemma strstr_seg_key:
  assumes "key_ok key" "DQ \<notin> set k" "k \<noteq> key"
  shows "strstr (seg k v e @ r) (quoted key @ colon # t) = strstr (v @ e @ r) (quoted key @ colon # t)"
proof -
  have "strstr (seg k v e @ r) (quoted key @ colon # t) =
      strstr (quoted k @ colon # SP # v @ e @ r) (quoted key @ colon # t)"
    using strstr_to_quote [of "[SP, SP]" _ key "colon # t"] by (simp add: seg_def)
  also have "\<dots> = strstr (SP # v @ e @ r) (quoted key @ colon # t)"
    using assms by (intro strstr_quote_miss) (auto simp: key_ok_def colon_def)
  also have "\<dots> = strstr (v @ e @ r) (quoted key @ colon # t)"
    using strstr_to_quote [of "[SP]" _ key "colon # t"] by simp
  finally show ?thesis .
qed

text \<open>The search passes a field with another key, whatever its value is.\<close>

lemma strstr_seg_skip:
  assumes "key_ok key" "DQ \<notin> set k" "k \<noteq> key" "c = CHR '','' \<or> c = LF" "DQ \<notin> set e"
    and "v = quoted u \<and> DQ \<notin> set u \<or> DQ \<notin> set v"
  shows "strstr (seg k v (c # e) @ r) (quoted key @ colon # t) = strstr r (quoted key @ colon # t)"
proof -
  have c: "c \<noteq> DQ" "hd key \<noteq> c" "c \<noteq> colon" using assms(1,4) by (auto simp: key_ok_def colon_def)
  have "strstr (v @ (c # e) @ r) (quoted key @ colon # t) = strstr (e @ r) (quoted key @ colon # t)"
    using assms(6)
  proof
    assume "v = quoted u \<and> DQ \<notin> set u"
    then show ?thesis using strstr_quote_miss [of key u c "e @ r" t] c assms(1) by (simp add: key_ok_def)
  next
    assume "DQ \<notin> set v"
    then show ?thesis using strstr_to_quote [of "v @ [c]" "e @ r" key "colon # t"] c by simp
  qed
  then show ?thesis
    using strstr_seg_key [OF assms(1-3)] strstr_to_quote [OF assms(5)] by simp
qed

lemma strstr_seg_found:
  assumes "v = t @ v'"
  shows "strstr (seg key v e @ r) (quoted key @ colon # SP # t) = Some (quoted key @ colon # SP # v @ e @ r)"
    and "strstr (seg key v e @ r) (quoted key @ [colon]) = Some (quoted key @ colon # SP # v @ e @ r)"
  using strstr_to_quote [of "[SP, SP]" _ key "colon # SP # t"]
    strstr_to_quote [of "[SP, SP]" _ key "[colon]"] assms
  by (simp_all add: seg_def strstr_prefix)

lemma get_loop_quote: "get_loop n (DQ # r) acc = acc"
  by (subst get_loop.simps) simp

lemma get_loop_copy:
  "DQ \<noteq> c \<Longrightarrow> BS \<noteq> c \<Longrightarrow> length acc + 1 < n \<Longrightarrow> get_loop n (c # r) acc = get_loop n r (acc @ [c])"
  by (subst get_loop.simps) simp

lemma get_loop_value:
  "DQ \<notin> set v \<Longrightarrow> BS \<notin> set v \<Longrightarrow> length acc + length v < n \<Longrightarrow> get_loop n (v @ DQ # r) acc = acc @ v"
  by (induction v arbitrary: acc) (simp_all add: get_loop_quote get_loop_copy)

lemma get_loop_length: "0 < n \<Longrightarrow> length acc < n \<Longrightarrow> length (get_loop n p acc) < n"
  by (induction n p acc rule: get_loop.induct) (subst get_loop.simps, auto)

lemma json_get_string_length: "0 < n \<Longrightarrow> json_get_string json key n = Some v \<Longrightarrow> length v < n"
  by (auto simp: json_get_string_def Let_def get_loop_length split: option.splits)

section \<open>Sessions that fit\<close>

text \<open>What the arrays and the \<open>pid_t\<close> of the C structure can hold.\<close>

definition session_wf :: "qc_session \<Rightarrow> bool" where
  "session_wf s \<longleftrightarrow>
     length (s_id s) < 64 \<and> - (2 ^ 31) \<le> s_pid s \<and> s_pid s < 2 ^ 31 \<and>
     length (s_plugin_sock s) < 256 \<and> length (s_qmp_sock s) < 256 \<and> length (s_logpath s) < 256 \<and>
     length (s_iso s) < 512 \<and> length (s_disk s) < 512 \<and>
     length (s_prompt s) < 64 \<and> length (s_last_expect s) < 128"

lemma snprintf_less: "0 < n \<Longrightarrow> length (snprintf n s) < n"
  by (simp add: snprintf_def)

lemma field_or_empty_less: "0 < n \<Longrightarrow> length (field_or_empty (json_get_string json key n)) < n"
  using json_get_string_length by (auto simp: field_or_empty_def split: option.split)

lemma load_session_wf:
  assumes "run_state (load_session i) w = (Some s, w')"
  shows "session_wf s"
proof -
  have "- (2 ^ 31) \<le> sint (word_of_int p :: u32)" "sint (word_of_int p :: u32) < 2 ^ 31" for p
    using sint_range_size [of "word_of_int p :: u32"] by (simp_all add: word_size)
  then show ?thesis
    using assms json_get_string_length [of 256] snprintf_less [of 64] field_or_empty_less
    by (auto simp: load_session_def session_wf_def Let_def split: option.splits prod.splits if_splits)
qed

section \<open>What is saved is loaded\<close>

definition clean_text :: "string \<Rightarrow> bool" where
  "clean_text v \<longleftrightarrow> DQ \<notin> set v \<and> BS \<notin> set v \<and> NUL \<notin> set v"

definition clean_session :: "qc_session \<Rightarrow> bool" where
  "clean_session s \<longleftrightarrow> 0 \<le> s_pid s \<and> s_prompt s \<noteq> [] \<and>
     (\<forall>v \<in> {s_id s, s_plugin_sock s, s_qmp_sock s, s_logpath s, s_iso s, s_disk s, s_prompt s, s_last_expect s}.
        clean_text v)"

abbreviation (input) sep :: string where "sep \<equiv> [CHR '','', LF]"

lemma session_text_segs:
  assumes "s_prompt s \<noteq> []"
  shows "session_text_of s = [CHR ''{'', LF] @
    seg ''id'' (quoted (s_id s)) sep @
    seg ''pid'' (dec_int (s_pid s)) sep @
    seg ''plugin_sock'' (quoted (s_plugin_sock s)) sep @
    seg ''qmp_sock'' (quoted (s_qmp_sock s)) sep @
    seg ''log'' (quoted (s_logpath s)) sep @
    seg ''iso'' (quoted (s_iso s)) sep @
    seg ''disk'' (quoted (s_disk s)) sep @
    seg ''prompt'' (quoted (s_prompt s)) sep @
    seg ''last_expect'' (quoted (s_last_expect s)) [LF, CHR ''}'', LF]"
  using assms by (simp add: session_text_of_def seg_def quoted_def colon_def)

lemma strstr_open:
  "strstr (CHR ''{'' # LF # r) (quoted key @ t) = strstr r (quoted key @ t)"
  using strstr_to_quote [of "[CHR ''{'', LF]"] by simp

lemma skip_text:
  "key_ok key \<Longrightarrow> DQ \<notin> set k \<Longrightarrow> k \<noteq> key \<Longrightarrow> clean_text u \<Longrightarrow>
     strstr (seg k (quoted u) sep @ r) (quoted key @ colon # t) = strstr r (quoted key @ colon # t)"
  by (rule strstr_seg_skip) (auto simp: clean_text_def)

lemma skip_num:
  "key_ok key \<Longrightarrow> DQ \<notin> set k \<Longrightarrow> k \<noteq> key \<Longrightarrow>
     strstr (seg k (dec_int p) sep @ r) (quoted key @ colon # t) = strstr r (quoted key @ colon # t)"
  using dec_is_digit DQ_no_digit by (intro strstr_seg_skip [where u = "[]"]) (auto simp: dec_int_def)

lemma key_pats:
  "length key < 70 \<Longrightarrow> snprintf 80 (quoted key @ '': '' @ [DQ]) = quoted key @ colon # SP # [DQ]"
  by (simp add: snprintf_def quoted_def colon_def)

lemma get_text:
  assumes "strstr json (quoted key @ colon # SP # [DQ]) = strstr (seg key (quoted v) e @ r) (quoted key @ colon # SP # [DQ])"
    and "length key < 70" "clean_text v" "length v < n"
  shows "json_get_string json key n = Some v"
proof -
  have "strstr json (quoted key @ colon # SP # [DQ]) = Some (quoted key @ colon # SP # quoted v @ e @ r)"
    using strstr_seg_found(1) [of "quoted v" "[DQ]" "v @ [DQ]" key e r] assms(1) by (simp add: quoted_def)
  moreover have "get_loop n (v @ DQ # e @ r) [] = v"
    using get_loop_value [of v "[]" n "e @ r"] assms(3,4) by (simp add: clean_text_def)
  ultimately show ?thesis
    unfolding json_get_string_def Let_def key_pats [OF assms(2)] by (simp add: quoted_def)
qed

lemma key_ok_keys:
  "key_ok ''pid''" "key_ok ''plugin_sock''" "key_ok ''qmp_sock''" "key_ok ''log''" "key_ok ''iso''"
  "key_ok ''disk''" "key_ok ''prompt''" "key_ok ''last_expect''"
  by (simp_all add: key_ok_def colon_def)

lemmas find_field = session_text_segs strstr_open skip_text skip_num key_ok_keys

lemma saved_texts:
  assumes "clean_session s" "session_wf s"
  shows "json_get_string (session_text_of s) ''plugin_sock'' 256 = Some (s_plugin_sock s)"
    and "json_get_string (session_text_of s) ''qmp_sock'' 256 = Some (s_qmp_sock s)"
    and "json_get_string (session_text_of s) ''log'' 256 = Some (s_logpath s)"
    and "json_get_string (session_text_of s) ''iso'' 512 = Some (s_iso s)"
    and "json_get_string (session_text_of s) ''disk'' 512 = Some (s_disk s)"
    and "json_get_string (session_text_of s) ''prompt'' 64 = Some (s_prompt s)"
proof -
  have c: "clean_text (s_id s)" "clean_text (s_plugin_sock s)" "clean_text (s_qmp_sock s)"
    "clean_text (s_logpath s)" "clean_text (s_iso s)" "clean_text (s_disk s)" "clean_text (s_prompt s)"
    "s_prompt s \<noteq> []"
    using assms(1) by (simp_all add: clean_session_def)
  note wf = assms(2) [unfolded session_wf_def]
  show "json_get_string (session_text_of s) ''plugin_sock'' 256 = Some (s_plugin_sock s)"
    "json_get_string (session_text_of s) ''qmp_sock'' 256 = Some (s_qmp_sock s)"
    "json_get_string (session_text_of s) ''log'' 256 = Some (s_logpath s)"
    "json_get_string (session_text_of s) ''iso'' 512 = Some (s_iso s)"
    "json_get_string (session_text_of s) ''disk'' 512 = Some (s_disk s)"
    "json_get_string (session_text_of s) ''prompt'' 64 = Some (s_prompt s)"
    by (rule get_text; use c wf in \<open>simp add: find_field del: strstr.simps\<close>)+
qed

lemma saved_last_expect:
  assumes "clean_session s" "session_wf s"
  shows "json_get_string (session_text_of s) ''last_expect'' 128 = Some (s_last_expect s)"
  using assms
  by (intro get_text [where e = "[LF, CHR ''}'', LF]" and r = "[]"])
     (simp_all add: find_field clean_session_def session_wf_def del: strstr.simps)

lemma strtol10_dec:
  assumes "n < 2 ^ 31"
  shows "strtol10 (dec n @ CHR '','' # r) = int n"
    and "takeWhile (is_digit 10) (snd (sign_of (dropWhile is_space (dec n @ CHR '','' # r)))) = dec n"
proof -
  have hd: "is_digit 10 (hd (dec n))" using dec_is_digit [OF hd_in_set] by simp
  have sp: "dropWhile is_space (dec n @ CHR '','' # r) = dec n @ CHR '','' # r"
    using is_space_digit [OF hd] by (cases "dec n") auto
  have sg: "sign_of (dec n @ CHR '','' # r) = (False, dec n @ CHR '','' # r)"
    using hd sign_of_digit [of "dec n @ CHR '','' # r"] by simp
  have tw: "takeWhile (is_digit 10) (dec n @ CHR '','' # r) = dec n"
    using dec_is_digit by (simp add: takeWhile_digits is_digit_def digit_val_def)
  show "strtol10 (dec n @ CHR '','' # r) = int n"
    using assms by (simp add: strtol10_def dec_value sp sg tw)
  show "takeWhile (is_digit 10) (snd (sign_of (dropWhile is_space (dec n @ CHR '','' # r)))) = dec n"
    by (simp add: sp sg tw)
qed

lemma saved_pid:
  assumes "clean_session s" "session_wf s"
  shows "json_get_int (session_text_of s) ''pid'' = Some (s_pid s)"
proof -
  obtain n where n: "s_pid s = int n" using assms(1) by (auto simp: clean_session_def elim: nonneg_int_cases)
  have small: "n < 2 ^ 31" using assms(2) n by (simp add: session_wf_def)
  obtain r where "strstr (session_text_of s) (quoted ''pid'' @ [colon]) =
      strstr (seg ''pid'' (dec_int (s_pid s)) sep @ r) (quoted ''pid'' @ [colon])"
    using assms(1) by (simp add: find_field clean_session_def del: strstr.simps)
  then have "strstr (session_text_of s) (quoted ''pid'' @ [colon]) =
      Some (quoted ''pid'' @ colon # SP # dec_int (s_pid s) @ sep @ r)"
    using strstr_seg_found(2) [of "dec_int (s_pid s)" "[]" _ "''pid''" sep r] by simp
  moreover have "snprintf 64 (quoted ''pid'' @ '':'') = quoted ''pid'' @ [colon]"
    by (simp add: snprintf_def quoted_def colon_def)
  moreover have "dropWhile (\<lambda>c. c = SP) (dec n @ CHR '','' # LF # r) = dec n @ CHR '','' # LF # r"
    using dec_is_digit [OF hd_in_set, of n] by (cases "dec n") (auto simp: is_digit_def digit_val_def)
  ultimately show ?thesis
    unfolding json_get_int_def Let_def using strtol10_dec [OF small] n
    by (simp add: dec_int_def quoted_def)
qed

lemma session_text_reads:
  assumes "clean_session s" "session_wf s"
  shows "c_str (take 4095 (session_text_of s)) = session_text_of s"
proof -
  have "NUL \<notin> set (dec_int (s_pid s))" using plain_no_NUL plain_dec_int by blast
  then have "NUL \<notin> set (session_text_of s)"
    using assms(1) by (auto simp: session_text_of_def clean_session_def clean_text_def)
  moreover have "length (dec_int (s_pid s)) \<le> 11"
    using assms(2) by (intro dec_int_length) (simp_all add: session_wf_def)
  then have "length (session_text_of s) \<le> 4095"
    using assms(2) by (simp add: session_text_of_def session_wf_def)
  ultimately show ?thesis by (simp add: c_str_def takeWhile_not_idem)
qed

text \<open>The paths depend on the environment only.\<close>

lemma runtime_dir_frame [simp]:
  "runtime_dir (w\<lparr>h_clock := x0\<rparr>) = runtime_dir w"
  "runtime_dir (w\<lparr>h_paths := x1\<rparr>) = runtime_dir w"
  "runtime_dir (w\<lparr>h_dirs := x2\<rparr>) = runtime_dir w"
  "runtime_dir (w\<lparr>h_files := x3\<rparr>) = runtime_dir w"
  "runtime_dir (w\<lparr>h_socks := x4\<rparr>) = runtime_dir w"
  "runtime_dir (w\<lparr>h_procs := x5\<rparr>) = runtime_dir w"
  "runtime_dir (w\<lparr>h_conns := x6\<rparr>) = runtime_dir w"
  "runtime_dir (w\<lparr>h_forks := x7\<rparr>) = runtime_dir w"
  "runtime_dir (w\<lparr>h_qmps := x8\<rparr>) = runtime_dir w"
  "runtime_dir (w\<lparr>h_out := x9\<rparr>) = runtime_dir w"
  "runtime_dir (w\<lparr>h_log := x10\<rparr>) = runtime_dir w"
  "runtime_dir (w\<lparr>h_hung := x11\<rparr>) = runtime_dir w"
  "runtime_dir (w\<lparr>h_ub := x12\<rparr>) = runtime_dir w"
  by (simp_all add: runtime_dir_def)

lemma session_path_frame:
  "h_env w' = h_env w \<Longrightarrow> session_path w' = session_path w"
  by (rule ext)+ (simp add: session_path_def session_dir_def runtime_dir_def)

text \<open>The file of a session, in any world that has it.\<close>

definition session_on_disk :: "qc_session \<Rightarrow> host \<Rightarrow> bool" where
  "session_on_disk s w \<longleftrightarrow> h_files w (session_path w (s_id s) 320) = Some (session_text_of s)"

lemma load_on_disk:
  assumes "clean_session s" "session_wf s" "session_on_disk s w"
  shows "run_state (load_session (s_id s)) w = (Some s, w)"
proof -
  have p: "sint (word_of_int (s_pid s) :: u32) = s_pid s"
    using assms(1,2) unfolding int_word_sint by (simp add: clean_session_def session_wf_def)
  have "s_prompt s \<noteq> []" using assms(1) by (simp add: clean_session_def)
  then show ?thesis
    using assms(3) assms(2) p saved_texts [OF assms(1,2)] saved_last_expect [OF assms(1,2)]
      saved_pid [OF assms(1,2)] session_text_reads [OF assms(1,2)]
    by (simp add: load_session_def session_on_disk_def field_or_empty_def snprintf_def session_wf_def Let_def)
qed

lemma save_on_disk:
  assumes "run_state (save_session s) w = (0, w')"
  shows "session_on_disk s w'"
  using assms
  by (auto simp: save_session_def mkdir_def write_file_def session_on_disk_def session_path_def session_dir_def
      split: if_splits)

lemma save_files:
  assumes "run_state (save_session s) w = (r, w')"
  shows "\<forall>p. p \<noteq> session_path w (s_id s) 320 \<longrightarrow> h_files w' p = h_files w p" "h_env w' = h_env w"
  using assms
  by (auto simp: save_session_def mkdir_def write_file_def session_path_def session_dir_def split: if_splits)

text \<open>A session that the examples use.\<close>

definition demo_session :: qc_session where
  "demo_session = \<lparr>s_id = ''default'', s_pid = 4242, s_plugin_sock = ''/tmp/p.sock'', s_qmp_sock = ''/tmp/q.qmp'',
     s_logpath = ''/tmp/l.log'', s_iso = ''/k.iso'', s_disk = ''/d.img'', s_prompt = ''$'', s_last_expect = ''$''\<rparr>"

lemma demo_session_ok: "clean_session demo_session" "session_wf demo_session"
  by (simp_all add: demo_session_def clean_session_def clean_text_def session_wf_def)

section \<open>Properties\<close>

text \<open>
  C15: What \<open>save_session\<close> writes, \<open>load_session\<close> reads back: every field of the record, when
  the record fits its arrays and its texts have no quote, backslash or NUL. Loading changes
  nothing.
\<close>

theorem session_round_trip:
  assumes "clean_session s" "session_wf s" "run_state (save_session s) w = (0, w')"
  shows "run_state (load_session (s_id s)) w' = (Some s, w')"
  using load_on_disk [OF assms(1,2) save_on_disk [OF assms(3)]] .

theorem session_round_trip_witness:
  "fst (run_state (do { _ \<leftarrow> save_session demo_session; load_session ''default'' }) bare_host) = Some demo_session"
proof -
  have "fst (run_state (save_session demo_session) bare_host) = 0"
    by (simp add: save_session_def mkdir_def write_file_def bare_host_def)
  then obtain w' where w': "run_state (save_session demo_session) bare_host = (0, w')"
    by (metis prod.collapse)
  then show ?thesis
    using session_round_trip [OF demo_session_ok w'] by (simp add: demo_session_def)
qed

text \<open>
  C28: Whatever a session file holds (it may be edited or foreign), a loaded session fits the
  arrays and the \<open>pid_t\<close> of the C structure, and its prompt is never empty.
\<close>

theorem loaded_session_fits:
  assumes "run_state (load_session i) w = (Some s, w')"
  shows "session_wf s \<and> s_prompt s \<noteq> []"
proof
  show "session_wf s" using assms by (rule load_session_wf)
  have "p \<noteq> []" if "run_state default_shell_prompt u = (p, u')" for p u u'
    using that by (auto simp: default_shell_prompt_def getenv_def split: prod.splits if_splits)
  then show "s_prompt s \<noteq> []"
    using assms by (fastforce simp: load_session_def Let_def snprintf_def split: option.splits prod.splits if_splits)
qed

theorem loaded_session_fits_witness:
  "\<exists>s w'. run_state (load_session ''default'') (snd (run_state (save_session demo_session) bare_host)) = (Some s, w') \<and>
     session_wf s"
proof -
  let ?w = "snd (run_state (save_session demo_session) bare_host)"
  have "fst (run_state (save_session demo_session) bare_host) = 0"
    by (simp add: save_session_def mkdir_def write_file_def bare_host_def)
  then have "session_on_disk demo_session ?w"
    by (intro save_on_disk [of _ bare_host]) (metis prod.collapse)
  then have "run_state (load_session ''default'') ?w = (Some demo_session, ?w)"
    using load_on_disk [OF demo_session_ok] by (simp add: demo_session_def)
  then show ?thesis using loaded_session_fits by blast
qed

text \<open>
  A session whose name has 64 characters or more is lost: it is saved under the cut name
  of its record, and every later command looks for the full name and finds nothing.
\<close>

theorem long_id_lost:
  assumes "s_id s = snprintf 64 i" "64 \<le> length i" "length (runtime_dir w) \<le> 200"
    and "h_files w (session_path w i 320) = None" "run_state (save_session s) w = (r, w')"
  shows "run_state (load_session i) w' = (None, w')"
proof -
  have "length (session_path w i 320) \<noteq> length (session_path w (s_id s) 320)"
    using assms(1-3) by (simp add: session_path_def session_dir_def snprintf_def)
  then have "session_path w i 320 \<noteq> session_path w (s_id s) 320" by metis
  then have "h_files w' (session_path w i 320) = None"
    using save_files [OF assms(5)] assms(4) by simp
  then show ?thesis
    using session_path_frame [OF save_files(2) [OF assms(5)]] by (simp add: load_session_def)
qed

theorem long_id_lost_witness:
  "fst (run_state (do { _ \<leftarrow> save_session (demo_session\<lparr>s_id := replicate 63 CHR ''x''\<rparr>);
                         load_session (replicate 70 CHR ''x'') }) bare_host) = None"
proof -
  let ?s = "demo_session\<lparr>s_id := replicate 63 CHR ''x''\<rparr>"
  have "run_state (load_session (replicate 70 CHR ''x'')) (snd (run_state (save_session ?s) bare_host)) =
      (None, snd (run_state (save_session ?s) bare_host))"
    by (rule long_id_lost [of ?s _ bare_host, OF _ _ _ _ prod.collapse [symmetric]])
       (simp_all add: snprintf_def bare_host_def runtime_dir_def)
  then show ?thesis by (auto split: prod.split)
qed

end
