(* ===== verification/Session_Cmd.thy ===== *)
theory Session_Cmd
  imports Session
begin

text \<open>
  cli/session.c, the second part: the subcommands of \<open>qemu-connect session\<close>, each from its
  arguments to its result line, and the dispatch. Every command returns its exit code.

  The loops over the arguments differ in their tables only; \<open>scan_args\<close> is the loop, with the
  flags that take a value and the treatment of every other argument as parameters.
\<close>

section \<open>Arguments\<close>

text \<open>The local variables that the arguments set.\<close>

record opts =
  o_id :: string
  o_iso :: string
  o_disk :: string
  o_plugin :: string
  o_prompt :: string
  o_timeout :: int
  o_lines :: int
  o_wait :: bool
  o_line :: string
  o_words :: nat
  o_text :: "string option"
  o_expect :: "string option"
  o_enter :: bool
  o_repeat :: int

definition default_opts :: opts where
  "default_opts = \<lparr>o_id = ''default'', o_iso = [], o_disk = [], o_plugin = [], o_prompt = [],
     o_timeout = 30000, o_lines = 0, o_wait = True, o_line = [], o_words = 0, o_text = None,
     o_expect = None, o_enter = True, o_repeat = 1\<rparr>"

datatype 'o scanned = Go 'o | Help | Bad 'o

fun scan_args :: "(string \<Rightarrow> (string \<Rightarrow> 'o \<Rightarrow> 'o) option) \<Rightarrow> (string \<Rightarrow> 'o \<Rightarrow> 'o scanned) \<Rightarrow>
    'o \<Rightarrow> string list \<Rightarrow> 'o scanned" where
  "scan_args val word r [] = Go r"
| "scan_args val word r [a] =
     (case word a r of Go r \<Rightarrow> Go r | stop \<Rightarrow> stop)"
| "scan_args val word r (a # v # as) =
     (case val a of
        Some f \<Rightarrow> scan_args val word (f v r) as
      | None \<Rightarrow> (case word a r of Go r \<Rightarrow> scan_args val word r (v # as) | stop \<Rightarrow> stop))"

definition is_flag :: "string \<Rightarrow> bool" where
  "is_flag a \<longleftrightarrow> a \<noteq> [] \<and> hd a = CHR ''-''"

definition id_val :: "string \<Rightarrow> (string \<Rightarrow> opts \<Rightarrow> opts) option" where
  "id_val = map_of [(''--id'', \<lambda>v r. r\<lparr>o_id := v\<rparr>)]"

definition start_val :: "string \<Rightarrow> (string \<Rightarrow> opts \<Rightarrow> opts) option" where
  "start_val = map_of
     [(''--id'', \<lambda>v r. r\<lparr>o_id := v\<rparr>), (''--iso'', \<lambda>v r. r\<lparr>o_iso := v\<rparr>),
      (''--disk'', \<lambda>v r. r\<lparr>o_disk := v\<rparr>), (''--plugin'', \<lambda>v r. r\<lparr>o_plugin := v\<rparr>),
      (''--prompt'', \<lambda>v r. r\<lparr>o_prompt := v\<rparr>), (''--timeout'', \<lambda>v r. r\<lparr>o_timeout := atoi v\<rparr>),
      (''--console-lines'', \<lambda>v r. r\<lparr>o_lines := atoi v\<rparr>)]"

definition start_word :: "string \<Rightarrow> opts \<Rightarrow> opts scanned" where
  "start_word a r =
     (if a = ''--no-wait'' then Go (r\<lparr>o_wait := False\<rparr>)
      else if a = ''-h'' \<or> a = ''--help'' then Help
      else Bad r)"

definition cmd_val :: "string \<Rightarrow> (string \<Rightarrow> opts \<Rightarrow> opts) option" where
  "cmd_val = map_of
     [(''--id'', \<lambda>v r. r\<lparr>o_id := v\<rparr>), (''--prompt'', \<lambda>v r. r\<lparr>o_prompt := v\<rparr>),
      (''--timeout'', \<lambda>v r. r\<lparr>o_timeout := atoi v\<rparr>), (''--console-lines'', \<lambda>v r. r\<lparr>o_lines := atoi v\<rparr>)]"

text \<open>The words are joined by blanks in a buffer of 512 bytes.\<close>

definition add_word :: "string \<Rightarrow> string \<Rightarrow> string" where
  "add_word line a = take 511 ((if line \<noteq> [] then take 511 (line @ [SP]) else []) @ a)"

definition cmd_word :: "string \<Rightarrow> opts \<Rightarrow> opts scanned" where
  "cmd_word a r =
     (if a = ''--no-wait'' then Go (r\<lparr>o_wait := False\<rparr>)
      else if is_flag a then Bad r
      else Go (r\<lparr>o_line := add_word (o_line r) a, o_words := o_words r + 1\<rparr>))"

definition type_val :: "string \<Rightarrow> (string \<Rightarrow> opts \<Rightarrow> opts) option" where
  "type_val = map_of
     [(''--id'', \<lambda>v r. r\<lparr>o_id := v\<rparr>), (''--timeout'', \<lambda>v r. r\<lparr>o_timeout := atoi v\<rparr>),
      (''--expect'', \<lambda>v r. r\<lparr>o_expect := Some v\<rparr>), (''--console-lines'', \<lambda>v r. r\<lparr>o_lines := atoi v\<rparr>)]"

definition first_text :: "string \<Rightarrow> opts \<Rightarrow> opts scanned" where
  "first_text a r = Go (if o_text r = None then r\<lparr>o_text := Some a\<rparr> else r)"

definition type_word :: "string \<Rightarrow> opts \<Rightarrow> opts scanned" where
  "type_word a r =
     (if a = ''--no-enter'' then Go (r\<lparr>o_enter := False\<rparr>)
      else if a = ''--enter'' then Go (r\<lparr>o_enter := True\<rparr>)
      else if is_flag a then Bad r
      else first_text a r)"

definition key_val :: "string \<Rightarrow> (string \<Rightarrow> opts \<Rightarrow> opts) option" where
  "key_val = map_of
     [(''--id'', \<lambda>v r. r\<lparr>o_id := v\<rparr>),
      (''--repeat'', \<lambda>v r. r\<lparr>o_repeat :=
         (let n = atoi v; n = (if n < 1 then 1 else n) in if 100 < n then 100 else n)\<rparr>)]"

definition key_word :: "string \<Rightarrow> opts \<Rightarrow> opts scanned" where
  "key_word a r = (if is_flag a then Bad r else first_text a r)"

definition expect_val :: "string \<Rightarrow> (string \<Rightarrow> opts \<Rightarrow> opts) option" where
  "expect_val = map_of
     [(''--id'', \<lambda>v r. r\<lparr>o_id := v\<rparr>), (''--timeout'', \<lambda>v r. r\<lparr>o_timeout := atoi v\<rparr>)]"

definition expect_word :: "string \<Rightarrow> opts \<Rightarrow> opts scanned" where
  "expect_word a r = (if is_flag a then Go r else first_text a r)"

definition console_val :: "string \<Rightarrow> (string \<Rightarrow> opts \<Rightarrow> opts) option" where
  "console_val = map_of
     [(''--id'', \<lambda>v r. r\<lparr>o_id := v\<rparr>), (''--console-lines'', \<lambda>v r. r\<lparr>o_lines := atoi v\<rparr>)]"

definition ignore_word :: "string \<Rightarrow> opts \<Rightarrow> opts scanned" where
  "ignore_word a r = Go r"

text \<open>The loops that ignore what they do not know end without an error.\<close>

definition scan_all :: "(string \<Rightarrow> (string \<Rightarrow> 'o \<Rightarrow> 'o) option) \<Rightarrow> (string \<Rightarrow> 'o \<Rightarrow> 'o scanned) \<Rightarrow>
    'o \<Rightarrow> string list \<Rightarrow> 'o" where
  "scan_all val word r argv = (case scan_args val word r argv of Go r \<Rightarrow> r | Help \<Rightarrow> r | Bad r \<Rightarrow> r)"

section \<open>Shared steps\<close>

definition fail_with :: "int \<Rightarrow> string \<Rightarrow> string \<Rightarrow> string option \<Rightarrow> string \<Rightarrow> int \<Rightarrow> (host, int) state" where
  "fail_with code i op console msg dur = do {
     print_result False code (Some i) (Some op) console (Some msg) dur;
     give code }"

definition since :: "int \<Rightarrow> (host, int) state" where
  "since t0 = do { t \<leftarrow> now_ms; give (t - t0) }"

text \<open>The text that a failed request leaves is the empty one that was there before.\<close>

definition console_now :: "string \<Rightarrow> nat \<Rightarrow> (host, string) state" where
  "console_now psock n = do {
     r \<leftarrow> get_console_text psock n;
     give (case r of None \<Rightarrow> [] | Some t \<Rightarrow> t) }"

definition shown_console :: "int \<Rightarrow> string \<Rightarrow> nat \<Rightarrow> string" where
  "shown_console lines t n = (if 0 < lines then console_tail_nonblank (Some t) n lines else t)"

definition require_session :: "string \<Rightarrow> string \<Rightarrow> (host, qc_session option) state" where
  "require_session i op = do {
     r \<leftarrow> load_session i;
     (case r of
        None \<Rightarrow> do {
          print_result False 3 (Some i) (Some op) None (Some ''no such session'') (- 1);
          give None }
      | Some s \<Rightarrow> do {
          a \<leftarrow> pid_alive (s_pid s);
          if \<not> a then do {
            remove_session_file i;
            print_result False 3 (Some i) (Some op) None (Some ''session QEMU dead'') (- 1);
            give None }
          else give (Some s) }) }"

text \<open>
  Waiting for a process to end, 100 ms at a time and at most \<open>n\<close> times; with \<open>kill_at = Some k\<close>
  it is killed when \<open>k\<close> more turns would be left.
\<close>

fun wait_gone :: "nat option \<Rightarrow> nat \<Rightarrow> int \<Rightarrow> (host, unit) state" where
  "wait_gone kill_at 0 pid = give ()"
| "wait_gone kill_at (Suc k) pid = do {
     a \<leftarrow> pid_alive pid;
     if \<not> a then give ()
     else do {
       (if kill_at = Some k then sigkill pid else give ());
       sleep 100;
       wait_gone kill_at k pid } }"

text \<open>
  The beginning that \<open>cmd\<close>, \<open>type\<close> and \<open>key\<close> share: the lock, then the session. The rest
  gets the start time, the lock and the session, and releases the lock on each of its paths.
\<close>

definition locked_session ::
  "string \<Rightarrow> string \<Rightarrow> (int \<Rightarrow> string \<Rightarrow> qc_session \<Rightarrow> (host, int) state) \<Rightarrow> (host, int) state" where
  "locked_session i op body = do {
     t0 \<leftarrow> now_ms;
     lk \<leftarrow> session_lock_acquire i;
     (case lk of
        None \<Rightarrow> fail_with 1 i op None ''session lock failed'' (- 1)
      | Some lockfd \<Rightarrow> do {
          rs \<leftarrow> require_session i op;
          (case rs of
             None \<Rightarrow> do { session_lock_release lockfd; give 3 }
           | Some s \<Rightarrow> body t0 lockfd s) }) }"

definition fail_locked :: "string \<Rightarrow> int \<Rightarrow> string \<Rightarrow> string \<Rightarrow> int \<Rightarrow> string \<Rightarrow> (host, int) state" where
  "fail_locked lockfd code i op t0 msg = do {
     session_lock_release lockfd;
     dur \<leftarrow> since t0;
     fail_with code i op None msg dur }"

text \<open>The line on the guest's keyboard: 0, or the exit code 4 (no connection) or 1 (not typed).\<close>

definition type_input :: "qc_session \<Rightarrow> string \<Rightarrow> bool \<Rightarrow> (host, int) state" where
  "type_input s line enter = do {
     q \<leftarrow> qmp_open (s_qmp_sock s);
     if q = None then give 4
     else do {
       let (rc, q) = qc_qmp_type_line q (Some line) 15 enter;
       qc_qmp_close (s_qmp_sock s) q;
       give (if rc \<noteq> 0 then 1 else 0) } }"

abbreviation jp :: "string \<Rightarrow> string" where "jp s \<equiv> json_escape_print (Some s)"

section \<open>session cmd\<close>

definition cmd_report :: "string \<Rightarrow> string \<Rightarrow> string \<Rightarrow> bool \<Rightarrow> int \<Rightarrow> string \<Rightarrow> string" where
  \<open>cmd_report i line prompt wait dur console =
     ''{"ok":true,"exit_code":0,"op":"cmd","session_id":'' @ jp i @ '',"cmd":'' @ jp line @
     '',"prompt":'' @ jp prompt @ '',"wait":'' @ json_bool wait @ '',"duration_ms":'' @ dec_int dur @
     '',"console":'' @ jp console @ ''}'' @ [LF]\<close>

definition cmd_body :: "opts \<Rightarrow> int \<Rightarrow> string \<Rightarrow> qc_session \<Rightarrow> (host, int) state" where
  "cmd_body r t0 lockfd s = do {
     let i = o_id r;
     prompt \<leftarrow> (if o_prompt r \<noteq> [] then give (o_prompt r) else session_prompt s);
     rc \<leftarrow> type_input s (o_line r) True;
     if rc = 4 then fail_locked lockfd 4 i ''cmd'' t0 ''qmp connect failed''
     else if rc \<noteq> 0 then fail_locked lockfd 1 i ''cmd'' t0 ''type failed''
     else do {
       sleep 150;
       seen \<leftarrow> (if o_wait r then do {
                 _ \<leftarrow> note_last_expect s prompt;
                 wait_expect (s_plugin_sock s) prompt (o_timeout r) }
               else give 0);
       if seen \<noteq> 0 then do {
         txt \<leftarrow> console_now (s_plugin_sock s) 4096;
         session_lock_release lockfd;
         dur \<leftarrow> since t0;
         fail_with 1 i ''cmd'' (Some (shown_console (o_lines r) txt 4096))
           ''timeout waiting for prompt after cmd'' dur }
       else do {
         txt \<leftarrow> console_now (s_plugin_sock s) TEXT_MAX;
         session_lock_release lockfd;
         dur \<leftarrow> since t0;
         print (cmd_report i (o_line r) prompt (o_wait r) dur (shown_console (o_lines r) txt TEXT_MAX));
         give 0 } } }"

definition session_cmd :: "string list \<Rightarrow> (host, int) state" where
  "session_cmd argv =
     (case scan_args cmd_val cmd_word default_opts argv of
        Help \<Rightarrow> give 2
      | Bad r \<Rightarrow> fail_with 2 (o_id r) ''cmd'' None ''unknown flag'' (- 1)
      | Go r \<Rightarrow>
          if o_words r = 0 then fail_with 2 (o_id r) ''cmd'' None ''missing shell command'' (- 1)
          else locked_session (o_id r) ''cmd'' (cmd_body r))"

section \<open>session type\<close>

definition type_report :: "string \<Rightarrow> string \<Rightarrow> bool \<Rightarrow> string option \<Rightarrow> bool \<Rightarrow> int \<Rightarrow> string \<Rightarrow> string" where
  \<open>type_report i txt enter expect expect_ok dur console =
     ''{"ok":'' @ json_bool expect_ok @ '',"exit_code":'' @ dec_int (if expect_ok then 0 else 1) @
     '',"op":"type","session_id":'' @ jp i @ '',"text":'' @ jp txt @ '',"enter":'' @ json_bool enter @
     (if expect \<noteq> None \<and> expect \<noteq> Some []
      then '',"expect":'' @ json_escape_print expect @ '',"expect_ok":'' @ json_bool expect_ok @
           (if \<not> expect_ok then '',"error":"timeout waiting for expect"'' else [])
      else []) @
     '',"duration_ms":'' @ dec_int dur @ '',"console":'' @ jp console @ ''}'' @ [LF]\<close>

definition type_body :: "opts \<Rightarrow> string \<Rightarrow> int \<Rightarrow> string \<Rightarrow> qc_session \<Rightarrow> (host, int) state" where
  "type_body r txt_in t0 lockfd s = do {
     let i = o_id r;
     rc \<leftarrow> type_input s txt_in (o_enter r);
     if rc = 4 then fail_locked lockfd 4 i ''type'' t0 ''qmp connect failed''
     else if rc \<noteq> 0 then fail_locked lockfd 1 i ''type'' t0 ''type failed''
     else do {
       seen \<leftarrow> (if o_expect r \<noteq> None \<and> o_expect r \<noteq> Some [] then do {
                 sleep 100;
                 _ \<leftarrow> note_last_expect s (the (o_expect r));
                 wait_expect (s_plugin_sock s) (the (o_expect r)) (o_timeout r) }
               else do { sleep 80; give 0 });
       txt \<leftarrow> console_now (s_plugin_sock s) TEXT_MAX;
       session_lock_release lockfd;
       dur \<leftarrow> since t0;
       print (type_report i txt_in (o_enter r) (o_expect r) (seen = 0) dur
         (shown_console (o_lines r) txt TEXT_MAX));
       give (if seen = 0 then 0 else 1) } }"

definition session_type :: "string list \<Rightarrow> (host, int) state" where
  "session_type argv =
     (case scan_args type_val type_word default_opts argv of
        Help \<Rightarrow> give 2
      | Bad r \<Rightarrow> fail_with 2 (o_id r) ''type'' None ''unknown flag'' (- 1)
      | Go r \<Rightarrow>
          (case o_text r of
             None \<Rightarrow> fail_with 2 (o_id r) ''type'' None ''missing text'' (- 1)
           | Some txt \<Rightarrow> locked_session (o_id r) ''type'' (type_body r txt)))"

section \<open>session key\<close>

fun key_loop :: "nat \<Rightarrow> string \<Rightarrow> qc_qmp option \<Rightarrow> (host, int \<times> qc_qmp option) state" where
  "key_loop 0 qcode q = give (0, q)"
| "key_loop (Suc n) qcode q =
     (let (rc, q) = qc_qmp_send_key q (Some qcode) in
      if rc \<noteq> 0 then give (1, q)
      else do { sleep 20; key_loop n qcode q })"

definition key_input :: "qc_session \<Rightarrow> string \<Rightarrow> nat \<Rightarrow> (host, int) state" where
  "key_input s qcode repeat = do {
     q \<leftarrow> qmp_open (s_qmp_sock s);
     if q = None then give 4
     else do {
       (rc, q) \<leftarrow> key_loop repeat qcode q;
       qc_qmp_close (s_qmp_sock s) q;
       give rc } }"

definition key_report :: "string \<Rightarrow> string \<Rightarrow> int \<Rightarrow> int \<Rightarrow> string \<Rightarrow> string" where
  \<open>key_report i qcode repeat dur console =
     ''{"ok":true,"exit_code":0,"op":"key","session_id":'' @ jp i @ '',"qcode":'' @ jp qcode @
     '',"repeat":'' @ dec_int repeat @ '',"duration_ms":'' @ dec_int dur @
     '',"console":'' @ jp console @ ''}'' @ [LF]\<close>

definition key_body :: "opts \<Rightarrow> string \<Rightarrow> int \<Rightarrow> string \<Rightarrow> qc_session \<Rightarrow> (host, int) state" where
  "key_body r qcode t0 lockfd s = do {
     let i = o_id r;
     rc \<leftarrow> key_input s qcode (nat (o_repeat r));
     if rc = 4 then fail_locked lockfd 4 i ''key'' t0 ''qmp connect failed''
     else if rc \<noteq> 0 then fail_locked lockfd 1 i ''key'' t0 ''send-key failed''
     else do {
       sleep 50;
       txt \<leftarrow> console_now (s_plugin_sock s) TEXT_MAX;
       session_lock_release lockfd;
       dur \<leftarrow> since t0;
       print (key_report i qcode (o_repeat r) dur txt);
       give 0 } }"

definition session_key :: "string list \<Rightarrow> (host, int) state" where
  "session_key argv =
     (case scan_args key_val key_word default_opts argv of
        Help \<Rightarrow> give 2
      | Bad r \<Rightarrow> fail_with 2 (o_id r) ''key'' None ''unknown flag'' (- 1)
      | Go r \<Rightarrow>
          if o_text r = None \<or> o_text r = Some []
          then fail_with 2 (o_id r) ''key'' None ''missing qcode'' (- 1)
          else locked_session (o_id r) ''key'' (key_body r (the (o_text r))))"

section \<open>session expect, console, status\<close>

definition session_expect :: "string list \<Rightarrow> (host, int) state" where
  "session_expect argv =
     (let r = scan_all expect_val expect_word (default_opts\<lparr>o_timeout := 60000\<rparr>) argv; i = o_id r in
      case o_text r of
        None \<Rightarrow> fail_with 2 i ''expect'' None ''missing text'' (- 1)
      | Some needle \<Rightarrow> do {
          t0 \<leftarrow> now_ms;
          rs \<leftarrow> require_session i ''expect'';
          (case rs of
             None \<Rightarrow> give 3
           | Some s \<Rightarrow> do {
               seen \<leftarrow> wait_expect (s_plugin_sock s) needle (o_timeout r);
               txt \<leftarrow> console_now (s_plugin_sock s) 4096;
               dur \<leftarrow> since t0;
               if seen \<noteq> 0 then fail_with 1 i ''expect'' (Some txt) ''timeout'' dur
               else do {
                 print_result True 0 (Some i) (Some ''expect'') (Some txt) None dur;
                 give 0 } }) })"

definition session_console :: "string list \<Rightarrow> (host, int) state" where
  "session_console argv =
     (let r = scan_all console_val ignore_word default_opts argv; i = o_id r in do {
        rs \<leftarrow> require_session i ''console'';
        (case rs of
           None \<Rightarrow> give 3
         | Some s \<Rightarrow> do {
             txt \<leftarrow> get_console_text (s_plugin_sock s) TEXT_MAX;
             (case txt of
                None \<Rightarrow> fail_with 4 i ''console'' None ''get_console failed'' (- 1)
              | Some txt \<Rightarrow> do {
                  print_result True 0 (Some i) (Some ''console'')
                    (Some (shown_console (o_lines r) txt TEXT_MAX)) None (- 1);
                  give 0 }) }) })"

definition status_cmd :: string where
  \<open>status_cmd = ''{"cmd":"status"}''\<close>

text \<open>The plugin's answer without its line end; an empty answer is printed as \<open>null\<close>.\<close>

definition guest_status :: "string \<Rightarrow> (host, string) state" where
  "guest_status psock = do {
     raw \<leftarrow> plugin_request psock status_cmd 8192;
     (let guest = (case raw of
                     None \<Rightarrow> ''{}''
                   | Some b \<Rightarrow> trim_end (\<lambda>c. c = LF \<or> c = CR) (snprintf 8192 (c_str b)))
      in give (if guest \<noteq> [] then guest else ''null'')) }"

definition status_report :: "string \<Rightarrow> qc_session \<Rightarrow> string \<Rightarrow> string \<Rightarrow> string" where
  \<open>status_report i s prompt guest =
     ''{"ok":true,"exit_code":0,"op":"status","session_id":'' @ jp i @ '',"pid":'' @ dec_int (s_pid s) @
     '',"alive":true,"prompt":'' @ jp prompt @ '',"last_expect":'' @ jp (s_last_expect s) @
     '',"iso":'' @ jp (s_iso s) @ '',"disk":'' @ jp (s_disk s) @
     '',"plugin_sock":'' @ jp (s_plugin_sock s) @ '',"qmp_sock":'' @ jp (s_qmp_sock s) @
     '',"guest_status":'' @ guest @ ''}'' @ [LF]\<close>

definition session_status :: "string list \<Rightarrow> (host, int) state" where
  "session_status argv =
     (let i = o_id (scan_all id_val ignore_word default_opts argv) in do {
        rs \<leftarrow> require_session i ''status'';
        (case rs of
           None \<Rightarrow> give 3
         | Some s \<Rightarrow> do {
             guest \<leftarrow> guest_status (s_plugin_sock s);
             prompt \<leftarrow> session_prompt s;
             print (status_report i s prompt guest);
             give 0 }) })"

section \<open>session stop\<close>

text \<open>
  Asking QEMU to quit over QMP, or else with \<open>otherwise\<close>. What QEMU does with the request is
  the world's: its exit is in \<open>p_exit\<close>.
\<close>

definition ask_quit :: "qc_session \<Rightarrow> (host, unit) state \<Rightarrow> (host, unit) state" where
  "ask_quit s otherwise = do {
     q \<leftarrow> qmp_open (s_qmp_sock s);
     if q = None then otherwise
     else do {
       let (rc, q) = qc_qmp_quit q;
       qc_qmp_close (s_qmp_sock s) q } }"

definition stop_process :: "qc_session \<Rightarrow> (host, unit) state" where
  "stop_process s = do {
     a \<leftarrow> pid_alive (s_pid s);
     if a then do {
       ask_quit s (sigterm (s_pid s));
       wait_gone (Some 9) 40 (s_pid s);
       waitpid (s_pid s) }
     else give () }"

definition session_stop :: "string list \<Rightarrow> (host, int) state" where
  "session_stop argv =
     (let i = o_id (scan_all id_val ignore_word default_opts argv) in do {
        t0 \<leftarrow> now_ms;
        rs \<leftarrow> load_session i;
        (case rs of
           None \<Rightarrow> do {
             print_result True 0 (Some i) (Some ''stop'') None (Some ''no session (already stopped)'') 0;
             give 0 }
         | Some s \<Rightarrow> do {
             stop_process s;
             unlink (s_plugin_sock s);
             unlink (s_qmp_sock s);
             remove_session_file i;
             dur \<leftarrow> since t0;
             print_result True 0 (Some i) (Some ''stop'') None None dur;
             give 0 }) })"

section \<open>session start\<close>

text \<open>
  The other live session that holds the disk \<open>want\<close>: the names of the directory in turn. The
  name is cut to 64 bytes and its extension then ended at its full length, which is outside
  the array for a name of 69 characters or more.
\<close>

fun disk_holder :: "string \<Rightarrow> string \<Rightarrow> string list \<Rightarrow> (host, qc_session option) state" where
  "disk_holder want i [] = give None"
| "disk_holder want i (name # names) =
     (let n = length name in
      if n < 6 \<or> \<not> suffix ''.json'' name then disk_holder want i names
      else do {
        (if 64 \<le> n - 5 then undefined_at Out_Of_Bounds else give ());
        let oid = take (n - 5) (snprintf 64 name);
        if oid = i then disk_holder want i names
        else do {
          other \<leftarrow> load_session oid;
          (case other of
             None \<Rightarrow> disk_holder want i names
           | Some other \<Rightarrow> do {
               a \<leftarrow> pid_alive (s_pid other);
               if \<not> a \<or> s_disk other = [] then disk_holder want i names
               else do {
                 have \<leftarrow> realpath_or (s_disk other);
                 if have = want then give (Some other) else disk_holder want i names } }) } })"

definition locked_msg :: "qc_session \<Rightarrow> string" where
  "locked_msg other = snprintf 256
     (''disk locked by session '' @ s_id other @ '' (pid '' @ dec_int (s_pid other) @
      ''); stop it: qemu-connect session stop --id '' @ s_id other)"

definition find_disk_holder :: "string \<Rightarrow> string \<Rightarrow> (host, qc_session option) state" where
  "find_disk_holder i disk =
     (if disk = [] then give None
      else do {
        dir \<leftarrow> asks (\<lambda>w. session_dir w 256);
        d \<leftarrow> opendir dir;
        (case d of
           None \<Rightarrow> give None
         | Some names \<Rightarrow> do {
             want \<leftarrow> realpath_or disk;
             disk_holder want i names }) })"

text \<open>A session with the same name is replaced.\<close>

definition replace_old :: "string \<Rightarrow> (host, unit) state" where
  "replace_old i = do {
     old \<leftarrow> load_session i;
     (case old of
        None \<Rightarrow> give ()
      | Some old \<Rightarrow> do {
          a \<leftarrow> pid_alive (s_pid old);
          (if a then do {
             ask_quit old (sigkill (s_pid old));
             wait_gone None 30 (s_pid old);
             still \<leftarrow> pid_alive (s_pid old);
             (if still then sigkill (s_pid old) else give ());
             waitpid (s_pid old) }
           else give ());
          remove_session_file i;
          unlink (s_plugin_sock old);
          unlink (s_qmp_sock old) }) }"

definition qemu_args ::
  "string \<Rightarrow> string \<Rightarrow> nat \<Rightarrow> string \<Rightarrow> string option \<Rightarrow> string \<Rightarrow> string \<Rightarrow> string list" where
  "qemu_args bin mem n cd disk plugin_arg qmp_arg =
     (case disk of
        Some disk \<Rightarrow>
          [bin, ''-display'', ''none'', ''-m'', mem, ''-accel'', ''tcg'',
           ''-drive'', snprintf n (''format=raw,file='' @ disk @ '',if=ide,index=0,media=disk''),
           ''-drive'', snprintf n (''format=raw,file='' @ cd @ '',if=ide,index=1,media=cdrom''),
           ''-boot'', ''order=d'', ''-plugin'', plugin_arg, ''-qmp'', qmp_arg, ''-serial'', ''none'',
           ''-parallel'', ''none'', ''-monitor'', ''none'', ''-nographic'']
      | None \<Rightarrow>
          [bin, ''-display'', ''none'', ''-m'', mem, ''-accel'', ''tcg'',
           ''-cdrom'', cd, ''-boot'', ''order=d'', ''-plugin'', plugin_arg, ''-qmp'', qmp_arg,
           ''-serial'', ''none'', ''-parallel'', ''none'', ''-monitor'', ''none'', ''-nographic''])"

definition qemu_argv :: "string \<Rightarrow> string \<Rightarrow> string \<Rightarrow> string \<Rightarrow> string list" where
  "qemu_argv cd disk plugin_arg qmp_arg =
     qemu_args ''qemu-system-x86_64'' ''512M'' 640 cd (if disk \<noteq> [] then Some disk else None)
       plugin_arg qmp_arg"

text \<open>The record of a new session, without its pid.\<close>

definition new_session :: "string \<Rightarrow> opts \<Rightarrow> qc_session" where
  "new_session rt r =
     \<lparr>s_id = snprintf 64 (o_id r), s_pid = 0,
      s_plugin_sock = snprintf 256 (rt @ ''/qemu-connect-sess-'' @ o_id r @ ''.sock''),
      s_qmp_sock = snprintf 256 (rt @ ''/qemu-connect-sess-'' @ o_id r @ ''.qmp''),
      s_logpath = snprintf 256 (rt @ ''/qemu-connect-sess-'' @ o_id r @ ''.log''),
      s_iso = snprintf 512 (o_iso r), s_disk = snprintf 512 (o_disk r),
      s_prompt = snprintf 64 (o_prompt r), s_last_expect = []\<rparr>"

text \<open>Waiting for the plugin's socket; True: QEMU is gone.\<close>

fun await_plugin :: "nat \<Rightarrow> string \<Rightarrow> int \<Rightarrow> (host, bool) state" where
  "await_plugin 0 psock pid = give False"
| "await_plugin (Suc k) psock pid = do {
     there \<leftarrow> exists_path psock;
     if there then give False
     else do {
       a \<leftarrow> pid_alive pid;
       if \<not> a then give True
       else do { sleep 100; await_plugin k psock pid } } }"

fun await_path :: "nat \<Rightarrow> string \<Rightarrow> (host, unit) state" where
  "await_path 0 p = give ()"
| "await_path (Suc k) p = do {
     there \<leftarrow> exists_path p;
     if there then give () else do { sleep 100; await_path k p } }"

definition start_report :: "string \<Rightarrow> qc_session \<Rightarrow> int \<Rightarrow> string \<Rightarrow> string" where
  \<open>start_report i s dur console =
     ''{"ok":true,"exit_code":0,"op":"start","session_id":'' @ jp i @ '',"pid":'' @ dec_int (s_pid s) @
     '',"iso":'' @ jp (s_iso s) @ '',"disk":'' @ jp (s_disk s) @ '',"prompt":'' @ jp (s_prompt s) @
     '',"plugin_sock":'' @ jp (s_plugin_sock s) @ '',"qmp_sock":'' @ jp (s_qmp_sock s) @
     '',"duration_ms":'' @ dec_int dur @ '',"console":'' @ jp console @ ''}'' @ [LF]\<close>

text \<open>The session file, then the report.\<close>

definition start_finish :: "opts \<Rightarrow> int \<Rightarrow> qc_session \<Rightarrow> (host, int) state" where
  "start_finish r t0 s = do {
     saved \<leftarrow> save_session s;
     if saved \<noteq> 0 then do {
       dur \<leftarrow> since t0;
       fail_with 1 (o_id r) ''start'' None ''failed to write session file'' dur }
     else do {
       txt \<leftarrow> console_now (s_plugin_sock s) TEXT_MAX;
       dur \<leftarrow> since t0;
       print (start_report (o_id r) s dur (shown_console (o_lines r) txt TEXT_MAX));
       give 0 } }"

text \<open>From the plugin's socket on: QMP's socket, the prompt.\<close>

definition start_ready :: "opts \<Rightarrow> int \<Rightarrow> qc_session \<Rightarrow> (host, int) state" where
  "start_ready r t0 s = do {
     await_path 50 (s_qmp_sock s);
     let s = (if o_wait r then s\<lparr>s_last_expect := snprintf 128 (o_prompt r)\<rparr> else s);
     seen \<leftarrow> (if o_wait r then wait_expect (s_plugin_sock s) (o_prompt r) (o_timeout r) else give 0);
     if seen \<noteq> 0 then do {
       txt \<leftarrow> console_now (s_plugin_sock s) 4096;
       _ \<leftarrow> save_session s;
       dur \<leftarrow> since t0;
       fail_with 1 (o_id r) ''start'' (Some (shown_console (o_lines r) txt 4096))
         ''timeout waiting for shell prompt'' dur }
     else start_finish r t0 s }"

text \<open>From the fork on: ten seconds for the plugin's socket.\<close>

definition start_forked :: "opts \<Rightarrow> int \<Rightarrow> qc_session \<Rightarrow> (host, int) state" where
  "start_forked r t0 s = do {
     early \<leftarrow> await_plugin 100 (s_plugin_sock s) (s_pid s);
     if early then do {
       dur \<leftarrow> since t0;
       fail_with 1 (o_id r) ''start'' None ''QEMU exited early'' dur }
     else do {
       there \<leftarrow> exists_path (s_plugin_sock s);
       if \<not> there then do {
         sigkill (s_pid s);
         waitpid (s_pid s);
         dur \<leftarrow> since t0;
         fail_with 4 (o_id r) ''start'' None ''plugin socket missing'' dur }
       else start_ready r t0 s } }"

definition start_boot :: "opts \<Rightarrow> (host, int) state" where
  "start_boot r = do {
     t0 \<leftarrow> now_ms;
     s \<leftarrow> asks (\<lambda>w. new_session (runtime_dir w) r);
     unlink (s_plugin_sock s);
     unlink (s_qmp_sock s);
     pid \<leftarrow> start_qemu (qemu_argv (o_iso r) (o_disk r)
              (snprintf 640 (o_plugin r @ '',socket='' @ s_plugin_sock s))
              (snprintf 320 (''unix:'' @ s_qmp_sock s @ '',server,nowait'')))
            (s_plugin_sock s) (s_qmp_sock s) (s_logpath s);
     if pid < 0 then fail_with 1 (o_id r) ''start'' None ''fork failed'' (- 1)
     else start_forked r t0 (s\<lparr>s_pid := pid\<rparr>) }"

definition start_checked :: "opts \<Rightarrow> (host, int) state" where
  "start_checked r = do {
     let i = o_id r;
     holder \<leftarrow> find_disk_holder i (o_disk r);
     (case holder of
        Some other \<Rightarrow> fail_with 1 i ''start'' None (locked_msg other) (- 1)
      | None \<Rightarrow> do {
          replace_old i;
          iso_ok \<leftarrow> exists_path (o_iso r);
          if \<not> iso_ok then fail_with 1 i ''start'' None ''iso not found'' (- 1)
          else do {
            disk_ok \<leftarrow> (if o_disk r = [] then give True else exists_path (o_disk r));
            if \<not> disk_ok then fail_with 1 i ''start'' None ''disk not found'' (- 1)
            else do {
              plugin_ok \<leftarrow> exists_path (o_plugin r);
              if \<not> plugin_ok then fail_with 1 i ''start'' None ''plugin not found (make plugin)'' (- 1)
              else start_boot r } } }) }"

definition session_start :: "string list \<Rightarrow> (host, int) state" where
  "session_start argv = do {
     iso \<leftarrow> qc_default_iso;
     disk \<leftarrow> qc_default_disk;
     plugin \<leftarrow> qc_default_plugin;
     prompt \<leftarrow> default_shell_prompt;
     (case scan_args start_val start_word
             (default_opts\<lparr>o_iso := iso, o_disk := disk, o_plugin := plugin, o_prompt := prompt,
                           o_timeout := 60000\<rparr>) argv of
        Help \<Rightarrow> give 2
      | Bad r \<Rightarrow> fail_with 2 (o_id r) ''start'' None ''unknown flag'' (- 1)
      | Go r \<Rightarrow> start_checked r) }"

section \<open>The dispatch\<close>

definition subcommands :: "(string \<times> (string list \<Rightarrow> (host, int) state)) list" where
  "subcommands =
     [(''start'', session_start), (''cmd'', session_cmd), (''type'', session_type), (''key'', session_key),
      (''expect'', session_expect), (''console'', session_console), (''status'', session_status),
      (''stop'', session_stop)]"

definition qc_cmd_session :: "string list \<Rightarrow> (host, int) state" where
  "qc_cmd_session argv =
     (case argv of
        [] \<Rightarrow> give 2
      | sub # args \<Rightarrow> (case map_of subcommands sub of Some run \<Rightarrow> run args | None \<Rightarrow> give 2))"

end
