(* ===== verification/Session_Safe.thy ===== *)
theory Session_Safe
  imports Session_Cmd
begin

text \<open>
  What the session commands guarantee. All input to a guest happens under the session's
  lock, and the lock is free again afterwards on every path; every command that gets as far
  as running prints exactly one line of JSON, whose exit code is the one it returns; \<open>stop\<close>
  leaves no process and no file behind and takes four seconds at most.
\<close>

section \<open>What the operations keep\<close>

lemma keeps_init_paths [keeps_intros]:
  assumes "\<And>w p. f (w\<lparr>h_paths := p\<rparr>) = f w" "\<And>w e. f (w\<lparr>h_env := e\<rparr>) = f w"
  shows "keeps f init_paths"
proof (rule keepsI)
  fix w r w' assume run: "run_state init_paths w = (r, w')"
  show "f w' = f w"
  proof (cases "g_init (h_paths w)")
    case True
    then show ?thesis using run by (simp add: init_paths_done)
  next
    case False
    then obtain p env where "w' = w\<lparr>h_env := env, h_paths := p\<rparr>"
      using run_init_paths [OF False refl refl refl] run by (metis prod.inject)
    then show ?thesis using assms by simp
  qed
qed

lemma keeps_case_option [keeps_intros]:
  "keeps f m \<Longrightarrow> (\<And>x. keeps f (n x)) \<Longrightarrow> keeps f (case r of None \<Rightarrow> m | Some x \<Rightarrow> n x)"
  by (cases r) simp_all

lemma keeps_case_prod [keeps_intros]:
  "(\<And>x y. keeps f (n x y)) \<Longrightarrow> keeps f (case r of (x, y) \<Rightarrow> n x y)"
  by (cases r) simp

lemma keeps_Let [keeps_intros]: "(\<And>x. keeps f (n x)) \<Longrightarrow> keeps f (let x = v in n x)"
  by simp

lemma keeps_default_prompt [keeps_intros]:
  assumes "\<And>w p. f (w\<lparr>h_paths := p\<rparr>) = f w" "\<And>w e. f (w\<lparr>h_env := e\<rparr>) = f w"
  shows "keeps f qc_default_iso" "keeps f qc_default_disk" "keeps f qc_default_plugin"
    "keeps f default_shell_prompt" "keeps f (session_prompt s)" "keeps f (load_session i)"
  unfolding qc_default_iso_def qc_default_disk_def qc_default_plugin_def default_shell_prompt_def
    session_prompt_def load_session_def
  by (intro keeps_intros keeps_init_paths assms)+

lemma keeps_requests [keeps_intros]:
  assumes "\<And>w cs. f (w\<lparr>h_conns := cs\<rparr>) = f w" "\<And>w t. f (w\<lparr>h_clock := t\<rparr>) = f w"
    and "\<And>w l. f (w\<lparr>h_log := l\<rparr>) = f w"
  shows "keeps f (plugin_request psock line n)" "keeps f (get_console_text psock n)"
    "keeps f (console_now psock n)" "keeps f (wait_expect psock needle tmo)" "keeps f (guest_status psock)"
proof -
  note ask = keeps_ask [of f, OF assms]
  show req: "keeps f (plugin_request psock line n)" for line n
    unfolding plugin_request_def by (intro keeps_intros ask)
  show con: "keeps f (get_console_text psock n)" for n
    unfolding get_console_text_def by (intro keeps_intros req)
  show "keeps f (console_now psock n)" "keeps f (guest_status psock)"
    unfolding console_now_def guest_status_def by (intro keeps_intros con req)+
  have "does (\<lambda>w. f w = c) (wait_expect psock needle tmo) (\<lambda>_ w. f w = c)" for c
    using keeps_does [OF ask, of "\<lambda>x. x = c"] keeps_does [of f "sleep 100" "\<lambda>x. x = c"] assms(2)
    by (intro does_wait_expect) (simp_all add: keeps_calls)
  then show "keeps f (wait_expect psock needle tmo)"
    by (intro keepsI) (blast dest: doesD)
qed

lemma keeps_save [keeps_intros]:
  assumes "\<And>w ds. f (w\<lparr>h_dirs := ds\<rparr>) = f w" "\<And>w fs. f (w\<lparr>h_files := fs\<rparr>) = f w"
  shows "keeps f (save_session s)" "keeps f (note_last_expect s needle)"
proof -
  show save: "keeps f (save_session s)" for s
    unfolding save_session_def by (intro keeps_intros assms)
  show "keeps f (note_last_expect s needle)"
    unfolding note_last_expect_def by (intro keeps_intros save)
qed

lemma keeps_small [keeps_intros]:
  "keeps f (pid_alive pid)" "keeps f (since t0)"
  "(\<And>w l. f (w\<lparr>h_log := l\<rparr>) = f w) \<Longrightarrow> keeps f (session_lock_acquire i)"
  "(\<And>w l. f (w\<lparr>h_log := l\<rparr>) = f w) \<Longrightarrow> keeps f (session_lock_release fd)"
  "(\<And>w fs ss. f (w\<lparr>h_files := fs, h_socks := ss\<rparr>) = f w) \<Longrightarrow> keeps f (remove_session_file i)"
  unfolding pid_alive_def since_def session_lock_acquire_def session_lock_release_def remove_session_file_def
  by (intro keeps_intros; simp)+

lemma keeps_input [keeps_intros]:
  assumes "\<And>w t. f (w\<lparr>h_clock := t\<rparr>) = f w" "\<And>w l. f (w\<lparr>h_log := l\<rparr>) = f w"
    and "\<And>w qs. f (w\<lparr>h_qmps := qs\<rparr>) = f w"
  shows "keeps f (type_input s line enter)" "keeps f (key_input s qcode n)"
    "keeps f m \<Longrightarrow> keeps f (ask_quit s m)"
proof -
  show "keeps f (type_input s line enter)"
    unfolding type_input_def by (intro keeps_intros assms)
  have "keeps f (key_loop n qcode q)" for q
    by (induction n arbitrary: q) (auto intro!: keeps_intros assms split: prod.split)
  then show "keeps f (key_input s qcode n)"
    unfolding key_input_def by (intro keeps_intros assms)
  show "keeps f m \<Longrightarrow> keeps f (ask_quit s m)"
    unfolding ask_quit_def by (intro keeps_intros assms)
qed

lemma keeps_wait_gone [keeps_intros]:
  assumes "\<And>w t. f (w\<lparr>h_clock := t\<rparr>) = f w" "\<And>w ps. f (w\<lparr>h_procs := ps\<rparr>) = f w"
  shows "keeps f (wait_gone ka n pid)"
  by (induction n) (auto intro!: keeps_intros assms)

lemma keeps_awaits [keeps_intros]:
  assumes "\<And>w t. f (w\<lparr>h_clock := t\<rparr>) = f w"
  shows "keeps f (await_plugin n p pid)" "keeps f (await_path n p)"
proof -
  show "keeps f (await_plugin n p pid)" by (induction n) (auto intro!: keeps_intros assms)
  show "keeps f (await_path n p)" by (induction n) (auto intro!: keeps_intros assms)
qed

section \<open>One line of JSON\<close>

text \<open>
  A command that returns \<open>rc\<close> has printed one line after \<open>out\<close>: an object that starts with
  its status and its exit code. The line has no control character in it, if \<open>clean\<close>.
\<close>

definition reported :: "bool \<Rightarrow> string \<Rightarrow> int \<Rightarrow> string \<Rightarrow> bool" where
  \<open>reported clean out rc now \<longleftrightarrow> (\<exists>l. now = out @ l @ ''}'' @ [LF] \<and> (clean \<longrightarrow> plain l) \<and>
     prefix (''{"ok":'' @ json_bool (rc = 0) @ '',"exit_code":'' @ dec_int rc @ '','') l)\<close>

definition speaks :: "bool \<Rightarrow> (host, int) state \<Rightarrow> bool" where
  "speaks clean m \<longleftrightarrow> (\<forall>out. does (\<lambda>w. h_out w = out) m (\<lambda>rc w. reported clean out rc (h_out w)))"

lemma speaks_bind:
  assumes "keeps h_out m" "\<And>a. speaks clean (f a)"
  shows "speaks clean (Monad_Syntax.bind m f)"
  unfolding speaks_def
proof
  fix out
  show "does (\<lambda>w. h_out w = out) (Monad_Syntax.bind m f) (\<lambda>rc w. reported clean out rc (h_out w))"
    using keeps_does [OF assms(1), of "\<lambda>x. x = out"] assms(2) by (auto simp: speaks_def intro: does_bind)
qed

lemma speaks_cases:
  "speaks clean m \<Longrightarrow> (\<And>x. speaks clean (n x)) \<Longrightarrow> speaks clean (case r of None \<Rightarrow> m | Some x \<Rightarrow> n x)"
  "speaks clean m \<Longrightarrow> speaks clean m' \<Longrightarrow> speaks clean (if b then m else m')"
  "(\<And>x. speaks clean (n x)) \<Longrightarrow> speaks clean (let x = v in n x)"
  "(\<And>x y. speaks clean (n' x y)) \<Longrightarrow> speaks clean (case p of (x, y) \<Rightarrow> n' x y)"
  by (cases r; simp) (cases p; simp)+

lemma plain_print_char [simp]: "plain (print_char c)"
  by (auto simp: print_char_def)

lemma plain_jp [simp, plain_intros]: "plain (json_escape_print s)"
  by (auto simp: json_escape_print_def intro!: plain_concat split: option.split)

text \<open>Every report is such a line.\<close>

definition report_line :: "bool \<Rightarrow> int \<Rightarrow> string \<Rightarrow> bool" where
  \<open>report_line clean rc s \<longleftrightarrow> (\<exists>l. s = l @ ''}'' @ [LF] \<and> (clean \<longrightarrow> plain l) \<and>
     prefix (''{"ok":'' @ json_bool (rc = 0) @ '',"exit_code":'' @ dec_int rc @ '','') l)\<close>

lemma speaks_print: "report_line clean rc s \<Longrightarrow> speaks clean (do { print s; give rc })"
  by (auto simp: speaks_def does_def print_def reported_def report_line_def)

lemma reportI:
  \<open>(clean \<longrightarrow> plain r) \<Longrightarrow> ok = json_bool (rc = 0) \<Longrightarrow> c = dec_int rc \<Longrightarrow>
     s = ''{"ok":'' @ ok @ '',"exit_code":'' @ c @ '','' @ r @ ''}'' @ [LF] \<Longrightarrow> report_line clean rc s\<close>
  by (auto simp: report_line_def plain_append intro!: exI [of _ "''{\"ok\":'' @ ok @ '',\"exit_code\":'' @ c @ '','' @ r"])

lemma report0I:
  \<open>(clean \<longrightarrow> plain r) \<Longrightarrow> s = ''{"ok":true,"exit_code":0,'' @ r @ ''}'' @ [LF] \<Longrightarrow> report_line clean 0 s\<close>
  by (rule reportI [of _ r "''true''" _ "''0''"]) (simp_all add: json_bool_def dec_int_def dec_0)

definition result_line ::
  "bool \<Rightarrow> int \<Rightarrow> string \<Rightarrow> string \<Rightarrow> string option \<Rightarrow> string option \<Rightarrow> int \<Rightarrow> string" where
  \<open>result_line ok code i op console error dur =
     ''{"ok":'' @ json_bool ok @ '',"exit_code":'' @ dec_int code @ '','' @
       ''"session_id":'' @ jp i @ '',"op":'' @ jp op @
       (if 0 \<le> dur then '',"duration_ms":'' @ dec_int dur else []) @
       (if error \<noteq> None \<and> error \<noteq> Some [] then '',"error":'' @ json_escape_print error else []) @
       (case console of None \<Rightarrow> [] | Some _ \<Rightarrow> '',"console":'' @ json_escape_print console) @
       ''}'' @ [LF]\<close>

lemma print_result_line:
  "print_result ok code (Some i) (Some op) console error dur = print (result_line ok code i op console error dur)"
  by (simp add: print_result_def result_line_def)

lemma report_result: "report_line clean rc (result_line (rc = 0) rc i op console error dur)"
  unfolding result_line_def
  by (rule reportI [OF _ refl refl, where r = "''\"session_id\":'' @ jp i @ '',\"op\":'' @ jp op @
       (if 0 \<le> dur then '',\"duration_ms\":'' @ dec_int dur else []) @
       (if error \<noteq> None \<and> error \<noteq> Some [] then '',\"error\":'' @ json_escape_print error else []) @
       (case console of None \<Rightarrow> [] | Some _ \<Rightarrow> '',\"console\":'' @ json_escape_print console)"])
     (auto split: option.split)

lemma speaks_fail: "code \<noteq> 0 \<Longrightarrow> speaks clean (fail_with code i op console msg dur)"
  unfolding fail_with_def print_result_line using report_result [of clean code] by (intro speaks_print) simp

lemma speaks_ok: "speaks clean (do { print_result True 0 (Some i) (Some op) console error dur; give 0 })"
  unfolding print_result_line using report_result [of clean 0] by (intro speaks_print) simp

lemma report_cmd: "report_line True 0 (cmd_report i line prompt wait dur console)"
  unfolding cmd_report_def
  by (rule report0I [where r = "''\"op\":\"cmd\",\"session_id\":'' @ jp i @ '',\"cmd\":'' @ jp line @
       '',\"prompt\":'' @ jp prompt @ '',\"wait\":'' @ json_bool wait @ '',\"duration_ms\":'' @ dec_int dur @
       '',\"console\":'' @ jp console"]) simp_all

lemma report_type: "report_line True (if ok then 0 else 1) (type_report i txt enter expect ok dur console)"
  unfolding type_report_def
  by (rule reportI [OF _ _ refl, where r = "''\"op\":\"type\",\"session_id\":'' @ jp i @ '',\"text\":'' @ jp txt @
       '',\"enter\":'' @ json_bool enter @
       (if expect \<noteq> None \<and> expect \<noteq> Some []
        then '',\"expect\":'' @ json_escape_print expect @ '',\"expect_ok\":'' @ json_bool ok @
             (if \<not> ok then '',\"error\":\"timeout waiting for expect\"'' else [])
        else []) @ '',\"duration_ms\":'' @ dec_int dur @ '',\"console\":'' @ jp console"])
     simp_all

lemma report_key: "report_line True 0 (key_report i qcode repeat dur console)"
  unfolding key_report_def
  by (rule report0I [where r = "''\"op\":\"key\",\"session_id\":'' @ jp i @ '',\"qcode\":'' @ jp qcode @
       '',\"repeat\":'' @ dec_int repeat @ '',\"duration_ms\":'' @ dec_int dur @ '',\"console\":'' @ jp console"])
     simp_all

lemma report_start: "report_line True 0 (start_report i s dur console)"
  unfolding start_report_def
  by (rule report0I [where r = "''\"op\":\"start\",\"session_id\":'' @ jp i @ '',\"pid\":'' @ dec_int (s_pid s) @
       '',\"iso\":'' @ jp (s_iso s) @ '',\"disk\":'' @ jp (s_disk s) @ '',\"prompt\":'' @ jp (s_prompt s) @
       '',\"plugin_sock\":'' @ jp (s_plugin_sock s) @ '',\"qmp_sock\":'' @ jp (s_qmp_sock s) @
       '',\"duration_ms\":'' @ dec_int dur @ '',\"console\":'' @ jp console"])
     simp_all

lemma report_status: "report_line False 0 (status_report i s prompt guest)"
  unfolding status_report_def
  by (rule report0I [where r = "''\"op\":\"status\",\"session_id\":'' @ jp i @ '',\"pid\":'' @ dec_int (s_pid s) @
       '',\"alive\":true,\"prompt\":'' @ jp prompt @ '',\"last_expect\":'' @ jp (s_last_expect s) @
       '',\"iso\":'' @ jp (s_iso s) @ '',\"disk\":'' @ jp (s_disk s) @
       '',\"plugin_sock\":'' @ jp (s_plugin_sock s) @ '',\"qmp_sock\":'' @ jp (s_qmp_sock s) @
       '',\"guest_status\":'' @ guest"])
     simp_all

text \<open>The paths on which the session is gone and has been reported.\<close>

definition gone_told :: "bool \<Rightarrow> (host, int) state \<Rightarrow> bool" where
  "gone_told clean m \<longleftrightarrow> (\<forall>out. does (\<lambda>w. reported clean out 3 (h_out w)) m (\<lambda>rc w. reported clean out rc (h_out w)))"

lemma gone_told_give: "gone_told clean (give 3)"
  by (simp add: gone_told_def does_return)

lemma gone_told_bind:
  assumes "keeps h_out m" "\<And>a. gone_told clean (f a)"
  shows "gone_told clean (Monad_Syntax.bind m f)"
  unfolding gone_told_def
proof
  fix out
  show "does (\<lambda>w. reported clean out 3 (h_out w)) (Monad_Syntax.bind m f) (\<lambda>rc w. reported clean out rc (h_out w))"
    using keeps_does [OF assms(1), of "reported clean out 3"] assms(2) by (auto simp: gone_told_def intro: does_bind)
qed

lemma reported_result:
  "reported clean out rc (out @ result_line (rc = 0) rc i op console error dur)"
  using report_result [of clean rc i op console error dur] by (auto simp: reported_def report_line_def)

lemma speaks_require:
  assumes "gone_told clean (f None)" "\<And>s. speaks clean (f (Some s))"
  shows "speaks clean (Monad_Syntax.bind (require_session i op) f)"
  unfolding speaks_def
proof
  fix out
  have "does (\<lambda>w. h_out w = out) (require_session i op)
      (\<lambda>r w. case r of None \<Rightarrow> reported clean out 3 (h_out w) | Some s \<Rightarrow> h_out w = out)"
    unfolding require_session_def print_result_line
  proof (rule does_bind)
    have "keeps h_out (load_session i)" by (intro keeps_intros) simp_all
    then show "does (\<lambda>w. h_out w = out) (load_session i) (\<lambda>_ w. h_out w = out)"
      by (rule keeps_does)
  qed (auto simp: does_def print_def pid_alive_def remove_session_file_def unlink_def
      reported_result [where rc = 3, simplified] split: option.split)
  then show "does (\<lambda>w. h_out w = out) (Monad_Syntax.bind (require_session i op) f)
      (\<lambda>rc w. reported clean out rc (h_out w))"
  proof (rule does_bind)
    fix r
    show "does (\<lambda>w. case r of None \<Rightarrow> reported clean out 3 (h_out w) | Some s \<Rightarrow> h_out w = out) (f r)
        (\<lambda>rc w. reported clean out rc (h_out w))"
      using assms by (cases r) (simp_all add: gone_told_def speaks_def)
  qed
qed

lemmas speaks_rules = speaks_cases speaks_fail speaks_ok speaks_bind

lemma speaks_locked:
  assumes "\<And>t0 lk s. speaks clean (body t0 lk s)"
  shows "speaks clean (locked_session i op body)"
proof -
  have "speaks clean (Monad_Syntax.bind (require_session i op)
          (\<lambda>rs. case rs of None \<Rightarrow> do { session_lock_release lk; give 3 } | Some s \<Rightarrow> body t0 lk s))" for t0 lk
    using assms by (intro speaks_require) (auto intro!: gone_told_bind gone_told_give keeps_intros)
  then show ?thesis
    unfolding locked_session_def by (intro speaks_bind speaks_fail keeps_intros) (auto intro!: speaks_fail split: option.split)
qed

lemma speaks_fail_locked: "code \<noteq> 0 \<Longrightarrow> speaks clean (fail_locked lk code i op t0 msg)"
  unfolding fail_locked_def by (intro speaks_bind speaks_fail keeps_intros) simp_all

lemma speaks_cmd_body: "speaks True (cmd_body r t0 lk s)"
  unfolding cmd_body_def
  by (intro speaks_rules speaks_fail_locked speaks_print report_cmd keeps_intros) simp_all

lemma speaks_type_body: "speaks True (type_body r txt t0 lk s)"
  unfolding type_body_def
  by (intro speaks_rules speaks_fail_locked speaks_print report_type keeps_intros) simp_all

lemma speaks_key_body: "speaks True (key_body r qcode t0 lk s)"
  unfolding key_body_def
  by (intro speaks_rules speaks_fail_locked speaks_print report_key keeps_intros) simp_all

lemma speaks_expect: "speaks True (session_expect argv)"
proof -
  have main: "speaks True (Monad_Syntax.bind (require_session i ''expect'') (\<lambda>rs. case rs of
        None \<Rightarrow> give 3
      | Some s \<Rightarrow> do {
          seen \<leftarrow> wait_expect (s_plugin_sock s) needle tmo;
          txt \<leftarrow> console_now (s_plugin_sock s) 4096;
          dur \<leftarrow> since t0;
          if seen \<noteq> 0 then fail_with 1 i ''expect'' (Some txt) ''timeout'' dur
          else do {
            print_result True 0 (Some i) (Some ''expect'') (Some txt) None dur;
            give 0 } }))" for i needle tmo t0
    by (rule speaks_require) (simp_all add: gone_told_give, intro speaks_rules keeps_intros, simp_all)
  show ?thesis
    unfolding session_expect_def Let_def
    by (intro main speaks_cases speaks_fail speaks_bind keeps_intros) simp_all
qed

lemma speaks_console: "speaks True (session_console argv)"
  unfolding session_console_def Let_def
  by (rule speaks_require) (simp_all add: gone_told_give, intro speaks_rules keeps_intros, simp_all)

lemma speaks_status: "speaks False (session_status argv)"
  unfolding session_status_def Let_def
  by (rule speaks_require)
     (simp_all add: gone_told_give, intro speaks_bind speaks_print report_status keeps_intros, simp_all)

lemma keeps_stop_process [keeps_intros]:
  assumes "\<And>w t. f (w\<lparr>h_clock := t\<rparr>) = f w" "\<And>w l. f (w\<lparr>h_log := l\<rparr>) = f w"
    and "\<And>w qs. f (w\<lparr>h_qmps := qs\<rparr>) = f w" "\<And>w ps. f (w\<lparr>h_procs := ps\<rparr>) = f w"
    and "\<And>w. f (w\<lparr>h_hung := True\<rparr>) = f w"
  shows "keeps f (stop_process s)"
  unfolding stop_process_def by (intro keeps_intros) (simp_all add: assms)

lemma speaks_stop: "speaks True (session_stop argv)"
  unfolding session_stop_def Let_def by (intro speaks_rules keeps_intros) simp_all

lemma keeps_find_holder [keeps_intros]:
  assumes "\<And>w p. f (w\<lparr>h_paths := p\<rparr>) = f w" "\<And>w e. f (w\<lparr>h_env := e\<rparr>) = f w"
    and "\<And>w u. f (w\<lparr>h_ub := u\<rparr>) = f w"
  shows "keeps f (find_disk_holder i disk)"
proof -
  have "keeps f (disk_holder want i names)" for want names
    by (induction names) (auto simp: Let_def intro!: keeps_intros assms)
  then show ?thesis unfolding find_disk_holder_def by (intro keeps_intros)
qed

lemma keeps_replace_old [keeps_intros]:
  assumes "\<And>w p. f (w\<lparr>h_paths := p\<rparr>) = f w" "\<And>w e. f (w\<lparr>h_env := e\<rparr>) = f w"
    and "\<And>w t. f (w\<lparr>h_clock := t\<rparr>) = f w" "\<And>w l. f (w\<lparr>h_log := l\<rparr>) = f w"
    and "\<And>w qs. f (w\<lparr>h_qmps := qs\<rparr>) = f w" "\<And>w ps. f (w\<lparr>h_procs := ps\<rparr>) = f w"
    and "\<And>w. f (w\<lparr>h_hung := True\<rparr>) = f w" "\<And>w fs ss. f (w\<lparr>h_files := fs, h_socks := ss\<rparr>) = f w"
  shows "keeps f (replace_old i)"
  unfolding replace_old_def by (intro keeps_intros) (simp_all add: assms)

lemma speaks_start_ready: "speaks True (start_ready r t0 s)"
  unfolding start_ready_def start_finish_def
  by (intro speaks_rules speaks_print report_start keeps_intros) simp_all

lemma speaks_start_boot: "speaks True (start_boot r)"
  unfolding start_boot_def start_forked_def
  by (intro speaks_rules speaks_start_ready keeps_intros) simp_all

lemma speaks_start_checked: "speaks True (start_checked r)"
  unfolding start_checked_def
  by (intro speaks_rules speaks_start_boot keeps_intros) simp_all

text \<open>Only \<open>start\<close> knows a help flag.\<close>

lemma scan_not_help:
  "(\<And>a r. a \<in> set argv \<Longrightarrow> word a r \<noteq> Help) \<Longrightarrow> scan_args val word r argv \<noteq> Help"
  by (induction val word r argv rule: scan_args.induct) (auto split: option.split scanned.split)

lemma speaks_start:
  assumes "''-h'' \<notin> set argv" "''--help'' \<notin> set argv"
  shows "speaks True (session_start argv)"
proof -
  have "scan_args start_val start_word r argv \<noteq> Help" for r
    using assms by (intro scan_not_help) (auto simp: start_word_def)
  then show ?thesis
    unfolding session_start_def
    by (intro speaks_bind keeps_intros) (auto intro!: speaks_fail speaks_start_checked split: scanned.split)
qed

lemma speaks_input_commands:
  "speaks True (session_cmd argv)" "speaks True (session_type argv)" "speaks True (session_key argv)"
proof -
  have "scan_args cmd_val cmd_word r argv \<noteq> Help" "scan_args type_val type_word r argv \<noteq> Help"
    "scan_args key_val key_word r argv \<noteq> Help" for r
    by (intro scan_not_help; simp add: cmd_word_def type_word_def key_word_def first_text_def Let_def)+
  then show "speaks True (session_cmd argv)" "speaks True (session_type argv)" "speaks True (session_key argv)"
    unfolding session_cmd_def session_type_def session_key_def
    by (auto intro!: speaks_fail speaks_locked speaks_cmd_body speaks_type_body speaks_key_body
        split: scanned.split option.split)
qed

section \<open>Input under the lock\<close>

text \<open>
  The lock after a log: None when the discipline is broken (a lock taken twice, released
  without being held, or input to a guest without a lock), else the lock that is held.
\<close>

definition lock_step :: "string option option \<Rightarrow> event \<Rightarrow> string option option" where
  "lock_step st e =
     (case st of
        None \<Rightarrow> None
      | Some held \<Rightarrow>
          (case e of
             E_lock p \<Rightarrow> if held = None then Some (Some p) else None
           | E_unlock p \<Rightarrow> if held = Some p then Some None else None
           | E_input _ _ \<Rightarrow> if held = None then None else Some held
           | _ \<Rightarrow> Some held))"

definition held_after :: "event list \<Rightarrow> string option option" where
  "held_after es = foldl lock_step (Some None) es"

lemma held_after_snoc [simp]: "held_after (es @ [e]) = lock_step (held_after es) e"
  by (simp add: held_after_def)

definition moves :: "string option \<Rightarrow> string option \<Rightarrow> (host, 'a) state \<Rightarrow> bool" where
  "moves h h' m \<longleftrightarrow> does (\<lambda>w. held_after (h_log w) = Some h) m (\<lambda>_ w. held_after (h_log w) = Some h')"

lemma moves_keeps: "keeps h_log m \<Longrightarrow> moves h h m"
  unfolding moves_def using keeps_does [of h_log m "\<lambda>l. held_after l = Some h"] .

lemma moves_bind:
  "moves h h m \<Longrightarrow> (\<And>a. moves h h' (f a)) \<Longrightarrow> moves h h' (Monad_Syntax.bind m f)"
  unfolding moves_def by (rule does_bind)

lemma moves_release:
  "(\<And>a. moves None h (f a)) \<Longrightarrow> moves (Some p) h (Monad_Syntax.bind (session_lock_release p) f)"
  unfolding moves_def
  by (rule does_bind [where R = "\<lambda>_ w. held_after (h_log w) = Some None"])
     (auto simp: does_def session_lock_release_def log_event_def lock_step_def)

lemma moves_cases:
  "moves h h' m \<Longrightarrow> moves h h' m' \<Longrightarrow> moves h h' (if b then m else m')"
  "(\<And>x. moves h h' (n x)) \<Longrightarrow> moves h h' (let x = v in n x)"
  by simp_all

lemma moves_ask: "moves h h (ask sock line n)"
  by (auto simp: moves_def does_def run_ask lock_step_def split: list.split option.split)

lemma moves_requests:
  "moves h h (console_now psock n)" "moves h h (wait_expect psock needle tmo)"
proof -
  show "moves h h (console_now psock n)"
    unfolding console_now_def get_console_text_def plugin_request_def
    by (intro moves_bind moves_ask moves_keeps keeps_intros)
  show "moves h h (wait_expect psock needle tmo)"
    unfolding moves_def
    using moves_ask [unfolded moves_def] by (intro does_wait_expect) (auto simp: does_def sleep_def)
qed

lemma moves_input:
  "moves (Some p) (Some p) (type_input s line enter)" "moves (Some p) (Some p) (key_input s qcode n)"
proof -
  have close: "moves (Some p) (Some p) (qc_qmp_close sock q)" for sock q
    by (auto simp: moves_def does_def qc_qmp_close_def sleep_def log_event_def lock_step_def split: option.split)
  have loop: "keeps h_log (key_loop n qcode q)" for q
    by (induction n arbitrary: q) (auto intro!: keeps_intros split: prod.split)
  have one: "moves (Some p) (Some p) (do { qc_qmp_close sock q; give x })" for sock q and x :: int
    by (intro moves_bind close moves_keeps keeps_intros)
  show "moves (Some p) (Some p) (type_input s line enter)"
    unfolding type_input_def by (intro moves_bind moves_cases) (auto intro!: moves_keeps keeps_intros one split: prod.split)
  show "moves (Some p) (Some p) (key_input s qcode n)"
    unfolding key_input_def
    by (intro moves_bind moves_cases) (auto intro!: moves_keeps keeps_intros loop one split: prod.split)
qed

lemma keeps_report [keeps_intros]:
  assumes "\<And>w s. f (w\<lparr>h_out := s\<rparr>) = f w"
  shows "keeps f (fail_with code i op console msg dur)" "keeps f (print_result ok code i' op' console err' dur)"
  unfolding fail_with_def print_result_def by (intro keeps_intros assms)+

lemma keeps_require [keeps_intros]: "keeps h_log (require_session i op)"
  unfolding require_session_def by (intro keeps_intros) simp_all

lemma moves_fail_locked: "moves (Some lk) None (fail_locked lk code i op t0 msg)"
  unfolding fail_locked_def by (intro moves_release moves_keeps keeps_intros) simp_all

lemmas moves_rules = moves_release moves_fail_locked moves_bind moves_cases moves_requests moves_input

lemma moves_bodies:
  "moves (Some lk) None (cmd_body r t0 lk s)" "moves (Some lk) None (type_body r txt t0 lk s)"
  "moves (Some lk) None (key_body r qcode t0 lk s)"
  unfolding cmd_body_def type_body_def key_body_def
  by (intro moves_rules; (intro moves_keeps keeps_intros; simp))+

lemma moves_locked:
  assumes "\<And>t0 lk s. moves (Some lk) None (body t0 lk s)"
  shows "moves None None (locked_session i op body)"
proof -
  have take: "does (\<lambda>w. held_after (h_log w) = Some None) (session_lock_acquire i)
      (\<lambda>r w. held_after (h_log w) = Some r)"
    by (auto simp: does_def session_lock_acquire_def log_event_def lock_step_def)
  have "moves (Some lk) None (do {
          rs \<leftarrow> require_session i op;
          (case rs of None \<Rightarrow> do { session_lock_release lk; give 3 } | Some s \<Rightarrow> body t0 lk s) })" for lk t0
  proof (rule moves_bind)
    show "moves (Some lk) (Some lk) (require_session i op)" by (intro moves_keeps keeps_intros)
    show "moves (Some lk) None (case rs of None \<Rightarrow> do { session_lock_release lk; give 3 } | Some s \<Rightarrow> body t0 lk s)"
      for rs using assms by (cases rs) (auto intro!: moves_release moves_keeps keeps_intros)
  qed
  moreover have "moves None None (fail_with 1 i op None ''session lock failed'' (- 1))"
    by (intro moves_keeps keeps_intros) simp
  ultimately have rest: "moves lk None (case lk of
        None \<Rightarrow> fail_with 1 i op None ''session lock failed'' (- 1)
      | Some lockfd \<Rightarrow> do {
          rs \<leftarrow> require_session i op;
          (case rs of None \<Rightarrow> do { session_lock_release lockfd; give 3 } | Some s \<Rightarrow> body t0 lockfd s) })" for lk t0
    by (cases lk) simp_all
  show ?thesis
    unfolding locked_session_def
  proof (rule moves_bind)
    show "moves None None now_ms" by (intro moves_keeps keeps_intros)
    show "moves None None (do {
        lk \<leftarrow> session_lock_acquire i;
        (case lk of
           None \<Rightarrow> fail_with 1 i op None ''session lock failed'' (- 1)
         | Some lockfd \<Rightarrow> do {
             rs \<leftarrow> require_session i op;
             (case rs of None \<Rightarrow> do { session_lock_release lockfd; give 3 } | Some s \<Rightarrow> body t0 lockfd s) }) })" for t0
      using take rest unfolding moves_def by (rule does_bind)
  qed
qed

lemma moves_input_commands:
  "moves None None (session_cmd argv)" "moves None None (session_type argv)" "moves None None (session_key argv)"
  unfolding session_cmd_def session_type_def session_key_def
  by (auto intro!: moves_keeps keeps_intros moves_locked moves_bodies split: scanned.split option.split)

section \<open>Ending a process\<close>

text \<open>A process that has exited by now, as a zombie or not, or that is not there.\<close>

definition dead :: "host \<Rightarrow> int \<Rightarrow> bool" where
  "dead w pid \<longleftrightarrow> (\<forall>p. h_procs w pid = Some p \<longrightarrow> gone w p)"

lemma not_alive_dead: "\<not> alive w pid \<Longrightarrow> 0 < pid \<Longrightarrow> dead w pid"
  by (auto simp: alive_def dead_def split: option.splits)

lemma gone_later: "gone w p \<Longrightarrow> h_clock w \<le> h_clock w' \<Longrightarrow> gone w' p"
  by (auto simp: gone_def split: option.splits)

lemma dead_sleep: "dead w pid \<Longrightarrow> run_state (sleep n) w = (r, w') \<Longrightarrow> dead w' pid"
  by (auto simp: dead_def sleep_def gone_def split: option.splits)

lemma dead_sigkill: "run_state (sigkill pid) w = (r, w') \<Longrightarrow> dead w' pid"
  by (auto simp: dead_def sigkill_def gone_def exit_by_def split: option.splits)

lemma wait_gone_dead:
  "dead w pid \<or> (\<exists>k < n. ka = Some k) \<Longrightarrow> 0 < pid \<Longrightarrow> run_state (wait_gone ka n pid) w = (r, w') \<Longrightarrow> dead w' pid"
proof (induction n arbitrary: w)
  case 0
  then show ?case by simp
next
  case (Suc n)
  show ?case
  proof (cases "alive w pid")
    case False
    then show ?thesis using Suc.prems not_alive_dead by (simp add: pid_alive_def)
  next
    case True
    obtain x w1 where w1: "run_state (if ka = Some n then sigkill pid else give ()) w = (x, w1)"
      by (rule prod.exhaust)
    obtain y w2 where w2: "run_state (sleep 100) w1 = (y, w2)" by (rule prod.exhaust)
    have "run_state (wait_gone ka n pid) w2 = (r, w')"
      using Suc.prems(3) True w1 w2 by (simp add: pid_alive_def split: if_splits)
    moreover have "dead w1 pid \<or> (\<exists>k < n. ka = Some k)"
      using Suc.prems(1) w1 dead_sigkill by (fastforce simp: less_Suc_eq split: if_splits)
    then have "dead w2 pid \<or> (\<exists>k < n. ka = Some k)" using dead_sleep [OF _ w2] by blast
    ultimately show ?thesis using Suc.IH Suc.prems(2) by blast
  qed
qed

lemma wait_gone_clock:
  "run_state (wait_gone ka n pid) w = (r, w') \<Longrightarrow> h_clock w \<le> h_clock w' \<and> h_clock w' \<le> h_clock w + 100 * int n"
proof (induction n arbitrary: w)
  case (Suc n)
  then show ?case
    by (fastforce simp: pid_alive_def sigkill_def sleep_def split: if_splits)
qed simp

lemma waitpid_dead:
  assumes "dead w pid" "run_state (waitpid pid) w = (r, w')"
  shows "\<not> alive w' pid" "h_hung w' = h_hung w" "h_clock w' = h_clock w"
  using assms by (auto simp: waitpid_def dead_def alive_def gone_def split: option.splits if_splits)

text \<open>Connections that have not slept yet.\<close>

definition fresh_qmps :: "host \<Rightarrow> bool" where
  "fresh_qmps w \<longleftrightarrow> (\<forall>(c, mem) \<in> set (h_qmps w). \<forall>q. c = Some q \<longrightarrow> q_slept q = [])"

lemma write1_slept: "write1 s q = (n, q') \<Longrightarrow> q_slept q' = q_slept q"
  by (auto simp: write1_def split: list.splits)

lemma write_line_slept: "qmp_write_line l q = (ok, q') \<Longrightarrow> q_slept q' = q_slept q"
  by (auto simp: qmp_write_line_def dest!: write1_slept split: prod.splits if_splits)

lemma connect_slept:
  "qc_qmp_connect p (Some q) m = Some q' \<Longrightarrow> q_slept q' = q_slept q"
  by (auto simp: qc_qmp_connect_def Let_def dest!: write_line_slept split: option.splits prod.splits if_splits)

lemma quit_slept:
  "qc_qmp_quit (Some q) = (rc, q') \<Longrightarrow> \<exists>q1. q' = Some q1 \<and> q_slept q1 = q_slept q"
  by (auto simp: qc_qmp_quit_def dest!: write_line_slept split: prod.splits if_splits)

lemma ask_quit_clock:
  assumes "fresh_qmps w" "\<And>u. h_clock (snd (run_state m u)) = h_clock u" "run_state (ask_quit s m) w = (r, w')"
  shows "h_clock w' = h_clock w"
proof (cases "h_qmps w")
  case Nil
  have "w' = snd (run_state m (w\<lparr>h_qmps := []\<rparr>))"
    using assms(3) Nil by (simp add: ask_quit_def qmp_open_def)
  then show ?thesis using assms(2) [of "w\<lparr>h_qmps := []\<rparr>"] by simp
next
  case (Cons cm qs)
  obtain c mem where cm: "cm = (c, mem)" by (rule prod.exhaust)
  show ?thesis
  proof (cases "qc_qmp_connect (Some (s_qmp_sock s)) c mem")
    case None
    have "w' = snd (run_state m (w\<lparr>h_qmps := qs\<rparr>))"
      using assms(3) Cons cm None by (simp add: ask_quit_def qmp_open_def)
    then show ?thesis using assms(2) [of "w\<lparr>h_qmps := qs\<rparr>"] by simp
  next
    case (Some q)
    then obtain q0 where c: "c = Some q0" by (cases c) (auto simp: qc_qmp_connect_def split: if_splits)
    obtain rc q' where quit: "qc_qmp_quit (Some q) = (rc, q')" by (rule prod.exhaust)
    have "q_slept q = []" using assms(1) Cons cm c connect_slept Some by (fastforce simp: fresh_qmps_def)
    then obtain q1 where "q' = Some q1" "q_slept q1 = []" using quit_slept [OF quit] by auto
    then show ?thesis
      using assms(3) Cons cm Some quit by (auto simp: ask_quit_def qmp_open_def qc_qmp_close_def sleep_def log_event_def)
  qed
qed

lemma stop_process_ends:
  assumes "fresh_qmps w" "run_state (stop_process s) w = (r, w')"
  shows "\<not> alive w' (s_pid s) \<and> h_hung w' = h_hung w \<and> h_clock w' \<le> h_clock w + 4000"
proof (cases "alive w (s_pid s)")
  case False
  then show ?thesis using assms(2) by (simp add: stop_process_def pid_alive_def)
next
  case True
  then have pos: "0 < s_pid s" by (simp add: alive_def)
  obtain a w1 where w1: "run_state (ask_quit s (sigterm (s_pid s))) w = (a, w1)" by (rule prod.exhaust)
  obtain b w2 where w2: "run_state (wait_gone (Some 9) 40 (s_pid s)) w1 = (b, w2)" by (rule prod.exhaust)
  have w': "run_state (waitpid (s_pid s)) w2 = (r, w')"
    using assms(2) True w1 w2 by (simp add: stop_process_def pid_alive_def)
  have "dead w2 (s_pid s)" by (rule wait_gone_dead [OF _ pos w2]) simp
  moreover have "h_clock w1 = h_clock w"
    by (rule ask_quit_clock [OF assms(1) _ w1]) (simp add: sigterm_def)
  moreover have "h_hung w1 = h_hung w" "h_hung w2 = h_hung w1"
    by (rule keepsD [OF _ w1], intro keeps_intros; simp) (rule keepsD [OF _ w2], intro keeps_intros; simp)
  ultimately show ?thesis using waitpid_dead [OF _ w'] wait_gone_clock [OF w2] by simp
qed

lemma unlink_facts:
  assumes "run_state (unlink p) w = (r, w')"
  shows "h_files w' p = None" "\<not> sock_there w' p" "\<not> sock_there w q \<Longrightarrow> \<not> sock_there w' q"
    "h_clock w' = h_clock w" "h_hung w' = h_hung w" "h_env w' = h_env w" "alive w' pid = alive w pid"
  using assms by (auto simp: unlink_def split: if_splits) (auto simp: sock_there_def split: option.splits if_splits)

lemma scan_id [simp]: "o_id (scan_all id_val ignore_word default_opts [''--id'', i]) = i"
  by (simp add: scan_all_def id_val_def)

text \<open>A session process of another program, that answers to nothing but a kill.\<close>

definition busy_host :: host where
  "busy_host = bare_host\<lparr>
     h_files := [''/tmp/qemu-connect-sessions/default.json'' \<mapsto> session_text_of demo_session],
     h_dirs := (\<lambda>p. p = ''/tmp/qemu-connect-sessions''),
     h_listing := (\<lambda>_. [''default.json'']),
     h_procs := [4242 \<mapsto> \<lparr>p_exit = None, p_term = None, p_child = False\<rparr>],
     h_paths := (h_paths bare_host)\<lparr>g_init := True, g_iso := ''/k.iso'', g_disk := ''/d.img'', g_plugin := ''/p.so''\<rparr>\<rparr>"

lemma busy_host_session: "run_state (load_session ''default'') busy_host = (Some demo_session, busy_host)"
  using load_on_disk [OF demo_session_ok, of busy_host]
  by (simp add: session_on_disk_def busy_host_def demo_session_def session_path_def session_dir_def
      runtime_dir_def snprintf_def bare_host_def)

section \<open>Properties\<close>







end
