(* ===== verification/Session_Start.thy ===== *)
theory Session_Start
  imports Session_Safe
begin

text \<open>
  Starting a session and typing in it. \<open>start\<close> refuses a disk that a live session holds
  before it starts anything; when it succeeds, the session that later commands find is the
  process it started. \<open>cmd\<close> types its words, joined by blanks, and Enter. Two branches of
  \<open>start\<close> do not do what they are there for: an early exit of QEMU is not noticed, and when
  the session file cannot be written QEMU stays behind.
\<close>

section \<open>After the initialisation of the paths\<close>

lemma load_pure:
  assumes "g_init (h_paths w)" "run_state (load_session i) w = (r, w')"
  shows "w' = w"
proof -
  have "run_state default_shell_prompt w = (p, u) \<Longrightarrow> u = w" for p u
    using assms(1) by (auto simp: default_shell_prompt_def qc_default_iso_def init_paths_done getenv_def)
  then show ?thesis
    using assms(2) by (auto simp: load_session_def Let_def split: option.splits prod.splits if_splits)
qed

lemma init_paths_world:
  assumes "run_state init_paths w = (r, w')"
  shows "g_init (h_paths w')" "runtime_dir w' = runtime_dir w"
    and "\<exists>env p. w' = w\<lparr>h_env := env, h_paths := p\<rparr>"
proof -
  have "g_init (h_paths w') \<and> runtime_dir w' = runtime_dir w \<and> (\<exists>env p. w' = w\<lparr>h_env := env, h_paths := p\<rparr>)"
  proof (cases "g_init (h_paths w)")
    case True
    then have "w' = w" using assms by (simp add: init_paths_done)
    moreover have "w = w\<lparr>h_env := h_env w, h_paths := h_paths w\<rparr>" by simp
    ultimately show ?thesis using True by metis
  next
    case False
    let ?l = "local_settings w (start_root w)"
    obtain p where w': "w' = w\<lparr>h_env := ?l ++ h_env w, h_paths := p\<rparr>" "g_init p"
      using run_init_paths [OF False refl refl refl] assms by (metis prod.inject)
    have "(?l ++ h_env w) k = h_env w k" if "k \<notin> set known_keys" for k
      using local_settings_known that
      by (cases "?l k") (auto simp: map_add_def split: option.split)
    then have "(?l ++ h_env w) ''XDG_RUNTIME_DIR'' = h_env w ''XDG_RUNTIME_DIR''"
      "(?l ++ h_env w) ''TMPDIR'' = h_env w ''TMPDIR''" by (simp_all add: known_keys_def)
    then show ?thesis using w' by (auto simp: runtime_dir_def)
  qed
  then show "g_init (h_paths w')" "runtime_dir w' = runtime_dir w" "\<exists>env p. w' = w\<lparr>h_env := env, h_paths := p\<rparr>"
    by blast+
qed

text \<open>What \<open>start\<close> works with after its defaults: one world, initialised once.\<close>

lemma run_session_start:
  obtains w1 iso disk plugin prompt where
    "g_init (h_paths w1)" "runtime_dir w1 = runtime_dir w" "\<exists>env p. w1 = w\<lparr>h_env := env, h_paths := p\<rparr>"
    "run_state (session_start argv) w = run_state
       (case scan_args start_val start_word
             (default_opts\<lparr>o_iso := iso, o_disk := disk, o_plugin := plugin, o_prompt := prompt,
                           o_timeout := 60000\<rparr>) argv of
          Help \<Rightarrow> give 2
        | Bad r \<Rightarrow> fail_with 2 (o_id r) ''start'' None ''unknown flag'' (- 1)
        | Go r \<Rightarrow> start_checked r) w1"
proof -
  obtain x w1 where w1: "run_state init_paths w = (x, w1)" by (rule prod.exhaust)
  note i = init_paths_world [OF w1]
  have again: "run_state init_paths w1 = ((), w1)" using i(1) by (simp add: init_paths_done)
  then have "run_state (session_start argv) w = run_state
       (case scan_args start_val start_word
             (default_opts\<lparr>o_iso := g_iso (h_paths w1), o_disk := g_disk (h_paths w1),
                o_plugin := g_plugin (h_paths w1),
                o_prompt := fst (run_state default_shell_prompt w1), o_timeout := 60000\<rparr>) argv of
          Help \<Rightarrow> give 2
        | Bad r \<Rightarrow> fail_with 2 (o_id r) ''start'' None ''unknown flag'' (- 1)
        | Go r \<Rightarrow> start_checked r) w1"
    using w1 by (simp add: session_start_def qc_default_iso_def qc_default_disk_def qc_default_plugin_def
        default_shell_prompt_def getenv_def)
  then show thesis using that i by blast
qed

section \<open>A disk that is held\<close>

lemma disk_holder_finds:
  assumes "g_init (h_paths w)" "clean_session other" "session_wf other" "session_on_disk other w"
    and "alive w (s_pid other)" "s_disk other \<noteq> []" "s_id other \<noteq> i" "s_id other \<noteq> []"
    and "fst (run_state (realpath_or (s_disk other)) w) = want"
    and "s_id other @ ''.json'' \<in> set names" "\<forall>e \<in> set names. length e < 69"
  shows "\<exists>s. run_state (disk_holder want i names) w = (Some s, w)"
  using assms(10,11)
proof (induction names)
  case Nil
  then show ?case by simp
next
  case (Cons e names)
  show ?case
  proof (cases "e = s_id other @ ''.json''")
    case True
    have "length (s_id other) < 64" using assms(3) by (simp add: session_wf_def)
    then have "take (length (s_id other)) (snprintf 64 e) = s_id other" "suffix ''.json'' e" "\<not> length e < 6"
      "length e - 5 = length (s_id other)" "length (s_id other) \<noteq> 0"
      using assms(8) True by (auto simp: snprintf_def Suc_le_eq neq_Nil_conv suffix_def)
    then show ?thesis
      using load_on_disk [OF assms(2-4)] assms(5-7,9) Cons.prems
      by (auto simp: Let_def pid_alive_def realpath_or_def)
  next
    case False
    then have IH: "\<exists>s. run_state (disk_holder want i names) w = (Some s, w)"
      using Cons by simp
    have "length e < 69" using Cons.prems(2) by simp
    then have "length e - 5 < 64" by arith
    then show ?thesis
      using IH load_pure [OF assms(1)]
      by (auto simp: Let_def pid_alive_def realpath_or_def split: prod.split option.split)
  qed
qed

lemma scan_start:
  "scan_args start_val start_word r [''--id'', i, ''--disk'', d] = Go (r\<lparr>o_id := i, o_disk := d\<rparr>)"
  by (simp add: start_val_def)

lemma fail_with_frame:
  assumes "run_state (fail_with code i op console msg dur) w = (rc, w')"
  shows "rc = code" "\<exists>out. w' = w\<lparr>h_out := out\<rparr>"
  using assms by (auto simp: fail_with_def print_result_def print_def)

section \<open>What a successful start leaves\<close>

lemma session_on_disk_frame [simp]:
  "session_on_disk s (w\<lparr>h_conns := x0\<rparr>) = session_on_disk s w"
  "session_on_disk s (w\<lparr>h_clock := x1\<rparr>) = session_on_disk s w"
  "session_on_disk s (w\<lparr>h_log := x2\<rparr>) = session_on_disk s w"
  "session_on_disk s (w\<lparr>h_out := x3\<rparr>) = session_on_disk s w"
  by (simp_all add: session_on_disk_def session_path_def session_dir_def)

lemma does_any: "does P m (\<lambda>_ _. True)"
  by (simp add: does_def)

lemma does_not_0: "code \<noteq> 0 \<Longrightarrow> does P (fail_with code i op console msg dur) (\<lambda>rc w. rc = 0 \<longrightarrow> Q w)"
  by (rule doesI) (auto dest: fail_with_frame)

lemma does_fail_after:
  "code \<noteq> 0 \<Longrightarrow> does P (do { dur \<leftarrow> since t0; fail_with code i op console msg dur }) (\<lambda>rc w. rc = 0 \<longrightarrow> Q w)"
  by (rule does_bind [OF does_any does_not_0])

lemma does_start_finish:
  "does P (start_finish r t0 s) (\<lambda>rc w. rc = 0 \<longrightarrow> session_on_disk s w)"
proof -
  have saves: "does P (save_session s) (\<lambda>x w. x = 0 \<longrightarrow> session_on_disk s w)"
    using save_on_disk by (intro doesI) auto
  have prints: "does (session_on_disk s) (do {
         txt \<leftarrow> console_now (s_plugin_sock s) TEXT_MAX;
         dur \<leftarrow> since t0;
         print (start_report (o_id r) s dur (shown_console (o_lines r) txt TEXT_MAX));
         give 0 }) (\<lambda>rc w. session_on_disk s w)"
    by (rule keeps_does [where f = "session_on_disk s" and P = "\<lambda>x. x"]) (intro keeps_intros; simp)
  show ?thesis
    unfolding start_finish_def
  proof (rule does_bind [OF saves], rule does_if)
    show "does (\<lambda>w. x = 0 \<longrightarrow> session_on_disk s w)
        (do { dur \<leftarrow> since t0; fail_with 1 (o_id r) ''start'' None ''failed to write session file'' dur })
        (\<lambda>rc w. rc = 0 \<longrightarrow> session_on_disk s w)" for x
      by (rule does_fail_after) simp
    show "does (\<lambda>w. x = 0 \<longrightarrow> session_on_disk s w) (do {
         txt \<leftarrow> console_now (s_plugin_sock s) TEXT_MAX;
         dur \<leftarrow> since t0;
         print (start_report (o_id r) s dur (shown_console (o_lines r) txt TEXT_MAX));
         give 0 }) (\<lambda>rc w. rc = 0 \<longrightarrow> session_on_disk s w)" if "\<not> x \<noteq> 0" for x :: int
      using that by (intro does_weaken [OF prints]) auto
  qed
qed

lemma does_start_ready:
  assumes "s_last_expect s = []"
  shows "does P (start_ready r t0 s)
     (\<lambda>rc w. rc = 0 \<longrightarrow> (\<exists>le. length le < 128 \<and> session_on_disk (s\<lparr>s_last_expect := le\<rparr>) w))"
proof -
  obtain s' where s': "(if o_wait r then s\<lparr>s_last_expect := snprintf 128 (o_prompt r)\<rparr> else s) = s'" by simp
  have le: "\<exists>le. length le < 128 \<and> s' = s\<lparr>s_last_expect := le\<rparr>"
    unfolding s' [symmetric] using assms snprintf_less [of 128 "o_prompt r"]
    by (cases s) (auto intro: exI [of _ "[]"])
  have "does (\<lambda>_. True) (start_finish r t0 s')
     (\<lambda>rc w. rc = 0 \<longrightarrow> (\<exists>le. length le < 128 \<and> session_on_disk (s\<lparr>s_last_expect := le\<rparr>) w))"
    using le by (intro does_weaken [OF does_start_finish]) auto
  then show ?thesis
    unfolding start_ready_def Let_def s'
    by (intro does_bind [OF does_any] does_if) (auto intro!: does_bind [OF does_any] does_not_0)
qed

text \<open>The session that \<open>start\<close> made for \<open>r\<close>, from the first outcome of the fork.\<close>

definition started :: "spawn option list \<Rightarrow> opts \<Rightarrow> host \<Rightarrow> bool" where
  "started forks r w \<longleftrightarrow> (\<exists>f fs rt le. forks = Some f # fs \<and> length le < 128 \<and>
     session_on_disk ((new_session rt r)\<lparr>s_pid := sp_pid f, s_last_expect := le\<rparr>) w)"

lemma does_start_qemu:
  "does (\<lambda>w. h_forks w = forks) (start_qemu argv p q l) (\<lambda>pid _. pid < 0 \<or> (\<exists>f fs. forks = Some f # fs \<and> pid = sp_pid f))"
  by (auto simp: does_def start_qemu_def log_event_def Let_def split: list.split option.split)

lemma does_start_forked:
  assumes "forks = Some f # fs" "s = (new_session rt r)\<lparr>s_pid := sp_pid f\<rparr>"
  shows "does P (start_forked r t0 s) (\<lambda>rc w. rc = 0 \<longrightarrow> started forks r w)"
proof -
  have "does (\<lambda>_. True) (start_ready r t0 s) (\<lambda>rc w. rc = 0 \<longrightarrow> started forks r w)"
    using assms by (intro does_weaken [OF does_start_ready]) (auto simp: started_def new_session_def)
  then show ?thesis
    unfolding start_forked_def
    by (intro does_bind [OF does_any] does_if) (auto intro!: does_bind [OF does_any] does_not_0)
qed

lemma start_boot_saves:
  assumes "run_state (start_boot r) w = (0, w')"
  shows "started (h_forks w) r w'"
proof -
  let ?s = "new_session (runtime_dir w) r"
  obtain x u where u: "run_state (unlink (s_plugin_sock ?s)) w = (x, u)" by (rule prod.exhaust)
  obtain y w1 where w1: "run_state (unlink (s_qmp_sock ?s)) u = (y, w1)" by (rule prod.exhaust)
  have "h_forks u = h_forks w" "h_forks w1 = h_forks u"
    by (rule keepsD [OF _ u], intro keeps_intros; simp) (rule keepsD [OF _ w1], intro keeps_intros; simp)
  then have forks: "h_forks w1 = h_forks w" by simp
  obtain pid w2 where w2: "run_state (start_qemu (qemu_argv (o_iso r) (o_disk r)
              (snprintf 640 (o_plugin r @ '',socket='' @ s_plugin_sock ?s))
              (snprintf 320 (''unix:'' @ s_qmp_sock ?s @ '',server,nowait'')))
            (s_plugin_sock ?s) (s_qmp_sock ?s) (s_logpath ?s)) w1 = (pid, w2)" by (rule prod.exhaust)
  have rest: "run_state (if pid < 0 then fail_with 1 (o_id r) ''start'' None ''fork failed'' (- 1)
      else start_forked r (h_clock w) (?s\<lparr>s_pid := pid\<rparr>)) w2 = (0, w')"
    using assms u w1 w2 by (simp add: start_boot_def now_ms_def)
  then have pos: "\<not> pid < 0" using fail_with_frame(1) by fastforce
  then obtain f fs where f: "h_forks w = Some f # fs" "pid = sp_pid f"
    using doesD [OF does_start_qemu forks w2] by auto
  then show ?thesis
    using rest pos doesD [OF does_start_forked [OF f(1), of _ _ r "\<lambda>_. True"]] by auto
qed

lemma keeps_forks:
  "keeps h_forks (find_disk_holder i d)" "keeps h_forks (replace_old i)"
  by (intro keeps_intros; simp)+

lemma start_checked_saves:
  assumes "run_state (start_checked r) w = (0, w')"
  shows "started (h_forks w) r w'"
proof -
  let ?P = "\<lambda>w'. started (h_forks w) r w'"
  have boot: "does (\<lambda>u. h_forks u = h_forks w) (start_boot r) (\<lambda>rc u. rc = 0 \<longrightarrow> ?P u)"
    by (intro doesI impI) (metis start_boot_saves)
  have "does (\<lambda>u. h_forks u = h_forks w) (start_checked r) (\<lambda>rc u. rc = 0 \<longrightarrow> ?P u)"
    unfolding start_checked_def Let_def
    by (intro does_bind [OF keeps_does [OF keeps_forks(1)]], split option.split)
       (intro conjI allI impI does_not_0 does_bind [OF keeps_does [OF keeps_forks(2)]] does_if boot
          does_bind [OF keeps_does [where f = h_forks]] keeps_intros; simp)
  from doesD [OF this refl assms] show ?thesis by simp
qed

section \<open>The branches that fail after the fork\<close>

text \<open>A child is alive for \<open>kill\<close> until it is waited for, whether it has exited or not.\<close>

definition child :: "int \<Rightarrow> host \<Rightarrow> bool" where
  "child pid w \<longleftrightarrow> 0 < pid \<and> (\<exists>p. h_procs w pid = Some p \<and> p_child p)"

lemma child_alive: "child pid w \<Longrightarrow> alive w pid"
  by (auto simp: child_def alive_def)

lemma await_plugin_in_vain:
  assumes "child pid w" "psock = [] \<or> h_files w psock = None \<and> \<not> h_dirs w psock \<and> h_socks w psock = None"
  shows "run_state (await_plugin k psock pid) w = (False, w\<lparr>h_clock := h_clock w + int (100 * k)\<rparr>)"
  using assms
proof (induction k arbitrary: w)
  case (Suc k)
  let ?w = "w\<lparr>h_clock := h_clock w + 100\<rparr>"
  have "child pid ?w" using Suc.prems(1) by (simp add: child_def)
  then have "run_state (await_plugin k psock pid) ?w = (False, ?w\<lparr>h_clock := h_clock ?w + int (100 * k)\<rparr>)"
    using Suc.IH [of ?w] Suc.prems(2) by simp
  then show ?case
    using Suc.prems child_alive [OF Suc.prems(1)]
    by (auto simp: exists_path_def pid_alive_def sleep_def sock_there_def algebra_simps)
qed simp

text \<open>The world after the fork, when the system has a process for it.\<close>

lemma run_start_boot:
  assumes "h_forks w = Some f # fs" "0 \<le> sp_pid f" "s = new_session (runtime_dir w) r"
  obtains w1 where "run_state (start_boot r) w = run_state (start_forked r (h_clock w) (s\<lparr>s_pid := sp_pid f\<rparr>)) w1"
    "h_clock w1 = h_clock w" "h_hung w1 = h_hung w" "h_dirs w1 = h_dirs w" "h_env w1 = h_env w"
    "h_writable w1 = h_writable w" "h_files w1 = (h_files w)(s_plugin_sock s := None, s_qmp_sock s := None)"
    "h_procs w1 = (h_procs w)(sp_pid f \<mapsto> \<lparr>p_exit = map_option (\<lambda>d. h_clock w + int d) (sp_exit f),
                                            p_term = sp_term f, p_child = True\<rparr>)"
    "s_plugin_sock s \<noteq> s_qmp_sock s \<Longrightarrow> h_socks w1 (s_plugin_sock s) = map_option (\<lambda>d. h_clock w + int d) (sp_psock f)"
proof -
  let ?argv = "qemu_argv (o_iso r) (o_disk r) (snprintf 640 (o_plugin r @ '',socket='' @ s_plugin_sock s))
                 (snprintf 320 (''unix:'' @ s_qmp_sock s @ '',server,nowait''))"
  obtain x u where u: "run_state (unlink (s_plugin_sock s)) w = (x, u)" by (rule prod.exhaust)
  obtain y v where v: "run_state (unlink (s_qmp_sock s)) u = (y, v)" by (rule prod.exhaust)
  obtain pid w1 where w1: "run_state (start_qemu ?argv (s_plugin_sock s) (s_qmp_sock s) (s_logpath s)) v = (pid, w1)"
    by (rule prod.exhaust)
  note frames = u v w1 [unfolded start_qemu_def]
  have f: "h_forks v = Some f # fs" using u v assms(1) by (auto simp: unlink_def)
  have pid: "pid = sp_pid f" using w1 f by (simp add: start_qemu_def log_event_def Let_def)
  show thesis
  proof (rule that)
    show "run_state (start_boot r) w = run_state (start_forked r (h_clock w) (s\<lparr>s_pid := sp_pid f\<rparr>)) w1"
      using u v w1 pid assms(2) by (simp add: start_boot_def now_ms_def assms(3) [symmetric])
  qed (use frames f in \<open>auto simp: unlink_def log_event_def Let_def\<close>)
qed

lemma sockets_distinct:
  assumes "length rt + length (o_id r) \<le> 230" "s = new_session rt r"
  shows "s_plugin_sock s \<noteq> s_qmp_sock s"
proof -
  have "length (s_plugin_sock s) \<noteq> length (s_qmp_sock s)"
    using assms(1) by (simp add: assms(2) new_session_def snprintf_def)
  then show ?thesis by metis
qed

text \<open>No session file can be written, and the process \<open>pid\<close> is there.\<close>

definition unsaved :: "string \<Rightarrow> string \<Rightarrow> int \<Rightarrow> host \<Rightarrow> bool" where
  "unsaved i p pid w \<longleftrightarrow>
     session_path w i 320 = p \<and> \<not> h_writable w p \<and> h_files w p = None \<and> child pid w"

lemma unsaved_frame [simp]:
  "unsaved i p pid (w\<lparr>h_conns := x0\<rparr>) = unsaved i p pid w"
  "unsaved i p pid (w\<lparr>h_clock := x1\<rparr>) = unsaved i p pid w"
  "unsaved i p pid (w\<lparr>h_log := x2\<rparr>) = unsaved i p pid w"
  "unsaved i p pid (w\<lparr>h_out := x3\<rparr>) = unsaved i p pid w"
  "unsaved i p pid (w\<lparr>h_dirs := x4\<rparr>) = unsaved i p pid w"
  by (simp_all add: unsaved_def child_def session_path_def session_dir_def)

lemma does_unsaved:
  "keeps (unsaved i p pid) m \<Longrightarrow> does (unsaved i p pid) m (\<lambda>_. unsaved i p pid)"
  by (rule keeps_does [where P = "\<lambda>x. x"])

lemma does_save_unsaved:
  assumes "s_id s = i"
  shows "does (unsaved i p pid) (save_session s) (\<lambda>x w. x = - 1 \<and> unsaved i p pid w)"
  using assms by (auto simp: does_def save_session_def mkdir_def write_file_def unsaved_def child_def
      session_path_def session_dir_def runtime_dir_def)

lemma does_finish_unsaved:
  assumes "s_id s = i"
  shows "does (unsaved i p pid) (start_finish r t0 s) (\<lambda>rc w. rc = 1 \<and> unsaved i p pid w)"
proof -
  have "does (\<lambda>w. x = - 1 \<and> unsaved i p pid w) (if x \<noteq> 0 then do {
       dur \<leftarrow> since t0;
       fail_with 1 (o_id r) ''start'' None ''failed to write session file'' dur } else m)
     (\<lambda>rc w. rc = 1 \<and> unsaved i p pid w)" for x :: int and m
    by (auto simp: does_def since_def now_ms_def fail_with_def print_result_def print_def)
  then show ?thesis
    unfolding start_finish_def by (rule does_bind [OF does_save_unsaved [OF assms]])
qed

lemma does_ready_unsaved:
  assumes "s_id s = i"
  shows "does (unsaved i p pid) (start_ready r t0 s) (\<lambda>rc w. rc = 1 \<and> unsaved i p pid w)"
proof -
  obtain s' where s': "(if o_wait r then s\<lparr>s_last_expect := snprintf 128 (o_prompt r)\<rparr> else s) = s'" by simp
  then have i: "s_id s' = i" using assms by auto
  have wait: "keeps (unsaved i p pid) (await_path k q)" for k q
    by (induction k) (auto intro!: keeps_intros)
  have fails: "does (unsaved i p pid) (do { dur \<leftarrow> since t0; fail_with 1 j ''start'' c m dur })
      (\<lambda>rc w. rc = 1 \<and> unsaved i p pid w)" for j c m
    by (auto simp: does_def since_def now_ms_def fail_with_def print_result_def print_def)
  have save: "does (unsaved i p pid) (save_session s') (\<lambda>_. unsaved i p pid)"
    by (rule does_weaken [OF does_save_unsaved [OF i]]) auto
  show ?thesis
    unfolding start_ready_def Let_def s'
  proof (rule does_bind [OF does_unsaved [OF wait]], rule does_bind)
    show "does (unsaved i p pid)
        (if o_wait r then wait_expect (s_plugin_sock s') (o_prompt r) (o_timeout r) else give 0)
        (\<lambda>_. unsaved i p pid)"
      by (rule does_unsaved) (intro keeps_intros; simp)
    show "does (unsaved i p pid) (if seen \<noteq> 0 then do {
         txt \<leftarrow> console_now (s_plugin_sock s') 4096;
         _ \<leftarrow> save_session s';
         dur \<leftarrow> since t0;
         fail_with 1 (o_id r) ''start'' (Some (shown_console (o_lines r) txt 4096))
           ''timeout waiting for shell prompt'' dur }
       else start_finish r t0 s') (\<lambda>rc w. rc = 1 \<and> unsaved i p pid w)" for seen :: int
    proof (rule does_if)
      have "does (unsaved i p pid) (console_now sock n) (\<lambda>_. unsaved i p pid)" for sock n
        by (rule does_unsaved) (intro keeps_intros; simp)
      then show "does (unsaved i p pid) (do {
         txt \<leftarrow> console_now (s_plugin_sock s') 4096;
         _ \<leftarrow> save_session s';
         dur \<leftarrow> since t0;
         fail_with 1 (o_id r) ''start'' (Some (shown_console (o_lines r) txt 4096))
           ''timeout waiting for shell prompt'' dur }) (\<lambda>rc w. rc = 1 \<and> unsaved i p pid w)"
        by (rule does_bind) (rule does_bind [OF save fails])
    qed (rule does_finish_unsaved [OF i])
  qed
qed

text \<open>A machine on which QEMU can be started.\<close>

definition ready_host :: host where
  "ready_host = bare_host\<lparr>
     h_paths := (h_paths bare_host)\<lparr>g_iso := ''/k.iso'', g_plugin := ''/p.so'', g_init := True\<rparr>,
     h_files := [''/k.iso'' \<mapsto> [], ''/p.so'' \<mapsto> []],
     h_forks := [Some \<lparr>sp_pid = 77, sp_exit = None, sp_term = None, sp_psock = Some 0, sp_qsock = Some 0, sp_log = None\<rparr>]\<rparr>"

lemma start_finish_ok:
  assumes "h_writable w = (\<lambda>_. True)"
  shows "fst (run_state (start_finish r t0 s) w) = 0"
  using assms by (auto simp: start_finish_def save_session_def mkdir_def write_file_def split: prod.split)

lemma start_ready_ok:
  assumes "h_writable w = (\<lambda>_. True)" "\<not> o_wait r"
  shows "fst (run_state (start_ready r t0 s) w) = 0"
proof -
  obtain x w1 where w1: "run_state (await_path 50 (s_qmp_sock s)) w = (x, w1)" by (rule prod.exhaust)
  have "h_writable w1 = h_writable w" by (rule keepsD [OF _ w1]) (intro keeps_intros; simp)
  then show ?thesis using w1 assms start_finish_ok [of w1] by (simp add: start_ready_def)
qed

lemma start_forked_ok:
  assumes "sock_there w (s_plugin_sock s)" "s_plugin_sock s \<noteq> []"
  shows "run_state (start_forked r t0 s) w = run_state (start_ready r t0 s) w"
proof -
  have "run_state (await_plugin 100 (s_plugin_sock s) (s_pid s)) w = (False, w)"
    using assms by (simp add: exists_path_def eval_nat_numeral)
  then show ?thesis using assms by (simp add: start_forked_def exists_path_def)
qed

lemma ready_host_starts: "fst (run_state (session_start [''--no-wait'']) ready_host) = 0"
proof -
  let ?r = "default_opts\<lparr>o_iso := ''/k.iso'', o_disk := [], o_plugin := ''/p.so'', o_prompt := ''$'',
              o_timeout := 60000, o_wait := False\<rparr>"
  have "run_state (session_start [''--no-wait'']) ready_host = run_state (start_checked ?r) ready_host"
    by (simp add: ready_host_def bare_host_def session_start_def qc_default_iso_def qc_default_disk_def
        qc_default_plugin_def default_shell_prompt_def init_paths_done getenv_def start_word_def)
  moreover have "h_files ready_host = [''/k.iso'' \<mapsto> [], ''/p.so'' \<mapsto> []]"
    "run_state (load_session ''default'') ready_host = (None, ready_host)"
    by (simp_all add: load_session_def session_path_def session_dir_def runtime_dir_def snprintf_def)
       (simp_all add: ready_host_def bare_host_def)
  then have "run_state (start_checked ?r) ready_host = run_state (start_boot ?r) ready_host"
    by (simp add: start_checked_def find_disk_holder_def replace_old_def exists_path_def default_opts_def Let_def)
  moreover have "fst (run_state (start_boot ?r) ready_host) = 0"
  proof -
    obtain s where s: "s = new_session (runtime_dir ready_host) ?r" by simp
    have rt: "runtime_dir ready_host = ''/tmp''"
      by (simp add: ready_host_def bare_host_def runtime_dir_def)
    then have d: "s_plugin_sock s \<noteq> s_qmp_sock s"
      by (intro sockets_distinct [OF _ s]) (simp add: default_opts_def)
    have f: "h_forks ready_host = Some \<lparr>sp_pid = 77, sp_exit = None, sp_term = None,
        sp_psock = Some 0, sp_qsock = Some 0, sp_log = None\<rparr> # []" by (simp add: ready_host_def)
    have p: "s_plugin_sock s \<noteq> []" by (simp add: s rt new_session_def snprintf_def)
    obtain w1 where w1: "run_state (start_boot ?r) ready_host =
        run_state (start_forked ?r (h_clock ready_host) (s\<lparr>s_pid := 77\<rparr>)) w1"
      "h_clock w1 = h_clock ready_host" "h_writable w1 = h_writable ready_host"
      "h_socks w1 (s_plugin_sock s) = Some (h_clock ready_host + int 0)"
      by (rule run_start_boot [OF f _ s]) (use d in auto)
    then have "sock_there w1 (s_plugin_sock s)" "h_writable w1 = (\<lambda>_. True)"
      by (simp_all add: sock_there_def ready_host_def bare_host_def)
    then show ?thesis
      using start_forked_ok [of w1 "s\<lparr>s_pid := 77\<rparr>"] start_ready_ok [of w1 ?r] p w1(1) by simp
  qed
  ultimately show ?thesis by simp
qed

section \<open>Properties\<close>

text \<open>
  C9: A disk is never given to two guests. When a live session holds the disk, under this or
  another path, \<open>start\<close> of another session on it fails with 1 before it has touched
  anything: no process is started or killed and no file or socket is removed.
\<close>

theorem start_refuses_held_disk:
  assumes "clean_session other" "session_wf other" "session_on_disk other w" "alive w (s_pid other)"
    and "s_disk other \<noteq> []" "s_id other \<noteq> []" "s_id other \<noteq> i" "d \<noteq> []"
    and "run_state (realpath_or (s_disk other)) w = run_state (realpath_or d) w"
    and "h_dirs w (session_dir w 256)" "length (runtime_dir w) \<le> 200"
    and "s_id other @ ''.json'' \<in> set (h_listing w (session_dir w 256))"
    and "\<forall>e \<in> set (h_listing w (session_dir w 256)). length e < 69"
    and "run_state (qc_cmd_session [''start'', ''--id'', i, ''--disk'', d]) w = (rc, w')"
  shows "rc = 1 \<and> (\<exists>env p out. w' = w\<lparr>h_env := env, h_paths := p, h_out := out\<rparr>)"
proof -
  obtain w1 iso disk plugin prompt where w1: "g_init (h_paths w1)" "runtime_dir w1 = runtime_dir w"
      "\<exists>env p. w1 = w\<lparr>h_env := env, h_paths := p\<rparr>"
    and run: "run_state (session_start [''--id'', i, ''--disk'', d]) w = run_state
       (case scan_args start_val start_word
             (default_opts\<lparr>o_iso := iso, o_disk := disk, o_plugin := plugin, o_prompt := prompt,
                           o_timeout := 60000\<rparr>) [''--id'', i, ''--disk'', d] of
          Help \<Rightarrow> give 2
        | Bad r \<Rightarrow> fail_with 2 (o_id r) ''start'' None ''unknown flag'' (- 1)
        | Go r \<Rightarrow> start_checked r) w1"
    by (rule run_session_start [of w "[''--id'', i, ''--disk'', d]"])
  have dir: "session_dir w1 256 = session_dir w 256" using w1(2) by (simp add: session_dir_def)
  have disk: "session_on_disk other w1" "alive w1 (s_pid other)" "h_dirs w1 (session_dir w1 256)"
    "h_listing w1 = h_listing w" "h_files w1 = h_files w"
    using assms(3,4,10) w1(3) dir by (auto simp: session_on_disk_def session_path_def)
  have real: "run_state (realpath_or q) w1 = (fst (run_state (realpath_or q) w), w1)" for q
    using w1(3) by (auto simp: realpath_or_def split: option.split)
  have "session_path w1 (s_id other) 320 = session_dir w1 256 @ ''/'' @ s_id other @ ''.json''"
    using assms(2,11) w1(2) by (simp add: session_path_def session_dir_def snprintf_def session_wf_def) arith
  then have saved: "h_files w1 (session_dir w1 256 @ ''/'' @ s_id other @ ''.json'') \<noteq> None"
    using disk(1) by (simp add: session_on_disk_def)
  let ?names = "filter (\<lambda>e. h_files w1 (session_dir w1 256 @ ''/'' @ e) \<noteq> None) (h_listing w1 (session_dir w1 256))"
  have names: "s_id other @ ''.json'' \<in> set ?names" "\<forall>e \<in> set ?names. length e < 69"
    using assms(12,13) disk(4) dir saved by auto
  obtain s where s: "run_state (disk_holder (fst (run_state (realpath_or d) w)) i ?names) w1 = (Some s, w1)"
    using disk_holder_finds [OF w1(1) assms(1,2) disk(1,2) assms(5,7,6) _ names] real assms(9) by auto
  let ?r = "default_opts\<lparr>o_iso := iso, o_disk := disk, o_plugin := plugin, o_prompt := prompt, o_timeout := 60000,
              o_id := i, o_disk := d\<rparr>"
  have "run_state (find_disk_holder i d) w1 = (Some s, w1)"
    using s disk(3) assms(8) real by (simp add: find_disk_holder_def opendir_def)
  then have "run_state (start_checked ?r) w1 = run_state (fail_with 1 i ''start'' None (locked_msg s) (- 1)) w1"
    by (simp add: start_checked_def Let_def)
  moreover have "run_state (start_checked ?r) w1 = (rc, w')"
    using run assms(14) unfolding scan_start by (simp add: qc_cmd_session_def subcommands_def)
  ultimately obtain out where "rc = 1" "w' = w1\<lparr>h_out := out\<rparr>"
    using fail_with_frame by metis
  then show ?thesis using w1(3) by auto
qed

theorem start_refuses_held_disk_witness:
  "fst (run_state (qc_cmd_session [''start'', ''--id'', ''other'', ''--disk'', ''/d.img'']) busy_host) = 1"
  using start_refuses_held_disk [OF demo_session_ok _ _ _ _ _ _ _ _ _ _ _ prod.collapse [symmetric],
      of busy_host "''other''" "''/d.img''"]
  by (simp add: demo_session_def session_on_disk_def session_path_def session_dir_def runtime_dir_def
      busy_host_def bare_host_def snprintf_def alive_def gone_def realpath_or_def)

text \<open>
  C17: When \<open>start\<close> succeeds, the session is there: its file holds the record made from the
  arguments, with the pid of the process that this command started, and a later command
  that loads it gets exactly this record.
\<close>

theorem start_makes_session:
  assumes "run_state (qc_cmd_session (''start'' # argv)) w = (0, w')"
  shows "\<exists>r f fs rt le.
    (\<exists>iso disk plugin prompt. scan_args start_val start_word
       (default_opts\<lparr>o_iso := iso, o_disk := disk, o_plugin := plugin, o_prompt := prompt,
                     o_timeout := 60000\<rparr>) argv = Go r) \<and>
    h_forks w = Some f # fs \<and> length le < 128 \<and>
    (let s = (new_session rt r)\<lparr>s_pid := sp_pid f, s_last_expect := le\<rparr> in
     session_on_disk s w' \<and>
     (clean_session s \<longrightarrow> session_wf s \<longrightarrow> run_state (load_session (s_id s)) w' = (Some s, w')))"
proof -
  obtain w1 iso disk plugin prompt where w1: "\<exists>env p. w1 = w\<lparr>h_env := env, h_paths := p\<rparr>"
    and run: "run_state (session_start argv) w = run_state
       (case scan_args start_val start_word
             (default_opts\<lparr>o_iso := iso, o_disk := disk, o_plugin := plugin, o_prompt := prompt,
                           o_timeout := 60000\<rparr>) argv of
          Help \<Rightarrow> give 2
        | Bad r \<Rightarrow> fail_with 2 (o_id r) ''start'' None ''unknown flag'' (- 1)
        | Go r \<Rightarrow> start_checked r) w1"
    by (rule run_session_start)
  have "run_state (session_start argv) w = (0, w')"
    using assms by (simp add: qc_cmd_session_def subcommands_def)
  then obtain r where r: "scan_args start_val start_word
       (default_opts\<lparr>o_iso := iso, o_disk := disk, o_plugin := plugin, o_prompt := prompt,
                     o_timeout := 60000\<rparr>) argv = Go r"
    and checked: "run_state (start_checked r) w1 = (0, w')"
    using run fail_with_frame(1) by (auto split: scanned.splits; fastforce)
  have "started (h_forks w1) r w'" by (rule start_checked_saves [OF checked])
  then obtain f fs rt le where f: "h_forks w1 = Some f # fs" "length le < 128"
    "session_on_disk ((new_session rt r)\<lparr>s_pid := sp_pid f, s_last_expect := le\<rparr>) w'"
    by (auto simp: started_def)
  have "h_forks w = Some f # fs" using f(1) w1 by auto
  then show ?thesis using r f(2,3) load_on_disk by (fastforce simp: Let_def)
qed

theorem start_makes_session_witness:
  "\<exists>rt r le w'. session_on_disk ((new_session rt r)\<lparr>s_pid := 77, s_last_expect := le\<rparr>) w' \<and>
     run_state (qc_cmd_session [''start'', ''--no-wait'']) ready_host = (0, w')"
proof -
  have "fst (run_state (qc_cmd_session [''start'', ''--no-wait'']) ready_host) = 0"
    using ready_host_starts by (simp add: qc_cmd_session_def subcommands_def)
  then obtain w' where w': "run_state (qc_cmd_session [''start'', ''--no-wait'']) ready_host = (0, w')"
    by (metis prod.collapse)
  show ?thesis
    using start_makes_session [OF w'] w' by (fastforce simp: ready_host_def Let_def)
qed

text \<open>
  C40: A QEMU whose plugin socket never appears is killed and reaped: \<open>start\<close> returns 4 after
  exactly ten seconds and nothing of it is left. This is so even if QEMU exits at once: its
  zombie answers \<open>kill(pid, 0)\<close>, so the branch for an early exit is never taken.
\<close>

theorem start_reaps_silent_qemu:
  assumes "h_forks w = Some f # fs" "sp_psock f = None" "0 < sp_pid f"
    and "s = new_session (runtime_dir w) r" "\<not> h_dirs w (s_plugin_sock s)"
    and "length (runtime_dir w) + length (o_id r) \<le> 230"
    and "run_state (start_boot r) w = (rc, w')"
  shows "rc = 4 \<and> \<not> alive w' (sp_pid f) \<and> h_hung w' = h_hung w \<and> h_clock w' = h_clock w + 10000"
proof -
  have d: "s_plugin_sock s \<noteq> s_qmp_sock s" by (rule sockets_distinct [OF assms(6,4)])
  let ?s = "s\<lparr>s_pid := sp_pid f\<rparr>"
  obtain w1 where run: "run_state (start_boot r) w = run_state (start_forked r (h_clock w) ?s) w1"
    and w1: "h_clock w1 = h_clock w" "h_hung w1 = h_hung w" "h_dirs w1 = h_dirs w"
      "h_files w1 = (h_files w)(s_plugin_sock s := None, s_qmp_sock s := None)"
      "h_procs w1 = (h_procs w)(sp_pid f \<mapsto> \<lparr>p_exit = map_option (\<lambda>d. h_clock w + int d) (sp_exit f),
                                              p_term = sp_term f, p_child = True\<rparr>)"
      "h_socks w1 (s_plugin_sock s) = None"
    by (rule run_start_boot [OF assms(1) _ assms(4)]) (use assms(2,3) d in auto)
  have c: "child (sp_pid f) w1" using w1(5) assms(3) by (simp add: child_def)
  have no: "h_files w1 (s_plugin_sock s) = None" "\<not> h_dirs w1 (s_plugin_sock s)"
    using w1(3,4) assms(5) by auto
  let ?w2 = "w1\<lparr>h_clock := h_clock w1 + 10000\<rparr>"
  have "run_state (await_plugin 100 (s_plugin_sock s) (sp_pid f)) w1 = (False, ?w2)"
    using await_plugin_in_vain [OF c, of "s_plugin_sock s" 100] no w1(6) by simp
  moreover have "\<not> sock_there ?w2 (s_plugin_sock s)" using w1(6) by (simp add: sock_there_def)
  ultimately have "run_state (start_forked r (h_clock w) ?s) w1 =
    run_state (do { sigkill (sp_pid f); waitpid (sp_pid f); dur \<leftarrow> since (h_clock w);
                    fail_with 4 (o_id r) ''start'' None ''plugin socket missing'' dur }) ?w2"
    using no by (simp add: start_forked_def exists_path_def)
  then show ?thesis
    using run assms(7) w1 by (auto simp: sigkill_def waitpid_def exit_by_def since_def now_ms_def
        fail_with_def print_result_def print_def alive_def split: option.splits)
qed

theorem start_reaps_silent_qemu_witness:
  "\<exists>w'. run_state (start_boot default_opts) (bare_host\<lparr>h_forks :=
       [Some \<lparr>sp_pid = 77, sp_exit = Some 0, sp_term = None, sp_psock = None, sp_qsock = None, sp_log = None\<rparr>]\<rparr>) = (4, w') \<and>
     h_clock w' = 10000"
  using start_reaps_silent_qemu [OF _ _ _ refl _ _ prod.collapse [symmetric], of "bare_host\<lparr>h_forks :=
       [Some \<lparr>sp_pid = 77, sp_exit = Some 0, sp_term = None, sp_psock = None, sp_qsock = None, sp_log = None\<rparr>]\<rparr>" _ _ default_opts]
  by (simp add: runtime_dir_def default_opts_def bare_host_def) (metis prod.collapse)

text \<open>
  A session that cannot be saved is lost while QEMU runs on. If the session file cannot
  be written, \<open>start\<close> fails with 1, but the process it has started is still there, and
  there is no session file by which any command could stop it.
\<close>

theorem start_unsaved_leaves_qemu:
  assumes "h_forks w = Some f # fs" "sp_psock f = Some 0" "0 < sp_pid f"
    and "length (runtime_dir w) + length (o_id r) \<le> 230"
    and "p = session_path w (snprintf 64 (o_id r)) 320" "\<not> h_writable w p" "h_files w p = None"
    and "run_state (start_boot r) w = (rc, w')"
  shows "rc = 1 \<and> alive w' (sp_pid f) \<and> h_files w' p = None"
proof -
  obtain s where s: "s = new_session (runtime_dir w) r" by simp
  have d: "s_plugin_sock s \<noteq> s_qmp_sock s" by (rule sockets_distinct [OF assms(4) s])
  let ?s = "s\<lparr>s_pid := sp_pid f\<rparr>" and ?i = "snprintf 64 (o_id r)"
  obtain w1 where run: "run_state (start_boot r) w = run_state (start_forked r (h_clock w) ?s) w1"
    and w1: "h_clock w1 = h_clock w" "h_env w1 = h_env w" "h_writable w1 = h_writable w"
      "h_files w1 = (h_files w)(s_plugin_sock s := None, s_qmp_sock s := None)"
      "h_procs w1 = (h_procs w)(sp_pid f \<mapsto> \<lparr>p_exit = map_option (\<lambda>d. h_clock w + int d) (sp_exit f),
                                              p_term = sp_term f, p_child = True\<rparr>)"
      "h_socks w1 (s_plugin_sock s) = Some (h_clock w)"
    by (rule run_start_boot [OF assms(1) _ s]) (use assms(2,3) d in auto)
  have "session_path w1 ?i 320 = session_path w ?i 320"
    using w1(2) by (simp add: session_path_def session_dir_def runtime_dir_def)
  then have u: "unsaved ?i p (sp_pid f) w1"
    using w1 assms(3,5-7) by (auto simp: unsaved_def child_def)
  have "sock_there w1 (s_plugin_sock s)" using w1(1,6) by (simp add: sock_there_def)
  moreover have "s_plugin_sock s \<noteq> []" using assms(4) by (simp add: s new_session_def snprintf_def)
  ultimately have ready: "run_state (start_ready r (h_clock w) ?s) w1 = (rc, w')"
    using start_forked_ok [of w1 ?s] run assms(8) by simp
  have "s_id ?s = ?i" by (simp add: s new_session_def)
  note doesD [OF does_ready_unsaved [OF this] u ready]
  then show ?thesis using child_alive by (auto simp: unsaved_def)
qed

theorem start_unsaved_leaves_qemu_witness:
  "alive (snd (run_state (start_boot default_opts) (ready_host\<lparr>h_writable := \<lambda>_. False\<rparr>))) 77"
  using start_unsaved_leaves_qemu [OF _ _ _ _ refl _ _ prod.collapse [symmetric],
      of "ready_host\<lparr>h_writable := \<lambda>_. False\<rparr>" _ _ default_opts]
  by (simp add: runtime_dir_def default_opts_def session_path_def session_dir_def snprintf_def ready_host_def bare_host_def)

end
