(* ===== verification/Session_Input.thy ===== *)
theory Session_Input
  imports Session_Safe
begin

text \<open>
  What the session commands type. The input that reaches a guest is what the log of the
  world records for its QMP socket; every step of \<open>session cmd\<close> but the typing itself is
  quiet, so what the guest gets is the line made of the words, and Enter.
\<close>

section \<open>What is typed\<close>

text \<open>The input that went to guests, in order: the QMP socket and the bytes sent on it.\<close>

fun inputs :: "event list \<Rightarrow> (string \<times> string) list" where
  "inputs [] = []"
| "inputs (E_input p s # es) = (p, s) # inputs es"
| "inputs (_ # es) = inputs es"

lemma inputs_append [simp]: "inputs (es @ es') = inputs es @ inputs es'"
  by (induction es rule: inputs.induct) simp_all

abbreviation quiet :: "(host, 'a) state \<Rightarrow> bool" where
  "quiet \<equiv> keeps (\<lambda>w. inputs (h_log w))"

lemma quiet_log: "keeps h_log m \<Longrightarrow> quiet m"
  by (rule keepsI) (metis keepsD)

lemma quiet_ask: "quiet (ask sock line n)"
  by (rule keepsI) (auto simp: run_ask split: list.splits option.splits if_splits)

lemma quiet_requests:
  "quiet (console_now psock n)" "quiet (wait_expect psock needle tmo)"
proof -
  show "quiet (console_now psock n)"
    unfolding console_now_def get_console_text_def plugin_request_def
    by (intro keeps_intros quiet_ask)
  have "does (\<lambda>w. inputs (h_log w) = l) (wait_expect psock needle tmo) (\<lambda>_ w. inputs (h_log w) = l)" for l
    using keeps_does [OF quiet_ask, of "\<lambda>x. x = l"] by (intro does_wait_expect) (auto simp: does_def sleep_def)
  then show "quiet (wait_expect psock needle tmo)"
    by (intro keepsI) (blast dest: doesD)
qed

lemma quiet_locks: "quiet (session_lock_release lk)" "quiet (session_lock_acquire i)"
  by (rule keepsI; auto simp: session_lock_release_def session_lock_acquire_def log_event_def split: if_splits)+

lemma run_lock: "h_lockable w (snprintf 320 (runtime_dir w @ ''/qemu-connect-sess-'' @ i @ ''.lock'')) \<Longrightarrow>
   \<exists>lk w1. run_state (session_lock_acquire i) w = (Some lk, w1) \<and> w1 = w\<lparr>h_log := h_log w @ [E_lock lk]\<rparr>"
  by (simp add: session_lock_acquire_def log_event_def)

text \<open>The words of a command line.\<close>

definition plain_word :: "string \<Rightarrow> bool" where
  "plain_word a \<longleftrightarrow> a \<noteq> [] \<and> hd a \<noteq> CHR ''-''"

fun joined :: "string list \<Rightarrow> string" where
  "joined [] = []"
| "joined [a] = a"
| "joined (a # as) = a @ SP # joined as"

lemma joined_snoc: "joined (as @ [a]) = (if as = [] then a else joined as @ SP # a)"
  by (induction as rule: joined.induct) simp_all

lemma joined_mono: "length (joined ps) \<le> length (joined (ps @ as))"
proof (induction as arbitrary: ps)
  case (Cons a as)
  show ?case using Cons.IH [of "ps @ [a]"] by (simp add: joined_snoc split: if_splits)
qed simp

lemma cmd_val_plain:
  assumes "plain_word a"
  shows "cmd_val a = None"
proof -
  have "a \<noteq> CHR ''-'' # s" for s using assms by (auto simp: plain_word_def)
  then show ?thesis by (simp add: cmd_val_def)
qed

lemma scan_word:
  assumes "plain_word a" "cmd_word a r = Go r'"
  shows "scan_args cmd_val cmd_word r (a # as) = scan_args cmd_val cmd_word r' as"
  using assms cmd_val_plain by (cases as) auto

lemma cmd_word_joins:
  assumes "plain_word a" "o_line r = joined pre" "joined pre = [] \<longleftrightarrow> pre = []"
    and "length (joined (pre @ [a])) \<le> 511"
  shows "cmd_word a r = Go (r\<lparr>o_line := joined (pre @ [a]), o_words := o_words r + 1\<rparr>)"
proof -
  have a: "a \<noteq> ''--no-wait''" "\<not> is_flag a" using assms(1) by (auto simp: plain_word_def is_flag_def)
  show ?thesis
  proof (cases "pre = []")
    case True
    then show ?thesis using a assms(2,4) by (simp add: cmd_word_def add_word_def)
  next
    case False
    then have "length (joined pre) + 1 + length a \<le> 511" using assms(4) by (simp add: joined_snoc)
    then show ?thesis using a assms(2,3) False by (simp add: cmd_word_def add_word_def joined_snoc)
  qed
qed

lemma scan_words:
  assumes "\<forall>a \<in> set as. plain_word a" "o_line r = joined pre" "\<forall>a \<in> set pre. plain_word a"
    and "length (joined (pre @ as)) \<le> 511"
  shows "scan_args cmd_val cmd_word r as =
    Go (r\<lparr>o_line := joined (pre @ as), o_words := o_words r + length as\<rparr>)"
  using assms
proof (induction as arbitrary: pre r)
  case Nil
  then show ?case by (cases r) simp
next
  case (Cons a as)
  let ?r = "r\<lparr>o_line := joined (pre @ [a]), o_words := o_words r + 1\<rparr>"
  have a: "plain_word a" using Cons.prems(1) by simp
  have "length (joined (pre @ [a])) \<le> 511"
    using joined_mono [of "pre @ [a]" as] Cons.prems(4) by simp
  moreover have "joined pre = [] \<longleftrightarrow> pre = []"
    using Cons.prems(3) by (cases pre rule: joined.cases) (auto simp: plain_word_def)
  ultimately have "cmd_word a r = Go ?r"
    using cmd_word_joins [OF a Cons.prems(2)] by simp
  moreover have "scan_args cmd_val cmd_word ?r as =
      Go (?r\<lparr>o_line := joined ((pre @ [a]) @ as), o_words := o_words ?r + length as\<rparr>)"
    using Cons.prems a by (intro Cons.IH) auto
  ultimately show ?case using scan_word [OF a] by simp
qed

lemma does_type_input:
  assumes "qc_qmp_connect (Some (s_qmp_sock s)) conn mem = Some q"
    and "qc_qmp_type_line (Some q) (Some line) 15 enter = (rc, Some q')"
  shows "does (\<lambda>w. inputs (h_log w) = l \<and> h_qmps w = (conn, mem) # qs) (type_input s line enter)
    (\<lambda>_ w. inputs (h_log w) = l @ [(s_qmp_sock s, q_sent q')])"
  using assms by (auto simp: does_def type_input_def qmp_open_def qc_qmp_close_def sleep_def log_event_def)

lemma does_cmd_body:
  assumes "qc_qmp_connect (Some (s_qmp_sock s)) conn mem = Some q"
    and "qc_qmp_type_line (Some q) (Some (o_line r)) 15 True = (rc, Some q')"
  shows "does (\<lambda>w. inputs (h_log w) = l \<and> h_qmps w = (conn, mem) # qs) (cmd_body r t0 lk s)
    (\<lambda>_ w. inputs (h_log w) = l @ [(s_qmp_sock s, q_sent q')])"
proof -
  let ?Q = "\<lambda>_ w. inputs (h_log w) = l @ [(s_qmp_sock s, q_sent q')]"
  have "keeps (\<lambda>w. (inputs (h_log w), h_qmps w)) (if o_prompt r \<noteq> [] then give (o_prompt r) else session_prompt s)"
    by (intro keeps_intros; simp)
  from keeps_does [OF this, of "\<lambda>x. x = (l, (conn, mem) # qs)"]
  have prompt: "does (\<lambda>w. inputs (h_log w) = l \<and> h_qmps w = (conn, mem) # qs)
    (if o_prompt r \<noteq> [] then give (o_prompt r) else session_prompt s)
    (\<lambda>_ w. inputs (h_log w) = l \<and> h_qmps w = (conn, mem) # qs)" by simp
  have after: "does (\<lambda>w. inputs (h_log w) = l @ [(s_qmp_sock s, q_sent q')]) m ?Q" if "quiet m" for m :: "(host, int) state"
    using keeps_does [OF that, of "\<lambda>x. x = l @ [(s_qmp_sock s, q_sent q')]"] .
  show ?thesis
    unfolding cmd_body_def Let_def fail_locked_def
    by (rule does_bind [OF prompt], rule does_bind [OF does_type_input [OF assms]], rule after)
       (intro keeps_bind keeps_if quiet_requests quiet_locks; (intro quiet_log keeps_intros; simp))
qed

definition greeting_msg :: string where
  \<open>greeting_msg = ''{"QMP":{}}''\<close>

lemma greeting_ok: "line_ok greeting_msg" "has greeting_msg (quoted ''QMP'')"
  by (simp_all add: line_ok_def has_def quoted_def greeting_msg_def)

text \<open>A peer that answers one key at once and the next one after an event.\<close>

lemma demo_peer:
  "good_peer 1 (incoming return_msg @ incoming event_msg @ incoming return_msg) (incoming event_msg @ incoming return_msg)"
  "good_peer 1 (incoming event_msg @ incoming return_msg) []"
proof -
  let ?two = "incoming event_msg @ incoming return_msg"
  have "\<exists>evs l ins'. incoming return_msg @ ?two = concat (map incoming evs) @ incoming l @ ins' \<and> ins' = ?two \<and>
      (\<forall>e \<in> set evs. line_ok e \<and> is_event e) \<and> line_ok l \<and> \<not> is_event l \<and> response_class l = Some 0"
    using demo_lines by (intro exI [of _ "[]"] exI [of _ return_msg] exI [of _ ?two]) simp
  then show "good_peer 1 (incoming return_msg @ ?two) ?two" by (simp add: One_nat_def)
  have "\<exists>evs l ins'. ?two = concat (map incoming evs) @ incoming l @ ins' \<and> ins' = [] \<and>
      (\<forall>e \<in> set evs. line_ok e \<and> is_event e) \<and> line_ok l \<and> \<not> is_event l \<and> response_class l = Some 0"
    using demo_lines by (intro exI [of _ "[event_msg]"] exI [of _ return_msg] exI [of _ "[]"]) simp
  then show "good_peer 1 ?two []" by (simp add: One_nat_def)
qed

section \<open>Properties\<close>

text \<open>
  C7: \<open>session cmd\<close> types its words. On a live session whose QEMU answers, exactly the words
  joined by blanks reach the guest's keyboard, each character as its key of the US layout,
  in order, followed by Enter, on one QMP connection; and nothing else is typed, whatever
  the wait for the prompt and the requests to the plugin give.
\<close>

theorem cmd_types_its_words:
  assumes "as \<noteq> []" "\<forall>a \<in> set as. plain_word a" "length (joined as) \<le> 511"
    and "clean_session s" "session_wf s" "session_on_disk s w" "s_id s = ''default''" "alive w (s_pid s)"
    and "h_lockable w (snprintf 320 (runtime_dir w @ ''/qemu-connect-sess-default.lock''))"
    and "h_qmps w = (conn, mem) # qs" "qc_qmp_connect (Some (s_qmp_sock s)) conn mem = Some q"
    and "q_writes q = []" "\<forall>c \<in> set (joined as). map_char (int (ord c)) 32 \<noteq> None"
    and "good_peer (length (joined as)) (q_in q) mid" "good_peer 1 mid rest"
    and "run_state (qc_cmd_session (''cmd'' # as)) w = (rc, w')"
  shows "inputs (h_log w') = inputs (h_log w) @
    [(s_qmp_sock s, q_sent q @ concat (map (\<lambda>c. char_cmd c @ [LF]) (joined as)) @ key_cmd ''ret'' @ [LF])]"
proof -
  let ?r = "default_opts\<lparr>o_line := joined as, o_words := length as\<rparr>"
  have "scan_args cmd_val cmd_word default_opts as = Go ?r"
    using scan_words [OF assms(2), of default_opts "[]"] assms(3) by (simp add: default_opts_def)
  then have cmd: "run_state (locked_session ''default'' ''cmd'' (cmd_body ?r)) w = (rc, w')"
    using assms(1,16) by (simp add: qc_cmd_session_def subcommands_def session_cmd_def default_opts_def)
  obtain lk where lk: "run_state (session_lock_acquire ''default'') w = (Some lk, w\<lparr>h_log := h_log w @ [E_lock lk]\<rparr>)"
    using run_lock [of w "''default''"] assms(9) by auto
  let ?w = "w\<lparr>h_log := h_log w @ [E_lock lk]\<rparr>"
  have "session_on_disk s ?w" using assms(6) by (simp add: session_on_disk_def session_path_def session_dir_def)
  then have "run_state (load_session ''default'') ?w = (Some s, ?w)"
    using load_on_disk [OF assms(4,5)] assms(7) by metis
  then have "run_state (require_session ''default'' ''cmd'') ?w = (Some s, ?w)"
    using assms(8) by (simp add: require_session_def pid_alive_def)
  then have "run_state (cmd_body ?r (h_clock w) lk s) ?w = (rc, w')"
    using cmd lk by (simp add: locked_session_def now_ms_def)
  moreover have "inputs (h_log ?w) = inputs (h_log w) \<and> h_qmps ?w = (conn, mem) # qs"
    using assms(10) by simp
  moreover have "qc_qmp_type_line (Some q) (Some (o_line ?r)) 15 True = (0, Some (q\<lparr>q_in := rest,
      q_sent := q_sent q @ concat (map (\<lambda>c. char_cmd c @ [LF]) (joined as)) @ key_cmd ''ret'' @ [LF],
      q_slept := q_slept q @ replicate (length (joined as) + 1) 15\<rparr>))"
    using type_line_sends [OF assms(12-15), of 15] by simp
  ultimately show ?thesis
    using doesD [OF does_cmd_body [OF assms(11)]] by fastforce
qed

theorem cmd_types_its_words_witness:
  "\<exists>q. inputs (h_log (snd (run_state (qc_cmd_session [''cmd'', ''A'']) (busy_host\<lparr>h_qmps := [(Some
     \<lparr>q_in = incoming greeting_msg @ incoming return_msg @ incoming return_msg @ incoming event_msg @ incoming return_msg,
      q_writes = [], q_sent = [], q_slept = []\<rparr>, True)]\<rparr>)))) =
   [(''/tmp/q.qmp'', q @ char_cmd (CHR ''A'') @ LF # key_cmd ''ret'' @ [LF])]"
proof -
  let ?two = "incoming event_msg @ incoming return_msg"
  let ?c = "\<lparr>q_in = incoming greeting_msg @ incoming return_msg @ incoming return_msg @ ?two,
             q_writes = [], q_sent = [], q_slept = []\<rparr>"
  let ?w = "busy_host\<lparr>h_qmps := [(Some ?c, True)]\<rparr>"
  let ?q = "?c\<lparr>q_in := incoming return_msg @ ?two, q_sent := capabilities_cmd @ [LF]\<rparr>"
  have sock: "s_qmp_sock demo_session = ''/tmp/q.qmp''" by (simp add: demo_session_def)
  have q: "qc_qmp_connect (Some (s_qmp_sock demo_session)) (Some ?c) True = Some ?q"
    using connect_handshake [of "s_qmp_sock demo_session" ?c greeting_msg "[]" return_msg "incoming return_msg @ ?two" 0]
      demo_lines greeting_ok sock by simp
  have p1: "good_peer (length (joined [''A''])) (q_in ?q) ?two" using demo_peer(1) by simp
  have disk: "session_on_disk demo_session ?w" "alive ?w (s_pid demo_session)"
    "h_lockable ?w (snprintf 320 (runtime_dir ?w @ ''/qemu-connect-sess-default.lock''))"
    by (simp_all add: session_on_disk_def busy_host_def demo_session_def session_path_def session_dir_def
      runtime_dir_def snprintf_def bare_host_def alive_def gone_def)
  have "inputs (h_log ?w) = []" by (simp add: busy_host_def bare_host_def)
  then show ?thesis
    using cmd_types_its_words [OF _ _ _ demo_session_ok disk(1) _ disk(2,3) _ _ _ _ _ _ prod.collapse [symmetric],
        of "[''A'']" "Some ?c" True "[]", OF _ _ _ _ _ q _ _ p1 demo_peer(2)] sock
    by (auto simp: plain_word_def map_char_def demo_session_def)
qed

end
