(* ===== verification/Run.thy ===== *)
theory Run
  imports Session_Start Session_Input
begin

text \<open>
  cli/run.c: \<open>qemu-connect run\<close> and \<open>qemu-connect guest\<close> start QEMU with the plugin, work off a
  list of steps (wait for a text, type a line), print one line of JSON with the console, and
  end QEMU again. The copies in \<open>run.c\<close> of the plugin request, of \<open>wait_expect\<close> and of the
  text functions are those of \<open>session.c\<close>, and modelled there. Messages on stderr are left out.
\<close>

section \<open>Steps\<close>

datatype step_kind = STEP_EXPECT | STEP_TYPE

record step_t =
  st_kind :: step_kind
  st_arg :: string
  st_ok :: bool

abbreviation (input) MAX_STEPS :: nat where "MAX_STEPS \<equiv> 64"

section \<open>Whether a session holds the disk\<close>

definition real_or_copy :: "string \<Rightarrow> (host, string) state" where
  "real_or_copy path = (if path = [] then give [] else realpath_or path)"

text \<open>What follows the first colon after a key, and the string or the number there.\<close>

definition crude_after :: "string \<Rightarrow> string \<Rightarrow> string option" where
  "crude_after buf key =
     (case strstr buf (quoted key) of
        None \<Rightarrow> None
      | Some p \<Rightarrow> (case dropWhile (\<lambda>c. c \<noteq> CHR '':'') p of [] \<Rightarrow> None | _ # q \<Rightarrow> Some q))"

definition crude_string :: "string \<Rightarrow> string \<Rightarrow> nat \<Rightarrow> string" where
  "crude_string buf key n =
     (case crude_after buf key of
        None \<Rightarrow> []
      | Some q \<Rightarrow>
          (case dropWhile blank q of
             [] \<Rightarrow> []
           | c # r \<Rightarrow> if c = DQ then take (n - 1) (takeWhile (\<lambda>c. c \<noteq> DQ) r) else []))"

definition crude_long :: "string \<Rightarrow> string \<Rightarrow> int" where
  "crude_long buf key = (case crude_after buf key of None \<Rightarrow> 0 | Some q \<Rightarrow> strtol10 q)"

text \<open>
  \<open>kill(pid, 0)\<close> succeeds or fails with EPERM: 0 and -1 name the own process group and all
  processes; there are no other groups in the world.
\<close>

definition kill0 :: "host \<Rightarrow> int \<Rightarrow> bool" where
  "kill0 w pid \<longleftrightarrow> pid = 0 \<or> pid = - 1 \<or> alive w pid"

text \<open>The loop over the session files: the name and the pid of the holder.\<close>

fun held_loop :: "string \<Rightarrow> string \<Rightarrow> string list \<Rightarrow> (host, (string \<times> int) option) state" where
  "held_loop dir want [] = give None"
| "held_loop dir want (name # names) =
     (if length name < 6 \<or> \<not> suffix ''.json'' name then held_loop dir want names
      else do {
        f \<leftarrow> asks (\<lambda>w. h_files w (snprintf 320 (dir @ ''/'' @ name)));
        (case f of
           None \<Rightarrow> held_loop dir want names
         | Some content \<Rightarrow> do {
             let buf = c_str (take 4095 content);
             let disk_val = crude_string buf ''disk'' PATH_MAX;
             let id_val = crude_string buf ''id'' 64;
             let pid_val = crude_long buf ''pid'';
             let pid = sint (word_of_int pid_val :: u32);
             if disk_val = [] then held_loop dir want names
             else do {
               have \<leftarrow> real_or_copy disk_val;
               there \<leftarrow> asks (\<lambda>w. kill0 w pid);
               if have \<noteq> want \<or> 0 < pid_val \<and> \<not> there then held_loop dir want names
               else give (Some (if id_val \<noteq> [] then id_val else snprintf 64 name, pid)) } }) })"

definition disk_held_by_session :: "string \<Rightarrow> (host, (string \<times> int) option) state" where
  "disk_held_by_session disk =
     (if disk = [] then give None
      else do {
        want \<leftarrow> real_or_copy disk;
        if want = [] then give None
        else do {
          dir \<leftarrow> asks (\<lambda>w. session_dir w 256);
          d \<leftarrow> opendir dir;
          (case d of None \<Rightarrow> give None | Some names \<Rightarrow> held_loop dir want names) } })"

text \<open>\<open>fgets\<close> with a buffer of 512 bytes.\<close>

definition lock_line :: "string \<Rightarrow> bool" where
  "lock_line line \<longleftrightarrow> strstr line ''write'' \<noteq> None \<and> strstr line ''lock'' \<noteq> None \<or>
     strstr line ''Failed to get'' \<noteq> None \<and> strstr line ''lock'' \<noteq> None"

definition log_mentions_disk_lock :: "string \<Rightarrow> (host, bool) state" where
  "log_mentions_disk_lock logpath = do {
     log \<leftarrow> asks (\<lambda>w. h_logs w logpath);
     give (case log of
             None \<Rightarrow> False
           | Some l \<Rightarrow> list_ex (\<lambda>line. lock_line (c_str line)) (fgets_all 511 511 l [])) }"

section \<open>The result lines\<close>

definition locked_report :: "string \<Rightarrow> int \<Rightarrow> string \<Rightarrow> string option \<Rightarrow> string" where
  \<open>locked_report holder pid disk log =
     ''{"ok":false,"exit_code":3,"error":"disk locked by session '' @ holder @ ''","session_id":"'' @ holder @
     ''","pid":'' @ dec_int pid @ '',"disk":'' @ jp disk @
     (case log of None \<Rightarrow> [] | Some l \<Rightarrow> '',"log":'' @ jp l) @ ''}'' @ [LF]\<close>

definition image_locked_report :: "string \<Rightarrow> string \<Rightarrow> string" where
  \<open>image_locked_report disk log =
     ''{"ok":false,"exit_code":3,"error":"disk image locked by another QEMU process","disk":'' @ jp disk @
     '',"log":'' @ jp log @ ''}'' @ [LF]\<close>

definition early_report :: "string \<Rightarrow> string" where
  \<open>early_report log =
     ''{"ok":false,"exit_code":3,"error":"QEMU exited early","log":'' @ jp log @ ''}'' @ [LF]\<close>

text \<open>The arguments of the steps: only quotes and backslashes are escaped.\<close>

definition step_arg :: "string \<Rightarrow> string" where
  "step_arg s = concat (map (\<lambda>c. if c = DQ \<or> c = BS then [BS, c] else [c]) s)"

definition step_report :: "step_t \<Rightarrow> string" where
  \<open>step_report s =
     ''{"op":"'' @ (if st_kind s = STEP_EXPECT then ''expect'' else ''type'') @ ''","arg":"'' @
     step_arg (st_arg s) @ ''","ok":'' @ json_bool (st_ok s) @ ''}''\<close>

fun steps_report :: "step_t list \<Rightarrow> string" where
  "steps_report [] = []"
| "steps_report [s] = step_report s"
| "steps_report (s # ss) = step_report s @ '','' @ steps_report ss"

definition run_report :: "int \<Rightarrow> int \<Rightarrow> step_t list \<Rightarrow> string \<Rightarrow> string" where
  \<open>run_report rc dur steps console =
     ''{"ok":'' @ json_bool (rc = 0) @ '',"duration_ms":'' @ dec_int dur @ '',"steps":['' @
     steps_report steps @ ''],"exit_code":'' @ dec_int rc @ '',"console":'' @ jp console @ ''}'' @ [LF]\<close>

section \<open>Waiting for QEMU\<close>

datatype sock_wait = Sock_There | Sock_Missing | Qemu_Exited

fun await_sock :: "nat \<Rightarrow> string \<Rightarrow> int \<Rightarrow> (host, sock_wait) state" where
  "await_sock 0 psock pid = give Sock_Missing"
| "await_sock (Suc k) psock pid = do {
     there \<leftarrow> exists_path psock;
     if there then give Sock_There
     else do {
       gone \<leftarrow> reaped pid;
       if gone then give Qemu_Exited else do { sleep 100; await_sock k psock pid } } }"

fun await_qmp :: "nat \<Rightarrow> string \<Rightarrow> (host, qc_qmp option) state" where
  "await_qmp 0 qsock = give None"
| "await_qmp (Suc k) qsock = do {
     there \<leftarrow> exists_path qsock;
     q \<leftarrow> (if there then qmp_open qsock else give None);
     if q \<noteq> None then give q else do { sleep 100; await_qmp k qsock } }"

text \<open>Why QEMU has exited before its socket was there.\<close>

definition early_exit :: "string option \<Rightarrow> string \<Rightarrow> (host, int) state" where
  "early_exit disk logpath = do {
     locked \<leftarrow> log_mentions_disk_lock logpath;
     holder \<leftarrow> (if locked \<and> disk \<noteq> None then disk_held_by_session (the disk) else give None);
     let d = (case disk of None \<Rightarrow> [] | Some d \<Rightarrow> d);
     print (if locked
            then (case holder of
                    Some (i, pid) \<Rightarrow> locked_report i pid d (Some logpath)
                  | None \<Rightarrow> image_locked_report d logpath)
            else early_report logpath);
     give 3 }"

text \<open>The end of QEMU: five seconds to quit, with a SIGTERM after four and a SIGKILL after 4.5.\<close>

fun wait_exit :: "nat \<Rightarrow> int \<Rightarrow> (host, unit) state" where
  "wait_exit 0 pid = give ()"
| "wait_exit (Suc k) pid = do {
     gone \<leftarrow> reaped pid;
     if gone then give ()
     else do {
       (if k = 9 then sigterm pid else give ());
       (if k = 4 then sigkill pid else give ());
       sleep 100;
       wait_exit k pid } }"

section \<open>The run\<close>

text \<open>
  The connection stays open during the steps; what a line took and sent reaches the world
  when it has been typed.
\<close>

definition qmp_flush :: "string \<Rightarrow> qc_qmp option \<Rightarrow> (host, qc_qmp option) state" where
  "qmp_flush p q = do {
     qc_qmp_close p q;
     give (map_option (\<lambda>q. q\<lparr>q_sent := [], q_slept := []\<rparr>) q) }"

fun step_loop :: "string \<Rightarrow> string \<Rightarrow> int \<Rightarrow> int \<Rightarrow> step_t list \<Rightarrow> qc_qmp option \<Rightarrow>
    (host, int \<times> step_t list \<times> qc_qmp option) state" where
  "step_loop psock qsock tmo pid [] q = give (0, [], q)"
| "step_loop psock qsock tmo pid (s # ss) q = do {
     crashed \<leftarrow> reaped pid;
     if crashed then give (3, s # ss, q)
     else do {
       (ok, q) \<leftarrow>
         (if st_kind s = STEP_EXPECT then do {
            r \<leftarrow> wait_expect psock (st_arg s) tmo;
            give (r = 0, q) }
          else do {
            let (r, q) = qc_qmp_type_line q (Some (st_arg s)) 15 True;
            q \<leftarrow> qmp_flush qsock q;
            (if r = 0 then sleep 200 else give ());
            give (r = 0, q) });
       if \<not> ok then give (1, s # ss, q)
       else do {
         (rc, ss, q) \<leftarrow> step_loop psock qsock tmo pid ss q;
         give (rc, s\<lparr>st_ok := True\<rparr> # ss, q) } } }"

definition ping_cmd :: string where
  \<open>ping_cmd = ''{"cmd":"ping"}''\<close>

definition ping_ok :: "string \<Rightarrow> (host, bool) state" where
  \<open>ping_ok psock = do {
     r \<leftarrow> plugin_request psock ping_cmd 256;
     give (case r of None \<Rightarrow> False | Some buf \<Rightarrow> strstr (c_str buf) ''"ok":true'' \<noteq> None) }\<close>

record run_opts =
  r_iso :: "string option"
  r_disk :: "string option"
  r_plugin :: string
  r_mem :: string
  r_qemu :: string
  r_timeout :: int
  r_steps :: "step_t list"
  r_show :: bool
  r_lines :: int

text \<open>After the steps: the console, the end of QEMU, the report.\<close>

definition run_end :: "run_opts \<Rightarrow> string \<Rightarrow> string \<Rightarrow> int \<Rightarrow> int \<Rightarrow> int \<times> step_t list \<times> qc_qmp option \<Rightarrow> (host, int) state" where
  "run_end r psock qsock t0 pid x = do {
     let (rc, steps, q) = x;
     txt \<leftarrow> console_now psock TEXT_MAX;
     dur \<leftarrow> since t0;
     let (_, q) = qc_qmp_quit q;
     qc_qmp_close qsock q;
     wait_exit 50 pid;
     waitpid pid;
     unlink psock;
     unlink qsock;
     print (run_report rc dur steps (console_tail_nonblank (Some txt) TEXT_MAX (r_lines r)));
     give rc }"

text \<open>From the open connection on.\<close>

definition run_steps :: "run_opts \<Rightarrow> string \<Rightarrow> string \<Rightarrow> int \<Rightarrow> int \<Rightarrow> qc_qmp option \<Rightarrow> (host, int) state" where
  "run_steps r psock qsock t0 pid q = do {
     pong \<leftarrow> (if r_steps r = [] then ping_ok psock else give True);
     x \<leftarrow> (if pong then step_loop psock qsock (r_timeout r) pid (r_steps r) q else give (4, [], q));
     run_end r psock qsock t0 pid x }"

text \<open>From the fork on.\<close>

definition run_forked :: "run_opts \<Rightarrow> string \<Rightarrow> string \<Rightarrow> string \<Rightarrow> int \<Rightarrow> int \<Rightarrow> (host, int) state" where
  "run_forked r psock qsock logpath t0 pid = do {
     x \<leftarrow> await_sock 100 psock pid;
     (case x of
        Qemu_Exited \<Rightarrow> early_exit (r_disk r) logpath
      | Sock_Missing \<Rightarrow> do { sigkill pid; waitpid pid; give 4 }
      | Sock_There \<Rightarrow> do {
          q \<leftarrow> await_qmp 50 qsock;
          if q = None then do { sigkill pid; waitpid pid; unlink psock; unlink qsock; give 4 }
          else run_steps r psock qsock t0 pid q }) }"

definition run_path :: "host \<Rightarrow> string \<Rightarrow> string" where
  "run_path w ext = snprintf 256 (runtime_dir w @ ''/qemu-connect-run-'' @ dec_int (h_self w) @ ext)"

definition run_boot :: "run_opts \<Rightarrow> (host, int) state" where
  "run_boot r = do {
     psock \<leftarrow> asks (\<lambda>w. run_path w ''.sock'');
     qsock \<leftarrow> asks (\<lambda>w. run_path w ''.qmp'');
     logpath \<leftarrow> asks (\<lambda>w. run_path w ''.log'');
     unlink psock;
     unlink qsock;
     t0 \<leftarrow> now_ms;
     pid \<leftarrow> start_qemu (qemu_args (r_qemu r) (r_mem r) 512 (the (r_iso r)) (r_disk r)
              (snprintf 512 (r_plugin r @ '',socket='' @ psock))
              (snprintf 320 (''unix:'' @ qsock @ '',server,nowait'')))
            psock qsock logpath;
     if pid < 0 then give 3
     else run_forked r psock qsock logpath t0 pid }"

definition run_session :: "run_opts \<Rightarrow> (host, int) state" where
  "run_session r = do {
     w \<leftarrow> State_Monad.get;
     plugin_ok \<leftarrow> exists_path (r_plugin r);
     if \<not> is_file w (r_iso r) then give 2
     else if r_disk r \<noteq> None \<and> \<not> is_file w (r_disk r) then give 2
     else if \<not> plugin_ok then give 4
     else do {
       holder \<leftarrow> (case r_disk r of None \<Rightarrow> give None | Some d \<Rightarrow> disk_held_by_session d);
       (case holder of
          Some (i, pid) \<Rightarrow> do {
            print (locked_report i pid (the (r_disk r)) None);
            give 3 }
        | None \<Rightarrow> run_boot r) } }"

section \<open>The commands\<close>

definition add_step :: "step_kind \<Rightarrow> string \<Rightarrow> run_opts \<Rightarrow> run_opts" where
  "add_step kind arg r =
     (if length (r_steps r) < MAX_STEPS
      then r\<lparr>r_steps := r_steps r @ [\<lparr>st_kind = kind, st_arg = arg, st_ok = False\<rparr>]\<rparr>
      else r)"

definition run_val :: "string \<Rightarrow> (string \<Rightarrow> run_opts \<Rightarrow> run_opts) option" where
  "run_val = map_of
     [(''--iso'', \<lambda>v r. r\<lparr>r_iso := Some v\<rparr>), (''--disk'', \<lambda>v r. r\<lparr>r_disk := Some v\<rparr>),
      (''--plugin'', \<lambda>v r. r\<lparr>r_plugin := v\<rparr>), (''--mem'', \<lambda>v r. r\<lparr>r_mem := v\<rparr>),
      (''--qemu'', \<lambda>v r. r\<lparr>r_qemu := v\<rparr>),
      (''--timeout'', \<lambda>v r. r\<lparr>r_timeout := (if atoi v \<le> 0 then 60000 else atoi v)\<rparr>),
      (''--expect'', add_step STEP_EXPECT), (''--type'', add_step STEP_TYPE),
      (''--console-lines'', \<lambda>v r. r\<lparr>r_lines := (if atoi v < 0 then 0 else atoi v)\<rparr>)]"

definition run_word :: "string \<Rightarrow> run_opts \<Rightarrow> run_opts scanned" where
  "run_word a r =
     (if a = ''--show'' \<or> a = ''--console'' then Go (r\<lparr>r_show := True\<rparr>)
      else if a = ''--keep-qmp'' then Go r
      else if a = ''-h'' \<or> a = ''--help'' then Help
      else Bad r)"

definition default_run :: "string \<Rightarrow> run_opts" where
  "default_run plugin =
     \<lparr>r_iso = None, r_disk = None, r_plugin = plugin, r_mem = ''512M'', r_qemu = ''qemu-system-x86_64'',
      r_timeout = 60000, r_steps = [], r_show = False, r_lines = 0\<rparr>"

definition qc_cmd_run :: "string list \<Rightarrow> (host, int) state" where
  "qc_cmd_run argv = do {
     plugin \<leftarrow> qc_default_plugin;
     (case scan_args run_val run_word (default_run plugin) argv of
        Help \<Rightarrow> give 2
      | Bad r \<Rightarrow> give 2
      | Go r \<Rightarrow> if r_iso r = None then give 2 else run_session r) }"

text \<open>The flags of \<open>guest\<close> stand before the command words: the options, the prompt, the words.\<close>

definition guest_val :: "string \<Rightarrow> (string \<Rightarrow> run_opts \<times> string \<Rightarrow> run_opts \<times> string) option" where
  "guest_val = map_of
     [(''--iso'', \<lambda>v (r, p). (r\<lparr>r_iso := Some v\<rparr>, p)), (''--disk'', \<lambda>v (r, p). (r\<lparr>r_disk := Some v\<rparr>, p)),
      (''--plugin'', \<lambda>v (r, p). (r\<lparr>r_plugin := v\<rparr>, p)), (''--prompt'', \<lambda>v (r, p). (r, v)),
      (''--console-lines'', \<lambda>v (r, p). (r\<lparr>r_lines := (if atoi v < 0 then 0 else atoi v)\<rparr>, p)),
      (''--timeout'', \<lambda>v (r, p). (r\<lparr>r_timeout := atoi v\<rparr>, p))]"

fun guest_flags :: "run_opts \<times> string \<Rightarrow> string list \<Rightarrow> ((run_opts \<times> string) \<times> string list) option" where
  "guest_flags x [] = Some (x, [])"
| "guest_flags x (a # as) =
     (if \<not> is_flag a then Some (x, a # as)
      else (case (guest_val a, as) of
              (Some f, v # as) \<Rightarrow> guest_flags (f v x) as
            | _ \<Rightarrow> None))"

definition guest_steps :: "string \<Rightarrow> string list \<Rightarrow> step_t list" where
  "guest_steps prompt words =
     \<lparr>st_kind = STEP_EXPECT, st_arg = prompt, st_ok = False\<rparr> #
     (if words = [] then []
      else [\<lparr>st_kind = STEP_TYPE, st_arg = foldl add_word [] words, st_ok = False\<rparr>,
            \<lparr>st_kind = STEP_EXPECT, st_arg = prompt, st_ok = False\<rparr>])"

definition qc_cmd_guest :: "string list \<Rightarrow> (host, int) state" where
  "qc_cmd_guest argv = do {
     iso \<leftarrow> qc_default_iso;
     disk \<leftarrow> qc_default_disk;
     plugin \<leftarrow> qc_default_plugin;
     prompt \<leftarrow> default_shell_prompt;
     (case guest_flags ((default_run plugin)\<lparr>r_iso := Some iso, r_disk := Some disk, r_show := True\<rparr>, prompt) argv of
        None \<Rightarrow> give 2
      | Some ((r, prompt), words) \<Rightarrow> run_session (r\<lparr>r_steps := guest_steps prompt words\<rparr>)) }"

end
