(* ===== verification/Run_Safe.thy ===== *)
theory Run_Safe
  imports Run
begin

text \<open>
  What \<open>run\<close> and \<open>guest\<close> guarantee: no QEMU is left behind on any path, the report names the
  steps that were done, and a disk that a live session holds is refused. The reader of
  session files in \<open>run.c\<close> agrees with the writer in \<open>session.c\<close>.
\<close>

section \<open>No process is left\<close>

text \<open>
  Before the end of a run, nothing but the process \<open>pid\<close> has been added to the table \<open>ps\<close>;
  \<open>doomed\<close>: that process exits.
\<close>

definition owns :: "(int \<rightharpoonup> proc) \<Rightarrow> bool \<Rightarrow> int \<Rightarrow> host \<Rightarrow> bool" where
  "owns ps hung pid w \<longleftrightarrow> ps pid = None \<and> h_hung w = hung \<and>
     (\<exists>op. h_procs w = ps(pid := op) \<and> (\<forall>p. op = Some p \<longrightarrow> p_child p))"

definition doomed :: "int \<Rightarrow> host \<Rightarrow> bool" where
  "doomed pid w \<longleftrightarrow> (\<forall>p. h_procs w pid = Some p \<longrightarrow> p_exit p \<noteq> None)"

definition left_alone :: "(int \<rightharpoonup> proc) \<Rightarrow> bool \<Rightarrow> host \<Rightarrow> bool" where
  "left_alone ps hung w \<longleftrightarrow> h_procs w = ps \<and> h_hung w = hung"

lemma does_owns: "keeps (\<lambda>w. (h_procs w, h_hung w)) m \<Longrightarrow> does (owns ps hung pid) m (\<lambda>_. owns ps hung pid)"
  by (rule doesI) (auto dest!: keepsD simp: owns_def)

lemma does_left: "keeps (\<lambda>w. (h_procs w, h_hung w)) m \<Longrightarrow> does (left_alone ps hung) m (\<lambda>_. left_alone ps hung)"
  by (rule doesI) (auto dest!: keepsD simp: left_alone_def)

lemma does_reaped:
  "does (\<lambda>w. owns ps hung pid w \<and> R w) (reaped pid)
     (\<lambda>r w. owns ps hung pid w \<and> (r \<longrightarrow> left_alone ps hung w) \<and> (\<not> r \<longrightarrow> R w))"
  by (auto simp: does_def reaped_def owns_def left_alone_def fun_upd_idem split: option.splits
      intro: exI [of _ None])

lemma left_owns: "left_alone ps hung w \<Longrightarrow> ps pid = None \<Longrightarrow> owns ps hung pid w \<and> doomed pid w"
  by (auto simp: left_alone_def owns_def doomed_def fun_upd_idem intro: exI [of _ None])

lemma does_signals:
  "does (owns ps hung pid) (sigkill pid) (\<lambda>_ w. owns ps hung pid w \<and> doomed pid w)"
  "does (\<lambda>w. owns ps hung pid w \<and> (b \<longrightarrow> doomed pid w)) (sigterm pid) (\<lambda>_ w. owns ps hung pid w \<and> (b \<longrightarrow> doomed pid w))"
  by (auto simp: does_def sigkill_def sigterm_def owns_def doomed_def exit_by_def map_option_case split: option.splits)

lemma does_waitpid:
  "does (\<lambda>w. owns ps hung pid w \<and> doomed pid w) (waitpid pid) (\<lambda>_. left_alone ps hung)"
  by (auto simp: does_def waitpid_def owns_def doomed_def left_alone_def fun_upd_idem split: option.splits)

text \<open>Whatever QEMU does, the loop at the end has killed it when it gives up.\<close>

lemma does_wait_exit:
  "does (\<lambda>w. owns ps hung pid w \<and> (k < 5 \<longrightarrow> doomed pid w)) (wait_exit k pid)
     (\<lambda>_ w. owns ps hung pid w \<and> doomed pid w)"
proof (induction k)
  case 0
  then show ?case by (simp add: does_def)
next
  case (Suc k)
  let ?I = "\<lambda>b w. owns ps hung pid w \<and> (b \<longrightarrow> doomed pid w)"
  have term_: "does (?I (Suc k < 5)) (if k = 9 then sigterm pid else give ()) (\<lambda>_. ?I (Suc k < 5))"
    using does_signals(2) [of ps hung pid "Suc k < 5"] by (auto simp: does_def)
  have kill: "does (?I (Suc k < 5)) (if k = 4 then sigkill pid else give ()) (\<lambda>_. ?I (k < 5))"
    using does_signals(1) [of ps hung pid] by (auto simp: does_def split: prod.splits)
  have sleep: "does (?I (k < 5)) (sleep 100) (\<lambda>_. ?I (k < 5))"
    by (auto simp: does_def sleep_def owns_def doomed_def)
  have gone: "owns ps hung pid w \<and> doomed pid w" if "owns ps hung pid w" "left_alone ps hung w" for w
    using that left_owns [of ps hung w pid] by (auto simp: owns_def)
  show ?case
    unfolding wait_exit.simps
  proof (rule does_bind [OF does_reaped [where R = "\<lambda>w. Suc k < 5 \<longrightarrow> doomed pid w"]], rule does_if)
    show "does (\<lambda>w. owns ps hung pid w \<and> (r \<longrightarrow> left_alone ps hung w) \<and> (\<not> r \<longrightarrow> Suc k < 5 \<longrightarrow> doomed pid w))
        (give ()) (\<lambda>_ w. owns ps hung pid w \<and> doomed pid w)" if r for r
      using that gone by (auto simp: does_def)
    show "does (\<lambda>w. owns ps hung pid w \<and> (r \<longrightarrow> left_alone ps hung w) \<and> (\<not> r \<longrightarrow> Suc k < 5 \<longrightarrow> doomed pid w))
        (do { (if k = 9 then sigterm pid else give ()); (if k = 4 then sigkill pid else give ()); sleep 100; wait_exit k pid })
        (\<lambda>_ w. owns ps hung pid w \<and> doomed pid w)" if "\<not> r" for r
      by (rule does_weaken [OF does_bind [OF term_ does_bind [OF kill does_bind [OF sleep Suc.IH]]]]) (use that in auto)
  qed
qed

lemma keeps_flush [keeps_intros]:
  assumes "\<And>w t. f (w\<lparr>h_clock := t\<rparr>) = f w" "\<And>w l. f (w\<lparr>h_log := l\<rparr>) = f w"
  shows "keeps f (qmp_flush p q)"
  unfolding qmp_flush_def by (intro keeps_intros assms)

lemma does_step_loop: "does (owns ps hung pid) (step_loop psock qsock tmo pid ss q) (\<lambda>_. owns ps hung pid)"
proof (induction ss arbitrary: q)
  case Nil
  then show ?case by (simp add: does_def)
next
  case (Cons s ss)
  have look: "does (owns ps hung pid) (reaped pid) (\<lambda>_. owns ps hung pid)"
    by (rule does_weaken [OF does_reaped [where R = "\<lambda>_. True"]]) auto
  have step: "does (owns ps hung pid) (if st_kind s = STEP_EXPECT then do {
            r \<leftarrow> wait_expect psock (st_arg s) tmo;
            give (r = 0, q) }
          else do {
            let (r, q) = qc_qmp_type_line q (Some (st_arg s)) 15 True;
            q \<leftarrow> qmp_flush qsock q;
            (if r = 0 then sleep 200 else give ());
            give (r = 0, q) }) (\<lambda>_. owns ps hung pid)" for q
    by (rule does_owns) (intro keeps_intros; simp)
  have rest: "does (owns ps hung pid) (do {
         (rc, ss, q) \<leftarrow> step_loop psock qsock tmo pid ss q;
         give (rc, s\<lparr>st_ok := True\<rparr> # ss, q) }) (\<lambda>_. owns ps hung pid)" for q
    by (rule does_bind [OF Cons.IH], rule does_owns) (intro keeps_intros)
  show ?case
    unfolding step_loop.simps
    by (rule does_bind [OF look], rule does_if, rule does_owns, rule keeps_return,
        rule does_bind [OF step], split prod.split, intro allI impI does_if rest, rule does_owns, rule keeps_return)
qed

lemma does_run_end: "does (owns ps hung pid) (run_end r psock qsock t0 pid x) (\<lambda>_. left_alone ps hung)"
proof -
  have ending: "does (owns ps hung pid) (wait_exit 50 pid) (\<lambda>_ w. owns ps hung pid w \<and> doomed pid w)"
    by (rule does_weaken [OF does_wait_exit]) auto
  have last_: "does (left_alone ps hung) (do { unlink psock; unlink qsock; print out; give rc }) (\<lambda>_. left_alone ps hung)"
    for out and rc :: int
    by (rule does_left) (intro keeps_intros; simp)
  show ?thesis
    unfolding run_end_def Let_def split_beta
    by (rule does_bind [OF does_owns], (intro keeps_intros; simp),
        rule does_bind [OF does_owns], (intro keeps_intros; simp),
        rule does_bind [OF does_owns], (intro keeps_intros; simp),
        rule does_bind [OF ending does_bind [OF does_waitpid last_]])
qed

lemma does_run_steps:
  "does (owns ps hung pid) (run_steps r psock qsock t0 pid q) (\<lambda>_. left_alone ps hung)"
proof -
  have "keeps (\<lambda>w. (h_procs w, h_hung w)) (ping_ok psock)" unfolding ping_ok_def by (intro keeps_intros; simp)
  then have ping: "does (owns ps hung pid) (if b then ping_ok psock else give True) (\<lambda>_. owns ps hung pid)" for b
    by (intro does_if does_owns keeps_intros)
  have steps: "does (owns ps hung pid) (if pong then step_loop psock qsock (r_timeout r) pid (r_steps r) q
      else give (4, [], q)) (\<lambda>_. owns ps hung pid)" for pong
    using does_step_loop by (auto simp: does_def)
  show ?thesis
    unfolding run_steps_def by (rule does_bind [OF ping does_bind [OF steps does_run_end]])
qed

lemma keeps_held [keeps_intros]:
  "keeps f (real_or_copy path)" "keeps f (held_loop dir want names)" "keeps f (disk_held_by_session disk)"
proof -
  show real: "keeps f (real_or_copy path)" for path
    unfolding real_or_copy_def by (intro keeps_intros)
  show held: "keeps f (held_loop dir want names)" for dir want names
    by (induction names) (auto simp: Let_def intro!: keeps_intros real)
  show "keeps f (disk_held_by_session disk)"
    unfolding disk_held_by_session_def by (intro keeps_intros real held)
qed

lemma keeps_early_exit [keeps_intros]:
  assumes "\<And>w s. f (w\<lparr>h_out := s\<rparr>) = f w"
  shows "keeps f (early_exit disk logpath)"
  unfolding early_exit_def log_mentions_disk_lock_def by (intro keeps_intros assms)

lemma does_await_sock:
  "does (owns ps hung pid) (await_sock k psock pid)
     (\<lambda>x w. owns ps hung pid w \<and> (x = Qemu_Exited \<longrightarrow> left_alone ps hung w))"
proof (induction k)
  case (Suc k)
  have sleep: "does (owns ps hung pid) (sleep 100) (\<lambda>_. owns ps hung pid)"
    by (rule does_owns) (intro keeps_intros; simp)
  have look: "does (owns ps hung pid) (exists_path psock) (\<lambda>_. owns ps hung pid)"
    by (rule does_owns) (intro keeps_intros)
  show ?case
    unfolding await_sock.simps
  proof (rule does_bind [OF look], rule does_if)
    show "does (owns ps hung pid) (do {
       gone \<leftarrow> reaped pid;
       if gone then give Qemu_Exited else do { sleep 100; await_sock k psock pid } })
      (\<lambda>x w. owns ps hung pid w \<and> (x = Qemu_Exited \<longrightarrow> left_alone ps hung w))"
    proof (rule does_weaken [OF does_bind [OF does_reaped [where R = "\<lambda>_. True"]]])
      show "does (\<lambda>w. owns ps hung pid w \<and> (gone \<longrightarrow> left_alone ps hung w) \<and> (\<not> gone \<longrightarrow> True))
        (if gone then give Qemu_Exited else do { sleep 100; await_sock k psock pid })
        (\<lambda>x w. owns ps hung pid w \<and> (x = Qemu_Exited \<longrightarrow> left_alone ps hung w))" for gone
        by (rule does_if; (rule does_return; simp)?)
           (rule does_weaken [OF does_bind [OF sleep Suc.IH]]; simp)
    qed simp_all
  qed (simp add: does_def)
qed (simp add: does_def)

lemma does_kill_wait:
  "does (owns ps hung pid) (do { sigkill pid; waitpid pid; m }) Q"
  if "does (left_alone ps hung) m Q"
  by (rule does_bind [OF does_signals(1) does_bind [OF does_waitpid that]])

lemma does_run_forked:
  "does (owns ps hung pid) (run_forked r psock qsock logpath t0 pid) (\<lambda>_. left_alone ps hung)"
proof -
  have qmp: "does (owns ps hung pid) (await_qmp k qsock) (\<lambda>_. owns ps hung pid)" for k
  proof -
    have "keeps (\<lambda>w. (h_procs w, h_hung w)) (await_qmp k qsock)"
      by (induction k) (auto intro!: keeps_intros)
    then show ?thesis by (rule does_owns)
  qed
  have there: "does (owns ps hung pid) (do {
          q \<leftarrow> await_qmp 50 qsock;
          if q = None then do { sigkill pid; waitpid pid; unlink psock; unlink qsock; give 4 }
          else run_steps r psock qsock t0 pid q }) (\<lambda>_. left_alone ps hung)"
    by (rule does_bind [OF qmp], rule does_if, rule does_kill_wait, rule does_left, (intro keeps_intros; simp),
        rule does_run_steps)
  have missing: "does (owns ps hung pid) (do { sigkill pid; waitpid pid; give 4 }) (\<lambda>_. left_alone ps hung)"
    by (rule does_kill_wait, rule does_left) (rule keeps_return)
  have early: "does (left_alone ps hung) (early_exit (r_disk r) logpath) (\<lambda>_. left_alone ps hung)"
    by (rule does_left) (intro keeps_intros; simp)
  show ?thesis
    unfolding run_forked_def
  proof (rule does_bind [OF does_await_sock])
    show "does (\<lambda>w. owns ps hung pid w \<and> (x = Qemu_Exited \<longrightarrow> left_alone ps hung w))
      (case x of
        Qemu_Exited \<Rightarrow> early_exit (r_disk r) logpath
      | Sock_Missing \<Rightarrow> do { sigkill pid; waitpid pid; give 4 }
      | Sock_There \<Rightarrow> do {
          q \<leftarrow> await_qmp 50 qsock;
          if q = None then do { sigkill pid; waitpid pid; unlink psock; unlink qsock; give 4 }
          else run_steps r psock qsock t0 pid q }) (\<lambda>_. left_alone ps hung)" for x
      by (cases x) (auto intro: does_weaken [OF there] does_weaken [OF missing] does_weaken [OF early])
  qed
qed

text \<open>The processes that can be started have new pids.\<close>

definition new_pids :: "host \<Rightarrow> bool" where
  "new_pids w \<longleftrightarrow> (\<forall>f. Some f \<in> set (h_forks w) \<longrightarrow> 0 < sp_pid f \<and> h_procs w (sp_pid f) = None)"

lemma run_start_qemu:
  assumes "h_forks v = Some f # fs"
  shows "\<exists>p ss ls. p_child p \<and> run_state (start_qemu argv psock qsock l) v =
    (sp_pid f, v\<lparr>h_forks := fs, h_log := h_log v @ [E_exec argv], h_procs := (h_procs v)(sp_pid f \<mapsto> p),
                h_socks := ss, h_logs := ls\<rparr>)"
  using assms by (simp add: start_qemu_def log_event_def Let_def) (metis proc.select_convs(3))

lemma run_boot_leaves:
  assumes "new_pids w" "run_state (run_boot r) w = (rc, w')"
  shows "left_alone (h_procs w) (h_hung w) w'"
proof -
  let ?p = "run_path w ''.sock''" and ?q = "run_path w ''.qmp''" and ?l = "run_path w ''.log''"
  obtain x u where u: "run_state (unlink ?p) w = (x, u)" by (rule prod.exhaust)
  obtain y v where v: "run_state (unlink ?q) u = (y, v)" by (rule prod.exhaust)
  have same: "(h_procs v, h_hung v, h_forks v) = (h_procs w, h_hung w, h_forks w)"
    using u v by (auto simp: unlink_def)
  obtain pid w1 where w1: "run_state (start_qemu (qemu_args (r_qemu r) (r_mem r) 512 (the (r_iso r)) (r_disk r)
              (snprintf 512 (r_plugin r @ '',socket='' @ ?p))
              (snprintf 320 (''unix:'' @ ?q @ '',server,nowait''))) ?p ?q ?l) v = (pid, w1)"
    by (rule prod.exhaust)
  have rest: "run_state (if pid < 0 then give 3 else run_forked r ?p ?q ?l (h_clock v) pid) w1 = (rc, w')"
    using assms(2) u v w1 by (simp add: run_boot_def now_ms_def)
  show ?thesis
  proof (cases "h_forks w")
    case Nil
    then have "pid = - 1" "w1 = v\<lparr>h_forks := []\<rparr>" using w1 same by (simp_all add: start_qemu_def)
    then show ?thesis using rest same by (auto simp: left_alone_def)
  next
    case (Cons f fs)
    show ?thesis
    proof (cases f)
      case None
      then have "pid = - 1" "w1 = v\<lparr>h_forks := fs\<rparr>" using w1 same Cons by (simp_all add: start_qemu_def)
      then show ?thesis using rest same by (auto simp: left_alone_def)
    next
      case (Some f)
      then obtain p where *: "pid = sp_pid f" "h_hung w1 = h_hung w" "p_child p"
        "h_procs w1 = (h_procs w)(sp_pid f \<mapsto> p)"
      proof -
        have "h_forks v = Some f # fs" using same Cons Some by simp
        from run_start_qemu [OF this] obtain p ss ls ex where "p_child p"
          "(pid, w1) = (sp_pid f, v\<lparr>h_forks := fs, h_log := h_log v @ [ex],
              h_procs := (h_procs v)(sp_pid f \<mapsto> p), h_socks := ss, h_logs := ls\<rparr>)"
          unfolding w1 [symmetric] by blast
        then show thesis using that same by simp
      qed
      then have owns: "owns (h_procs w) (h_hung w) pid w1"
        using assms(1) Some Cons by (auto simp: owns_def new_pids_def)
      have "0 < pid" using assms(1) Some Cons * by (auto simp: new_pids_def)
      then show ?thesis using rest doesD [OF does_run_forked owns] by simp
    qed
  qed
qed

lemma held_pure: "\<exists>h. run_state (disk_held_by_session d) w = (h, w)"
  using keepsD [OF keeps_held(3) [where f = "\<lambda>x. x"]] by (metis prod.collapse)

lemma run_session_cases:
  assumes "run_state (run_session r) w = (rc, w')"
  obtains "rc \<in> {2, 4}" "w' = w" | i pid where "rc = 3" "w' = w\<lparr>h_out := h_out w @ locked_report i pid (the (r_disk r)) None\<rparr>"
  | "run_state (run_boot r) w = (rc, w')"
proof -
  obtain h where h: "run_state (case r_disk r of None \<Rightarrow> give None | Some d \<Rightarrow> disk_held_by_session d) w = (h, w)"
    using held_pure by (cases "r_disk r") auto
  obtain e where e: "run_state (exists_path (r_plugin r)) w = (e, w)" by (simp add: exists_path_def)
  show thesis
  proof (cases "is_file w (r_iso r) \<and> (r_disk r \<noteq> None \<longrightarrow> is_file w (r_disk r)) \<and> e")
    case False
    then show thesis using assms e that(1) by (auto simp: run_session_def split: if_splits)
  next
    case True
    then have *: "run_state (case h of
          Some (i, pid) \<Rightarrow> do {
            print (locked_report i pid (the (r_disk r)) None);
            give 3 }
        | None \<Rightarrow> run_boot r) w = (rc, w')"
      using assms h e unfolding run_session_def by (cases "r_disk r"; cases h) simp_all
    show thesis
    proof (cases h)
      case None
      then show thesis using * that(3) by simp
    next
      case (Some ip)
      then show thesis using * that(2) [of "fst ip" "snd ip"] by (simp add: print_def split_beta)
    qed
  qed
qed

lemma run_session_leaves:
  assumes "new_pids w" "run_state (run_session r) w = (rc, w')"
  shows "left_alone (h_procs w) (h_hung w) w'"
  using assms(2) by (rule run_session_cases) (auto simp: left_alone_def dest!: run_boot_leaves [OF assms(1)])

section \<open>The report names the steps that were done\<close>

text \<open>The steps after the first \<open>k\<close> of them were done.\<close>

definition done_first :: "nat \<Rightarrow> step_t list \<Rightarrow> step_t list" where
  "done_first k ss = map (\<lambda>s. s\<lparr>st_ok := True\<rparr>) (take k ss) @ drop k ss"

lemma done_first_simps [simp]:
  "done_first 0 ss = ss" "done_first (Suc k) (s # ss) = s\<lparr>st_ok := True\<rparr> # done_first k ss"
  by (simp_all add: done_first_def)

definition step_result :: "step_t list \<Rightarrow> int \<Rightarrow> step_t list \<Rightarrow> bool" where
  "step_result ss rc ss' \<longleftrightarrow> (\<exists>k \<le> length ss. ss' = done_first k ss \<and> (rc = 0 \<longleftrightarrow> k = length ss)) \<and> rc \<in> {0, 1, 3}"

lemma step_loop_result:
  "run_state (step_loop psock qsock tmo pid ss q) w = ((rc, ss', q'), w') \<Longrightarrow> step_result ss rc ss'"
proof (induction ss arbitrary: q w rc ss' q' w')
  case Nil
  then show ?case by (simp add: step_result_def)
next
  case (Cons s ss)
  let ?one = "\<lambda>q. if st_kind s = STEP_EXPECT then do {
            r \<leftarrow> wait_expect psock (st_arg s) tmo;
            give (r = 0, q) }
          else do {
            let (r, q) = qc_qmp_type_line q (Some (st_arg s)) 15 True;
            q \<leftarrow> qmp_flush qsock q;
            (if r = 0 then sleep 200 else give ());
            give (r = 0, q) }"
  obtain c u where c: "run_state (reaped pid) w = (c, u)" by (rule prod.exhaust)
  obtain oq v where oq: "run_state (?one q) u = (oq, v)" by (rule prod.exhaust)
  obtain ok q1 where o: "oq = (ok, q1)" by (rule prod.exhaust)
  obtain rc2 ss2 q2 x where rest: "run_state (step_loop psock qsock tmo pid ss q1) v = ((rc2, ss2, q2), x)"
    by (metis prod.exhaust)
  have stop: "step_result (s # ss) r (s # ss)" if "r \<in> {1, 3}" for r
    using that unfolding step_result_def by (intro conjI exI [of _ 0]) auto
  show ?case
  proof (cases "c \<or> \<not> ok")
    case True
    then have "rc \<in> {1, 3}" "ss' = s # ss"
      using Cons.prems c oq o by (auto split: if_splits)
    then show ?thesis using stop by simp
  next
    case False
    then have "rc = rc2" "ss' = s\<lparr>st_ok := True\<rparr> # ss2"
      using Cons.prems c oq o rest by (auto split: if_splits)
    moreover have "step_result ss rc2 ss2" by (rule Cons.IH [OF rest])
    ultimately show ?thesis
      unfolding step_result_def by (auto intro: exI [of _ "Suc _"])
  qed
qed

lemma keeps_step_loop [keeps_intros]:
  assumes "\<And>w cs. f (w\<lparr>h_conns := cs\<rparr>) = f w" "\<And>w t. f (w\<lparr>h_clock := t\<rparr>) = f w"
    and "\<And>w l. f (w\<lparr>h_log := l\<rparr>) = f w" "\<And>w ps. f (w\<lparr>h_procs := ps\<rparr>) = f w"
  shows "keeps f (step_loop psock qsock tmo pid ss q)"
  by (induction ss arbitrary: q) (auto intro!: keeps_intros assms)

lemma keeps_wait_exit [keeps_intros]:
  assumes "\<And>w t. f (w\<lparr>h_clock := t\<rparr>) = f w" "\<And>w ps. f (w\<lparr>h_procs := ps\<rparr>) = f w"
  shows "keeps f (wait_exit k pid)"
  by (induction k) (auto intro!: keeps_intros assms)

text \<open>The outcomes of the steps that a report can be made of.\<close>

definition reportable :: "step_t list \<Rightarrow> int \<Rightarrow> step_t list \<Rightarrow> bool" where
  "reportable ss rc ss' \<longleftrightarrow> (\<exists>k \<le> length ss. ss' = done_first k ss \<and>
     (rc = 0 \<longrightarrow> k = length ss) \<and> (rc = 1 \<longrightarrow> k < length ss))"

definition step_report_of :: "run_opts \<Rightarrow> string \<Rightarrow> int \<Rightarrow> host \<Rightarrow> bool" where
  "step_report_of r out rc w \<longleftrightarrow>
     (\<exists>ss dur txt. reportable (r_steps r) rc ss \<and> h_out w = out @ run_report rc dur ss txt)"

lemma run_end_reports:
  "does (\<lambda>w. h_out w = out \<and> reportable (r_steps r) (fst x) (fst (snd x))) (run_end r psock qsock t0 pid x)
     (\<lambda>rc w. step_report_of r out rc w)"
proof (cases "reportable (r_steps r) (fst x) (fst (snd x))")
  case True
  have last_: "does (\<lambda>w. h_out w = out) (do {
       print (run_report (fst x) dur (fst (snd x)) c);
       give (fst x) }) (\<lambda>rc w. step_report_of r out rc w)" for dur c
    using True by (auto simp: does_def print_def step_report_of_def)
  have "does (\<lambda>w. h_out w = out) (run_end r psock qsock t0 pid x) (\<lambda>rc w. step_report_of r out rc w)"
    unfolding run_end_def Let_def split_beta
    by (intro does_bind [OF keeps_does [where f = h_out and P = "\<lambda>x. x = out"]] last_ keeps_intros; simp)
  then show ?thesis by (rule does_weaken) auto
qed (simp add: does_def)

lemma run_steps_reports:
  "does (\<lambda>w. h_out w = out) (run_steps r psock qsock t0 pid q) (\<lambda>rc w. step_report_of r out rc w)"
proof -
  let ?P = "\<lambda>w. h_out w = out"
  let ?A = "reportable (r_steps r)"
  have ping: "does ?P (if r_steps r = [] then ping_ok psock else give True) (\<lambda>pong w. ?P w \<and> (pong \<or> r_steps r = []))"
  proof (cases "r_steps r = []")
    case True
    have "keeps h_out (ping_ok psock)" unfolding ping_ok_def by (intro keeps_intros; simp)
    from keeps_does [OF this, of "\<lambda>x. x = out"] show ?thesis using True by simp
  qed (simp add: does_def)
  have loop: "does (\<lambda>w. ?P w \<and> (pong \<or> r_steps r = []))
     (if pong then step_loop psock qsock (r_timeout r) pid (r_steps r) q else give (4, [], q))
     (\<lambda>x w. ?P w \<and> ?A (fst x) (fst (snd x)))" for pong
  proof (rule doesI)
    fix s x t
    assume P: "h_out s = out \<and> (pong \<or> r_steps r = [])"
      and run: "run_state (if pong then step_loop psock qsock (r_timeout r) pid (r_steps r) q else give (4, [], q)) s = (x, t)"
    obtain rc ss q' where x: "x = (rc, ss, q')" by (metis prod.exhaust)
    have "h_out t = h_out s"
      using run by (cases pong) (auto dest!: keepsD [OF keeps_step_loop [where f = h_out], rotated -1])
    moreover have "?A rc ss"
    proof (cases pong)
      case True
      then have "step_result (r_steps r) rc ss" using run x step_loop_result by auto
      then show ?thesis unfolding step_result_def reportable_def by (auto intro: order_le_neq_trans)
    qed (use P run x in \<open>auto simp: reportable_def\<close>)
    ultimately show "h_out t = out \<and> ?A (fst x) (fst (snd x))" using P x by simp
  qed
  show ?thesis
    unfolding run_steps_def
    by (rule does_bind [OF ping does_bind [OF loop]]) (use run_end_reports in \<open>simp add: split_beta\<close>)
qed

lemma run_forked_reports:
  "does (\<lambda>w. h_out w = out) (run_forked r psock qsock logpath t0 pid)
     (\<lambda>rc w. rc \<in> {0, 1} \<longrightarrow> step_report_of r out rc w)"
proof -
  let ?P = "\<lambda>w. h_out w = out"
  have same: "keeps h_out m \<Longrightarrow> does ?P m (\<lambda>_. ?P)" for m :: "(host, 'b) state"
    by (rule keeps_does)
  have sock: "does ?P (await_sock k psock pid) (\<lambda>_. ?P)" for k
    by (rule keeps_does, induction k) (auto intro!: keeps_intros)
  have qmp: "does ?P (await_qmp k qsock) (\<lambda>_. ?P)" for k
    by (rule keeps_does, induction k) (auto intro!: keeps_intros)
  have other: "does ?P m (\<lambda>rc w. rc \<in> {0, 1} \<longrightarrow> step_report_of r out rc w)"
    if "\<And>w. fst (run_state m w) \<in> {3, 4}" for m
  proof (rule doesI)
    fix w rc w' assume "run_state m w = (rc, w')"
    with that [of w] have "rc \<in> {3, 4}" by simp
    then show "rc \<in> {0, 1} \<longrightarrow> step_report_of r out rc w'" by auto
  qed
  have steps: "does ?P (run_steps r psock qsock t0 pid q) (\<lambda>rc w. rc \<in> {0, 1} \<longrightarrow> step_report_of r out rc w)" for q
    by (rule does_weaken [OF run_steps_reports]) auto
  show ?thesis
    unfolding run_forked_def
  proof (rule does_bind [OF sock], rule doesI)
    fix x w rc w'
    assume P: "h_out w = out" and run: "run_state (case x of
        Qemu_Exited \<Rightarrow> early_exit (r_disk r) logpath
      | Sock_Missing \<Rightarrow> do { sigkill pid; waitpid pid; give 4 }
      | Sock_There \<Rightarrow> do {
          q \<leftarrow> await_qmp 50 qsock;
          if q = None then do { sigkill pid; waitpid pid; unlink psock; unlink qsock; give 4 }
          else run_steps r psock qsock t0 pid q }) w = (rc, w')"
    show "rc \<in> {0, 1} \<longrightarrow> step_report_of r out rc w'"
    proof (cases x)
      case Sock_There
      have "does ?P (do {
          q \<leftarrow> await_qmp 50 qsock;
          if q = None then do { sigkill pid; waitpid pid; unlink psock; unlink qsock; give 4 }
          else run_steps r psock qsock t0 pid q }) (\<lambda>rc w. rc \<in> {0, 1} \<longrightarrow> step_report_of r out rc w)"
        by (rule does_bind [OF qmp], rule does_if [OF other steps]) (simp add: split_beta)
      then show ?thesis using P run Sock_There by (auto dest: doesD)
    next
      case Sock_Missing
      then show ?thesis using run by (auto split: prod.splits)
    next
      case Qemu_Exited
      then show ?thesis using run by (auto simp: early_exit_def Let_def split: prod.splits)
    qed
  qed
qed

lemma run_session_reports:
  assumes "run_state (run_session r) w = (rc, w')" "rc \<in> {0, 1}"
  shows "step_report_of r (h_out w) rc w'"
  using assms(1)
proof (rule run_session_cases)
  assume boot: "run_state (run_boot r) w = (rc, w')"
  let ?P = "\<lambda>u. h_out u = h_out w"
  have "does ?P (run_boot r) (\<lambda>rc u. rc \<in> {0, 1} \<longrightarrow> step_report_of r (h_out w) rc u)"
    unfolding run_boot_def
    by (rule does_bind [OF keeps_does [where f = h_out and P = "\<lambda>x. x = h_out w"]], (intro keeps_intros; simp))+
       (rule does_if, simp add: does_def, rule run_forked_reports)
  from doesD [OF this refl boot] assms(2) show ?thesis by auto
qed (use assms(2) in auto)

section \<open>Arguments\<close>

lemma foldl_add_word:
  assumes "\<forall>a \<in> set ws. a \<noteq> []" "\<forall>a \<in> set pre. a \<noteq> []" "length (joined (pre @ ws)) \<le> 511"
  shows "foldl add_word (joined pre) ws = joined (pre @ ws)"
  using assms
proof (induction ws arbitrary: pre)
  case (Cons a ws)
  have "length (joined (pre @ [a])) \<le> 511"
    using joined_mono [of "pre @ [a]" ws] Cons.prems(3) by simp
  moreover have "joined pre = [] \<longleftrightarrow> pre = []"
    using Cons.prems(2) by (cases pre rule: joined.cases) auto
  ultimately have "add_word (joined pre) a = joined (pre @ [a])"
    by (cases "pre = []") (auto simp: add_word_def joined_snoc)
  then show ?case using Cons.IH [of "pre @ [a]"] Cons.prems by simp
qed simp

definition step_args :: "step_t \<Rightarrow> string list" where
  "step_args s = [if st_kind s = STEP_EXPECT then ''--expect'' else ''--type'', st_arg s]"

lemma run_val_step:
  "run_val (if st_kind s = STEP_EXPECT then ''--expect'' else ''--type'') = Some (add_step (st_kind s))"
  by (cases "st_kind s") (simp_all add: run_val_def)

lemma scan_steps:
  assumes "\<forall>s \<in> set ss. \<not> st_ok s" "length (r_steps r) \<le> 64"
  shows "scan_args run_val run_word r (concat (map step_args ss)) = Go (r\<lparr>r_steps := take 64 (r_steps r @ ss)\<rparr>)"
  using assms
proof (induction ss arbitrary: r)
  case (Cons s ss)
  let ?r = "add_step (st_kind s) (st_arg s) r"
  have s: "\<lparr>st_kind = st_kind s, st_arg = st_arg s, st_ok = False\<rparr> = s" using Cons.prems(1) by (cases s) simp
  have "scan_args run_val run_word ?r (concat (map step_args ss)) = Go (?r\<lparr>r_steps := take 64 (r_steps ?r @ ss)\<rparr>)"
    using Cons.prems by (intro Cons.IH) (auto simp: add_step_def)
  moreover have "?r\<lparr>r_steps := take 64 (r_steps ?r @ ss)\<rparr> = r\<lparr>r_steps := take 64 (r_steps r @ s # ss)\<rparr>"
    using s by (simp add: add_step_def take_Cons')
  ultimately show ?case using run_val_step [of s] by (simp add: step_args_def [of s])
qed simp

lemma keeps_defaults:
  assumes "run_state qc_default_iso w = (i, w1)" "run_state qc_default_disk w1 = (d, w2)"
    "run_state qc_default_plugin w2 = (p, w3)" "run_state default_shell_prompt w3 = (x, w4)"
  shows "(h_procs w4, h_hung w4, h_forks w4, h_out w4) = (h_procs w, h_hung w, h_forks w, h_out w)"
proof -
  let ?f = "\<lambda>w. (h_procs w, h_hung w, h_forks w, h_out w)"
  have "keeps ?f qc_default_iso" "keeps ?f qc_default_disk" "keeps ?f qc_default_plugin" "keeps ?f default_shell_prompt"
    by (intro keeps_intros; simp)+
  from this(1) [THEN keepsD, OF assms(1)] this(2) [THEN keepsD, OF assms(2)]
    this(3) [THEN keepsD, OF assms(3)] this(4) [THEN keepsD, OF assms(4)]
  show ?thesis by simp
qed

text \<open>Either command ends at once, or is a run after the initialisation of the paths.\<close>

lemma run_commands:
  assumes "run_state (qc_cmd_run argv) w = (rc, w')"
  obtains u where "(h_procs u, h_hung u, h_forks u, h_out u) = (h_procs w, h_hung w, h_forks w, h_out w)"
    "rc = 2 \<and> w' = u \<or> (\<exists>r plugin. scan_args run_val run_word (default_run plugin) argv = Go r \<and>
        run_state (run_session r) u = (rc, w'))"
proof -
  obtain p u where u: "run_state qc_default_plugin w = (p, u)" by (rule prod.exhaust)
  have "keeps (\<lambda>w. (h_procs w, h_hung w, h_forks w, h_out w)) qc_default_plugin" by (intro keeps_intros; simp)
  from keepsD [OF this u] show thesis
    using that [of u] assms u by (auto simp: qc_cmd_run_def split: scanned.splits if_splits)
qed

lemma guest_commands:
  assumes "run_state (qc_cmd_guest argv) w = (rc, w')"
  obtains u where "(h_procs u, h_hung u, h_forks u, h_out u) = (h_procs w, h_hung w, h_forks w, h_out w)"
    "rc = 2 \<and> w' = u \<or> (\<exists>r r0 p0 p ws. guest_flags (r0, p0) argv = Some ((r, p), ws) \<and>
        run_state (run_session (r\<lparr>r_steps := guest_steps p ws\<rparr>)) u = (rc, w'))"
proof -
  obtain i w1 where 1: "run_state qc_default_iso w = (i, w1)" by (rule prod.exhaust)
  obtain d w2 where 2: "run_state qc_default_disk w1 = (d, w2)" by (rule prod.exhaust)
  obtain p w3 where 3: "run_state qc_default_plugin w2 = (p, w3)" by (rule prod.exhaust)
  obtain x u where 4: "run_state default_shell_prompt w3 = (x, u)" by (rule prod.exhaust)
  note this_world = that [OF keeps_defaults [OF 1 2 3 4]]
  let ?x = "((default_run p)\<lparr>r_iso := Some i, r_disk := Some d, r_show := True\<rparr>, x)"
  show thesis
  proof (cases "guest_flags ?x argv")
    case None
    then show thesis using this_world assms 1 2 3 4 by (simp add: qc_cmd_guest_def)
  next
    case (Some y)
    obtain r p' ws where "y = ((r, p'), ws)" by (metis prod.exhaust)
    then show thesis
      using Some assms 1 2 3 4 by (intro this_world) (auto simp: qc_cmd_guest_def)
  qed
qed

end
