(* ===== verification/Run_Props.thy ===== *)
theory Run_Props
  imports Run_Safe
begin

text \<open>
  The properties of \<open>run\<close> and \<open>guest\<close>, and a world in which a guest runs a command, as the
  example for them.
\<close>

section \<open>A run that succeeds\<close>

text \<open>A reply that shows the prompt.\<close>

definition prompt_conn :: conn where
  "prompt_conn = \<lparr>c_time = 1, c_write = True, c_chunks = [K_data (text_key @ ''$'' @ [DQ, LF])]\<rparr>"

lemma prompt_conn_shows: "shows_needle session_text ''$'' (Some prompt_conn)"
proof -
  let ?l = "text_key @ ''$'' @ [DQ]"
  have "LF \<notin> set ?l" "NUL \<notin> set ?l" by (simp_all add: text_key_def)
  then have l: "read_reply RESP_MAX [K_data (?l @ [LF])] [] = (?l @ [LF], False)" "c_str (?l @ [LF]) = ?l @ [LF]"
    using read_reply_line [of "[K_data (?l @ [LF])]" "?l @ [LF]" "[]" ?l RESP_MAX "[]"]
    by (simp_all add: text_key_def c_str_def)
  have "strstr (text_key @ r) text_key = Some (text_key @ r)" for r by (simp add: text_key_def)
  then have "extract_text (?l @ [LF]) 2033 = Some ''$''"
    by (simp add: extract_text_def text_loop_copy text_loop_quote)
  then show ?thesis using l by (simp add: shows_needle_def prompt_conn_def session_text_def outcome_def)
qed

lemma expect_ok:
  assumes "h_conns w = oc # cs" "shows_needle session_text needle oc" "0 < tmo"
  shows "\<exists>t l. run_state (wait_expect psock needle tmo) w = (0, w\<lparr>h_conns := cs, h_clock := t, h_log := l\<rparr>)"
proof -
  obtain l where "poll_loop session_text psock needle (h_clock w + tmo) w =
      (True, w\<lparr>h_conns := cs, h_clock := h_clock w + int (outcome_time oc), h_log := l\<rparr>)"
    using session_view.poll_step [of w "h_clock w + tmo" psock needle] assms by auto
  then show ?thesis by (auto simp: wait_expect_def run_poll)
qed

text \<open>A step that is done, on a QEMU that runs.\<close>

lemma running_not_reaped: "h_procs w pid = Some p \<Longrightarrow> p_exit p = None \<Longrightarrow> run_state (reaped pid) w = (False, w)"
  by (simp add: reaped_def gone_def)

lemma expect_step:
  assumes "h_procs w pid = Some p" "p_exit p = None"
    and "h_conns w = oc # cs" "shows_needle session_text needle oc" "0 < tmo"
  shows "\<exists>t l. fst (fst (run_state (step_loop psock qsock tmo pid (\<lparr>st_kind = STEP_EXPECT, st_arg = needle, st_ok = ok\<rparr> # ss) q) w)) =
    fst (fst (run_state (step_loop psock qsock tmo pid ss q) (w\<lparr>h_conns := cs, h_clock := t, h_log := l\<rparr>)))"
proof -
  obtain t l where "run_state (wait_expect psock needle tmo) w = (0, w\<lparr>h_conns := cs, h_clock := t, h_log := l\<rparr>)"
    using expect_ok [OF assms(3-5)] by blast
  then show ?thesis
    using running_not_reaped [OF assms(1,2)]
    by (intro exI [of _ t] exI [of _ l]) (simp add: split_beta)
qed

lemma type_step:
  assumes "h_procs w pid = Some p" "p_exit p = None" "qc_qmp_type_line q (Some line) 15 True = (0, Some q')"
  shows "\<exists>t l. fst (fst (run_state (step_loop psock qsock tmo pid (\<lparr>st_kind = STEP_TYPE, st_arg = line, st_ok = ok\<rparr> # ss) q) w)) =
    fst (fst (run_state (step_loop psock qsock tmo pid ss (Some (q'\<lparr>q_sent := [], q_slept := []\<rparr>))) (w\<lparr>h_log := l, h_clock := t\<rparr>)))"
proof -
  obtain t where t: "t = h_clock w + int (nat (sum_list (q_slept q')))" by simp
  let ?l = "h_log w @ [E_input qsock (q_sent q')]"
  have "run_state (qmp_flush qsock (Some q')) w =
      (Some (q'\<lparr>q_sent := [], q_slept := []\<rparr>), w\<lparr>h_clock := t, h_log := ?l\<rparr>)"
    unfolding t by (simp add: qmp_flush_def qc_qmp_close_def sleep_def log_event_def)
  then show ?thesis
    using assms(3) running_not_reaped [OF assms(1,2)]
    by (intro exI [of _ "t + 200"] exI [of _ ?l]) (simp add: split_beta sleep_def)
qed

lemma run_boot_ready:
  assumes "h_forks w = Some f # fs" "0 \<le> sp_pid f" "sp_psock f = Some 0" "sp_qsock f = Some 0"
    and "run_path w ''.sock'' \<noteq> run_path w ''.qmp''" "run_path w ''.sock'' \<noteq> []" "run_path w ''.qmp'' \<noteq> []"
    and "h_qmps w = (conn, mem) # qs" "qc_qmp_connect (Some (run_path w ''.qmp'')) conn mem = Some q"
  obtains w1 where
    "run_state (run_boot r) w = run_state (run_steps r (run_path w ''.sock'') (run_path w ''.qmp'') (h_clock w) (sp_pid f) (Some q)) w1"
    "h_procs w1 (sp_pid f) = Some \<lparr>p_exit = map_option (\<lambda>d. h_clock w + int d) (sp_exit f), p_term = sp_term f, p_child = True\<rparr>"
    "h_conns w1 = h_conns w"
proof -
  let ?p = "run_path w ''.sock''" and ?q = "run_path w ''.qmp''" and ?l = "run_path w ''.log''"
  obtain x u where u: "run_state (unlink ?p) w = (x, u)" by (rule prod.exhaust)
  obtain y v where v: "run_state (unlink ?q) u = (y, v)" by (rule prod.exhaust)
  obtain pid w1 where w1: "run_state (start_qemu (qemu_args (r_qemu r) (r_mem r) 512 (the (r_iso r)) (r_disk r)
              (snprintf 512 (r_plugin r @ '',socket='' @ ?p))
              (snprintf 320 (''unix:'' @ ?q @ '',server,nowait''))) ?p ?q ?l) v = (pid, w1)"
    by (rule prod.exhaust)
  have same: "(h_clock v, h_forks v, h_conns v, h_qmps v) = (h_clock w, h_forks w, h_conns w, h_qmps w)"
    using u v by (auto simp: unlink_def)
  have pid: "pid = sp_pid f" and w1': "h_clock w1 = h_clock w" "h_conns w1 = h_conns w" "h_qmps w1 = h_qmps w"
    "h_socks w1 ?p = Some (h_clock w)" "h_socks w1 ?q = Some (h_clock w)"
    "h_procs w1 (sp_pid f) = Some \<lparr>p_exit = map_option (\<lambda>d. h_clock w + int d) (sp_exit f), p_term = sp_term f, p_child = True\<rparr>"
    using w1 same assms(1,3-5) by (auto simp: start_qemu_def log_event_def Let_def)
  have there: "run_state (exists_path ?p) w1 = (True, w1)" "run_state (exists_path ?q) w1 = (True, w1)"
    using assms(6,7) w1'(1,4,5) by (simp_all add: exists_path_def sock_there_def)
  have "run_state (run_boot r) w = run_state (run_forked r ?p ?q ?l (h_clock w) (sp_pid f)) w1"
    using u v w1 pid assms(2) same by (simp add: run_boot_def now_ms_def)
  also have "\<dots> = run_state (run_steps r ?p ?q (h_clock w) (sp_pid f) (Some q)) (w1\<lparr>h_qmps := qs\<rparr>)"
    using there assms(8,9) w1'(3) by (simp add: run_forked_def eval_nat_numeral qmp_open_def)
  finally show thesis using that w1'(2,6) by simp
qed

definition demo_run_host :: host where
  "demo_run_host = ready_host\<lparr>
     h_paths := (h_paths ready_host)\<lparr>g_disk := ''/d.img''\<rparr>,
     h_files := [''/k.iso'' \<mapsto> [], ''/p.so'' \<mapsto> [], ''/d.img'' \<mapsto> []],
     h_conns := [Some prompt_conn, Some prompt_conn],
     h_qmps := [(Some \<lparr>q_in = incoming greeting_msg @ incoming return_msg @ incoming return_msg @ incoming return_msg,
                       q_writes = [], q_sent = [], q_slept = []\<rparr>, True)]\<rparr>"

definition demo_run_opts :: run_opts where
  "demo_run_opts = (default_run ''/p.so'')\<lparr>r_iso := Some ''/k.iso'', r_disk := Some ''/d.img'', r_show := True,
     r_steps := guest_steps ''$'' [''A'']\<rparr>"

lemma demo_run_starts:
  "run_state (qc_cmd_guest [''A'']) demo_run_host = run_state (run_session demo_run_opts) demo_run_host"
  "run_state (run_session demo_run_opts) demo_run_host = run_state (run_boot demo_run_opts) demo_run_host"
proof -
  have init: "g_init (h_paths demo_run_host)" "g_iso (h_paths demo_run_host) = ''/k.iso''"
    "g_disk (h_paths demo_run_host) = ''/d.img''" "g_plugin (h_paths demo_run_host) = ''/p.so''"
    "h_env demo_run_host = Map.empty"
    by (simp_all add: demo_run_host_def ready_host_def bare_host_def)
  then show "run_state (qc_cmd_guest [''A'']) demo_run_host = run_state (run_session demo_run_opts) demo_run_host"
    by (simp add: qc_cmd_guest_def qc_default_iso_def qc_default_disk_def qc_default_plugin_def
        default_shell_prompt_def init_paths_done getenv_def is_flag_def demo_run_opts_def)
  have files: "h_files demo_run_host = [''/k.iso'' \<mapsto> [], ''/p.so'' \<mapsto> [], ''/d.img'' \<mapsto> []]"
    "h_dirs demo_run_host = (\<lambda>_. False)" "h_real demo_run_host = (\<lambda>_. None)"
    by (simp_all add: demo_run_host_def ready_host_def bare_host_def)
  then have "run_state (disk_held_by_session ''/d.img'') demo_run_host = (None, demo_run_host)"
    by (simp add: disk_held_by_session_def real_or_copy_def realpath_or_def opendir_def snprintf_def)
  then show "run_state (run_session demo_run_opts) demo_run_host = run_state (run_boot demo_run_opts) demo_run_host"
    using files by (simp add: run_session_def demo_run_opts_def default_run_def is_file_def exists_path_def)
qed

lemma demo_run_succeeds: "fst (run_state (qc_cmd_guest [''A'']) demo_run_host) = 0"
proof -
  let ?in = "incoming return_msg @ incoming return_msg"
  let ?c = "\<lparr>q_in = incoming greeting_msg @ incoming return_msg @ ?in, q_writes = [], q_sent = [], q_slept = []\<rparr>"
  let ?q = "?c\<lparr>q_in := ?in, q_sent := capabilities_cmd @ [LF]\<rparr>"
  let ?p = "run_path demo_run_host ''.sock''" and ?s = "run_path demo_run_host ''.qmp''"
  let ?f = "\<lparr>sp_pid = 77, sp_exit = None, sp_term = None, sp_psock = Some 0, sp_qsock = Some 0, sp_log = None\<rparr>"
  have w: "h_forks demo_run_host = [Some ?f]" "h_qmps demo_run_host = [(Some ?c, True)]"
    "h_conns demo_run_host = [Some prompt_conn, Some prompt_conn]" "h_clock demo_run_host = 0"
    by (simp_all add: demo_run_host_def ready_host_def bare_host_def)
  have p: "?p \<noteq> ?s" "?p \<noteq> []" "?s \<noteq> []"
    by (simp_all add: run_path_def runtime_dir_def snprintf_def demo_run_host_def ready_host_def bare_host_def
        dec_int_def dec.simps)
  have c: "qc_qmp_connect (Some ?s) (Some ?c) True = Some ?q"
    using connect_handshake [OF p(3), of ?c greeting_msg "[]" return_msg ?in 0] demo_lines greeting_ok by simp
  obtain w1 where w1: "run_state (run_boot demo_run_opts) demo_run_host =
      run_state (run_steps demo_run_opts ?p ?s 0 77 (Some ?q)) w1"
    "h_procs w1 77 = Some \<lparr>p_exit = None, p_term = None, p_child = True\<rparr>" "h_conns w1 = h_conns demo_run_host"
    by (rule run_boot_ready [OF w(1) _ _ _ p w(2) c]) (auto simp: w(4))
  have one: "\<exists>evs l ins'. incoming return_msg @ r = concat (map incoming evs) @ incoming l @ ins' \<and> ins' = r \<and>
      (\<forall>e \<in> set evs. line_ok e \<and> is_event e) \<and> line_ok l \<and> \<not> is_event l \<and> response_class l = Some 0" for r
    using demo_lines by (intro exI [of _ "[]"] exI [of _ return_msg] exI [of _ r]) simp
  have typed: "\<exists>q'. qc_qmp_type_line (Some ?q) (Some ''A'') 15 True = (0, Some q')"
    using type_line_sends [of ?q "''A''" "incoming return_msg" "[]" 15] one [of "incoming return_msg"] one [of "[]"]
    by (simp add: map_char_def One_nat_def)
  have "fst (fst (run_state (step_loop ?p ?s 60000 77 (guest_steps ''$'' [''A'']) (Some ?q)) w1)) = 0"
  proof -
    note running = w1(2)
    have guest: "guest_steps ''$'' [''A''] =
        [\<lparr>st_kind = STEP_EXPECT, st_arg = ''$'', st_ok = False\<rparr>,
         \<lparr>st_kind = STEP_TYPE, st_arg = ''A'', st_ok = False\<rparr>,
         \<lparr>st_kind = STEP_EXPECT, st_arg = ''$'', st_ok = False\<rparr>]"
      by (simp add: guest_steps_def add_word_def)
    let ?ss3 = "[\<lparr>st_kind = STEP_EXPECT, st_arg = ''$'', st_ok = False\<rparr>]"
    let ?ss2 = "\<lparr>st_kind = STEP_TYPE, st_arg = ''A'', st_ok = False\<rparr> # ?ss3"
    obtain q' where q': "qc_qmp_type_line (Some ?q) (Some ''A'') 15 True = (0, Some q')" using typed by blast
    obtain t1 l1 where 1: "fst (fst (run_state (step_loop ?p ?s 60000 77 (guest_steps ''$'' [''A'']) (Some ?q)) w1)) =
        fst (fst (run_state (step_loop ?p ?s 60000 77 ?ss2 (Some ?q))
          (w1\<lparr>h_conns := [Some prompt_conn], h_clock := t1, h_log := l1\<rparr>)))"
      using expect_step [OF running _ _ prompt_conn_shows, of "[Some prompt_conn]" 60000 ?p ?s False ?ss2 "Some ?q"]
      by (auto simp: w1(3) w(3) guest)
    let ?w2 = "w1\<lparr>h_conns := [Some prompt_conn], h_clock := t1, h_log := l1\<rparr>"
    have r2: "h_procs ?w2 77 = Some \<lparr>p_exit = None, p_term = None, p_child = True\<rparr>" using running by simp
    have e: "p_exit \<lparr>p_exit = None, p_term = None, p_child = True\<rparr> = None" by simp
    obtain t2 l2 where 2: "fst (fst (run_state (step_loop ?p ?s 60000 77 ?ss2 (Some ?q)) ?w2)) =
        fst (fst (run_state (step_loop ?p ?s 60000 77 ?ss3 (Some (q'\<lparr>q_sent := [], q_slept := []\<rparr>)))
          (?w2\<lparr>h_log := l2, h_clock := t2\<rparr>)))"
      using type_step [OF r2 e q'] by blast
    let ?w3 = "?w2\<lparr>h_log := l2, h_clock := t2\<rparr>"
    have r3: "h_procs ?w3 77 = Some \<lparr>p_exit = None, p_term = None, p_child = True\<rparr>" using running by simp
    have c3: "h_conns ?w3 = Some prompt_conn # []" by simp
    obtain t3 l3 where "fst (fst (run_state (step_loop ?p ?s 60000 77 ?ss3 (Some (q'\<lparr>q_sent := [], q_slept := []\<rparr>))) ?w3)) =
        fst (fst (run_state (step_loop ?p ?s 60000 77 [] (Some (q'\<lparr>q_sent := [], q_slept := []\<rparr>)))
          (?w3\<lparr>h_conns := [], h_clock := t3, h_log := l3\<rparr>)))"
      using expect_step [OF r3 e c3 prompt_conn_shows, of 60000] by (meson zero_less_numeral)
    then show ?thesis using 1 2 by simp
  qed
  then show ?thesis
    using w1(1) demo_run_starts by (simp add: run_steps_def demo_run_opts_def default_run_def guest_steps_def run_end_def split_beta)
qed

section \<open>Properties\<close>







text \<open>
  C36: A run has at most 64 steps. The steps on the command line become the steps of the run,
  in order; those after the first 64 are dropped without a message, and the run succeeds
  without them.
\<close>

theorem run_keeps_64_steps:
  assumes "\<forall>s \<in> set ss. \<not> st_ok s"
  shows "scan_args run_val run_word (default_run plugin) (''--iso'' # cd # concat (map step_args ss)) =
    Go ((default_run plugin)\<lparr>r_iso := Some cd, r_steps := take MAX_STEPS ss\<rparr>)"
  using scan_steps [OF assms, of "(default_run plugin)\<lparr>r_iso := Some cd\<rparr>"]
  by (simp add: run_val_def default_run_def)

theorem run_keeps_64_steps_witness:
  "scan_args run_val run_word (default_run ''/p.so'') [''--iso'', ''/k.iso'', ''--expect'', ''$''] =
     Go ((default_run ''/p.so'')\<lparr>r_iso := Some ''/k.iso'',
          r_steps := [\<lparr>st_kind = STEP_EXPECT, st_arg = ''$'', st_ok = False\<rparr>]\<rparr>)"
  using run_keeps_64_steps [of "[\<lparr>st_kind = STEP_EXPECT, st_arg = ''$'', st_ok = False\<rparr>]" "''/p.so''" "''/k.iso''"]
  by (simp add: step_args_def)


end
