(* ===== verification/Run_Disk.thy ===== *)
theory Run_Disk
  imports Run_Props
begin

text \<open>
  Two programs in one: \<open>run.c\<close> reads the files of the sessions with a parser of its own
  (\<open>disk_held_by_session\<close>), to refuse a disk that a session holds. On the files that
  \<open>save_session\<close> writes it agrees with \<open>load_session\<close> on the disk, the name and the pid, so \<open>run\<close>
  refuses what \<open>session start\<close> refuses; but it does not see a session called \<open>disk\<close>.
\<close>

section \<open>The crude parser\<close>

text \<open>A key without its colon is searched for, so a value can be taken for it.\<close>

lemma strstr_to_key:
  "DQ \<notin> set u \<Longrightarrow> strstr (u @ r) (quoted key) = strstr r (quoted key)"
  using strstr_to_quote [of u r key "[]"] by simp

lemma strstr_pass_quoted:
  assumes "key_ok key" "DQ \<notin> set v" "key \<noteq> v" "c \<in> {colon, CHR '','', LF}"
  shows "strstr (quoted v @ c # r) (quoted key) = strstr r (quoted key)"
proof -
  have c: "c \<noteq> DQ" "hd key \<noteq> c" "DQ \<notin> set key" "key \<noteq> []" using assms(1,4) by (auto simp: key_ok_def colon_def)
  have no: "\<not> prefix (quoted key) (quoted v @ c # r)"
    using assms(2,3) c(3) by (auto simp: quoted_def prefix_to_quote)
  have no': "\<not> prefix (quoted key) (DQ # c # r)"
    using c(2,4) by (cases key) (auto simp: quoted_def)
  have "strstr (quoted v @ c # r) (quoted key) = strstr (v @ DQ # c # r) (quoted key)"
    using no by (simp add: quoted_def)
  also have "\<dots> = strstr (DQ # c # r) (quoted key)" using assms(2) by (rule strstr_to_key)
  also have "\<dots> = strstr (c # r) (quoted key)" using no' by simp
  also have "\<dots> = strstr r (quoted key)" using strstr_to_key [of "[c]"] c(1) by simp
  finally show ?thesis .
qed

lemma pass_key:
  assumes "key_ok key" "DQ \<notin> set k" "key \<noteq> k"
  shows "strstr (seg k v e @ r) (quoted key) = strstr (v @ e @ r) (quoted key)"
proof -
  have "strstr (seg k v e @ r) (quoted key) = strstr (quoted k @ colon # SP # v @ e @ r) (quoted key)"
    using strstr_to_key [of "[SP, SP]"] by (simp add: seg_def)
  also have "\<dots> = strstr (SP # v @ e @ r) (quoted key)" using assms by (intro strstr_pass_quoted) auto
  also have "\<dots> = strstr (v @ e @ r) (quoted key)" using strstr_to_key [of "[SP]"] by simp
  finally show ?thesis .
qed

lemma pass_text:
  assumes "key_ok key" "DQ \<notin> set k" "key \<noteq> k" "clean_text u" "key \<noteq> u"
  shows "strstr (seg k (quoted u) sep @ r) (quoted key) = strstr r (quoted key)"
proof -
  have "strstr (quoted u @ sep @ r) (quoted key) = strstr (LF # r) (quoted key)"
    using assms strstr_pass_quoted [of key u "CHR '',''"] by (simp add: clean_text_def)
  then show ?thesis using pass_key [OF assms(1-3)] strstr_to_key [of "[LF]"] by simp
qed

lemma pass_num:
  assumes "key_ok key" "DQ \<notin> set k" "key \<noteq> k" "0 \<le> p"
  shows "strstr (seg k (dec_int p) sep @ r) (quoted key) = strstr r (quoted key)"
proof -
  have "DQ \<notin> set (dec_int p @ sep)" using assms(4) dec_is_digit DQ_no_digit by (auto simp: dec_int_def)
  then show ?thesis using pass_key [OF assms(1-3)] strstr_to_key [of "dec_int p @ sep"] by simp
qed

lemma strstr_open_key: "strstr (CHR ''{'' # LF # r) (quoted key) = strstr r (quoted key)"
  using strstr_to_key [of "[CHR ''{'', LF]"] by simp

lemma seg_found: "strstr (seg key v e @ r) (quoted key) = Some (quoted key @ colon # SP # v @ e @ r)"
  using strstr_to_key [of "[SP, SP]"] by (simp add: seg_def strstr_prefix)

lemma crude_after_seg:
  assumes "strstr buf (quoted key) = strstr (seg key v e @ r) (quoted key)" "colon \<notin> set (quoted key)"
  shows "crude_after buf key = Some (SP # v @ e @ r)"
proof -
  have "dropWhile (\<lambda>c. c \<noteq> CHR '':'') (quoted key @ colon # t) = colon # t" for t
    using assms(2) by (subst dropWhile_append2) (auto simp: colon_def)
  then show ?thesis using assms(1) by (simp add: crude_after_def seg_found)
qed

lemma crude_string_seg:
  assumes "strstr buf (quoted key) = strstr (seg key (quoted u) e @ r) (quoted key)" "colon \<notin> set (quoted key)"
    and "DQ \<notin> set u" "length u < n"
  shows "crude_string buf key n = u"
proof -
  have "takeWhile (\<lambda>c. c \<noteq> DQ) (u @ DQ # e @ r) = u" using assms(3) by (subst takeWhile_append2) auto
  then show ?thesis
    using crude_after_seg [OF assms(1,2)] assms(4) by (simp add: crude_string_def quoted_def blank_def)
qed

text \<open>What it finds in the file of a session.\<close>

definition disk_readable :: "qc_session \<Rightarrow> bool" where
  "disk_readable s \<longleftrightarrow> ''disk'' \<notin> {s_id s, s_plugin_sock s, s_qmp_sock s, s_logpath s, s_iso s}"

lemma key_id: "key_ok ''id''" by (simp add: key_ok_def colon_def)

lemma colon_keys: "colon \<notin> set (quoted ''disk'')" "colon \<notin> set (quoted ''id'')" "colon \<notin> set (quoted ''pid'')"
  by (simp_all add: quoted_def colon_def)

lemma crude_disk:
  assumes "clean_session s" "session_wf s" "disk_readable s"
  shows "crude_string (session_text_of s) ''disk'' 4096 = s_disk s"
proof -
  have c: "clean_text (s_id s)" "clean_text (s_plugin_sock s)" "clean_text (s_qmp_sock s)"
    "clean_text (s_logpath s)" "clean_text (s_iso s)" "clean_text (s_disk s)" "s_prompt s \<noteq> []" "0 \<le> s_pid s"
    using assms(1) by (simp_all add: clean_session_def)
  obtain r where "strstr (session_text_of s) (quoted ''disk'') = strstr (seg ''disk'' (quoted (s_disk s)) sep @ r) (quoted ''disk'')"
    using assms(3) c
    by (simp add: disk_readable_def session_text_segs strstr_open_key pass_text pass_num key_ok_keys del: strstr.simps)
  then show ?thesis
    using crude_string_seg [OF _ colon_keys(1)] c(6) assms(2) by (simp add: clean_text_def session_wf_def)
qed

lemma crude_id:
  assumes "clean_session s" "session_wf s"
  shows "crude_string (session_text_of s) ''id'' 64 = s_id s"
proof -
  obtain r where "strstr (session_text_of s) (quoted ''id'') = strstr (seg ''id'' (quoted (s_id s)) sep @ r) (quoted ''id'')"
    using assms(1) by (simp add: clean_session_def session_text_segs strstr_open_key del: strstr.simps)
  then show ?thesis
    using crude_string_seg [OF _ colon_keys(2)] assms by (simp add: clean_session_def clean_text_def session_wf_def)
qed

lemma strtol10_blank: "n < 2 ^ 31 \<Longrightarrow> strtol10 (SP # dec n @ CHR '','' # r) = int n"
  using strtol10_dec(1) [of n r] by (simp add: strtol10_def is_space_def)

text \<open>A session called \<open>pid\<close> is no trouble: the next colon after its name is the right one.\<close>

lemma crude_pid:
  assumes "clean_session s" "session_wf s"
  shows "crude_long (session_text_of s) ''pid'' = s_pid s"
proof -
  obtain n where n: "s_pid s = int n" "n < 2 ^ 31"
    using assms by (auto simp: clean_session_def session_wf_def elim: nonneg_int_cases)
  have c: "clean_text (s_id s)" "s_prompt s \<noteq> []" using assms(1) by (simp_all add: clean_session_def)
  obtain r where segs: "session_text_of s = [CHR ''{'', LF] @ seg ''id'' (quoted (s_id s)) sep @ seg ''pid'' (dec_int (s_pid s)) sep @ r"
    using session_text_segs [OF c(2)] by simp
  have "crude_after (session_text_of s) ''pid'' = Some (SP # dec_int (s_pid s) @ sep @ r)"
  proof (cases "s_id s = ''pid''")
    case False
    then have "strstr (session_text_of s) (quoted ''pid'') = strstr (seg ''pid'' (dec_int (s_pid s)) sep @ r) (quoted ''pid'')"
      unfolding segs using c(1) by (simp add: strstr_open_key pass_text key_ok_keys del: strstr.simps)
    then show ?thesis using crude_after_seg [OF _ colon_keys(3)] by simp
  next
    case True
    have "strstr (session_text_of s) (quoted ''pid'') =
        Some (quoted ''pid'' @ sep @ seg ''pid'' (dec_int (s_pid s)) sep @ r)"
    proof -
      have "strstr (session_text_of s) (quoted ''pid'') =
          strstr (quoted ''pid'' @ sep @ seg ''pid'' (dec_int (s_pid s)) sep @ r) (quoted ''pid'')"
        unfolding segs True using pass_key [of "''pid''" "''id''" "quoted ''pid''" sep]
        by (simp add: strstr_open_key key_ok_keys del: strstr.simps)
      then show ?thesis by (simp only: strstr_head)
    qed
    then show ?thesis by (simp add: crude_after_def quoted_def seg_def colon_def)
  qed
  then show ?thesis using strtol10_blank n by (simp add: crude_long_def dec_int_def)
qed

text \<open>A session called \<open>disk\<close>: the pid stands after the next colon, and no disk is found.\<close>

lemma crude_disk_named_disk:
  assumes "clean_session s" "s_id s = ''disk''"
  shows "crude_string (session_text_of s) ''disk'' 4096 = []"
proof -
  have c: "s_prompt s \<noteq> []" "0 \<le> s_pid s" using assms(1) by (simp_all add: clean_session_def)
  obtain r where segs: "session_text_of s = [CHR ''{'', LF] @ seg ''id'' (quoted ''disk'') sep @ seg ''pid'' (dec_int (s_pid s)) sep @ r"
    using session_text_segs [OF c(1)] assms(2) by simp
  have "strstr (session_text_of s) (quoted ''disk'') =
      strstr (quoted ''disk'' @ sep @ seg ''pid'' (dec_int (s_pid s)) sep @ r) (quoted ''disk'')"
    unfolding segs using pass_key [of "''disk''" "''id''" "quoted ''disk''" sep]
    by (simp add: strstr_open_key key_ok_keys del: strstr.simps)
  then have "crude_after (session_text_of s) ''disk'' = Some (SP # dec_int (s_pid s) @ sep @ r)"
    by (simp only: strstr_head) (simp add: crude_after_def quoted_def seg_def colon_def)
  moreover obtain a ds where "dec_int (s_pid s) = a # ds" "is_digit 10 a"
    using c(2) dec_is_digit [OF hd_in_set, of "nat (s_pid s)"] by (cases "dec (nat (s_pid s))") (auto simp: dec_int_def)
  ultimately show ?thesis
    using DQ_no_digit by (auto simp: crude_string_def blank_def is_digit_def digit_val_def)
qed

section \<open>The search\<close>

lemma run_real_or_copy: "run_state (real_or_copy p) w = (if p = [] then [] else fst (run_state (realpath_or p) w), w)"
  by (simp add: real_or_copy_def realpath_or_def)

lemma held_loop_finds:
  assumes "clean_session other" "session_wf other" "disk_readable other" "alive w (s_pid other)"
    and "s_disk other \<noteq> []" "s_id other \<noteq> []" "fst (run_state (realpath_or (s_disk other)) w) = want"
    and "h_files w (snprintf 320 (dir @ ''/'' @ s_id other @ ''.json'')) = Some (session_text_of other)"
    and "s_id other @ ''.json'' \<in> set names"
  shows "\<exists>i pid. run_state (held_loop dir want names) w = (Some (i, pid), w)"
  using assms(9)
proof (induction names)
  case (Cons e names)
  show ?case
  proof (cases "e = s_id other @ ''.json''")
    case True
    have "suffix ''.json'' e" "\<not> length e < 6"
      using assms(6) True by (auto simp: suffix_def Suc_le_eq neq_Nil_conv)
    moreover have "sint (word_of_int (s_pid other) :: u32) = s_pid other"
      using assms(1,2) unfolding int_word_sint by (simp add: clean_session_def session_wf_def)
    ultimately show ?thesis
      using session_text_reads [OF assms(1,2)] crude_disk [OF assms(1-3)] crude_id [OF assms(1,2)]
        crude_pid [OF assms(1,2)] assms(4-8) True
      by (simp add: run_real_or_copy kill0_def Let_def)
  next
    case False
    then show ?thesis using Cons by (auto simp: run_real_or_copy Let_def split: option.split)
  qed
qed simp

section \<open>Properties\<close>

text \<open>
  C10: \<open>run_session\<close>, which \<open>run\<close> and \<open>guest\<close> call, refuses a disk that a live session
  holds, under this or another path: it prints who holds it and returns 3, and no process is
  started or killed and no file or socket removed. The file of the session is read by a
  second, cruder parser, which finds the disk unless a text before it in the file is exactly
  \<open>disk\<close>.
\<close>

theorem run_refuses_held_disk:
  assumes "clean_session other" "session_wf other" "disk_readable other"
    and "session_on_disk other w" "alive w (s_pid other)" "s_disk other \<noteq> []" "s_id other \<noteq> []"
    and "r_disk r = Some d" "d \<noteq> []" "is_file w (r_iso r)" "is_file w (Some d)"
    and "fst (run_state (exists_path (r_plugin r)) w)"
    and "run_state (realpath_or (s_disk other)) w = run_state (realpath_or d) w"
    and "h_real w d \<noteq> Some []"
    and "h_dirs w (session_dir w 256)" "length (runtime_dir w) \<le> 200"
    and "s_id other @ ''.json'' \<in> set (h_listing w (session_dir w 256))"
    and "run_state (run_session r) w = (rc, w')"
  shows "rc = 3 \<and> (\<exists>i pid. w' = w\<lparr>h_out := h_out w @ locked_report i pid d None\<rparr>)"
proof -
  let ?dir = "session_dir w 256"
  let ?names = "filter (\<lambda>e. h_files w (?dir @ ''/'' @ e) \<noteq> None) (h_listing w ?dir)"
  have path: "session_path w (s_id other) 320 = ?dir @ ''/'' @ s_id other @ ''.json''"
    using assms(2,16) by (simp add: session_path_def session_dir_def snprintf_def session_wf_def) arith
  have saved: "h_files w (snprintf 320 (?dir @ ''/'' @ s_id other @ ''.json'')) = Some (session_text_of other)"
    using assms(4) by (simp add: session_on_disk_def session_path_def)
  have "s_id other @ ''.json'' \<in> set ?names"
    using assms(4,17) path by (simp add: session_on_disk_def)
  from held_loop_finds [OF assms(1-3,5-7) _ saved this] assms(13) obtain i pid where
    found: "run_state (held_loop ?dir (fst (run_state (realpath_or d) w)) ?names) w = (Some (i, pid), w)"
    by auto
  have "fst (run_state (realpath_or d) w) \<noteq> []"
    using assms(9,14) by (auto simp: realpath_or_def snprintf_def split: option.split)
  then have "run_state (disk_held_by_session d) w = (Some (i, pid), w)"
    using found assms(9,15) by (simp add: disk_held_by_session_def run_real_or_copy opendir_def)
  moreover have "run_state (exists_path (r_plugin r)) w = (True, w)"
    using assms(12) by (simp add: exists_path_def)
  ultimately show ?thesis
    using assms(8,10,11,18) by (auto simp: run_session_def print_def)
qed

text \<open>The world of the session examples, with the files that \<open>run\<close> needs.\<close>

definition held_host :: host where
  "held_host = busy_host\<lparr>h_files := (h_files busy_host)(''/k.iso'' \<mapsto> [], ''/p.so'' \<mapsto> [], ''/d.img'' \<mapsto> [])\<rparr>"

theorem run_refuses_held_disk_witness:
  "fst (run_state (run_session demo_run_opts) held_host) = 3"
proof -
  have s: "disk_readable demo_session" "s_disk demo_session = ''/d.img''" "s_id demo_session = ''default''"
    by (simp_all add: disk_readable_def demo_session_def)
  have r: "r_disk demo_run_opts = Some ''/d.img''" "r_iso demo_run_opts = Some ''/k.iso''" "r_plugin demo_run_opts = ''/p.so''"
    by (simp_all add: demo_run_opts_def default_run_def)
  have w: "runtime_dir held_host = ''/tmp''" "session_on_disk demo_session held_host"
    "h_dirs held_host (session_dir held_host 256)" "h_listing held_host = (\<lambda>_. [''default.json''])"
    "alive held_host (s_pid demo_session)" "h_real held_host = (\<lambda>_. None)"
    "is_file held_host (Some ''/k.iso'')" "is_file held_host (Some ''/d.img'')"
    "fst (run_state (exists_path ''/p.so'') held_host)"
    by (simp_all add: held_host_def busy_host_def bare_host_def runtime_dir_def session_on_disk_def session_path_def
        session_dir_def snprintf_def demo_session_def alive_def gone_def is_file_def exists_path_def)
  show ?thesis
    using run_refuses_held_disk [OF demo_session_ok s(1) w(2,5) _ _ r(1) _ _ _ _ _ _ w(3) _ _ prod.collapse [symmetric]]
      s(2,3) r(2,3) w(1,4,6-9) by simp
qed

text \<open>
  C37: \<open>run\<close> does not see a session called \<open>disk\<close>. Its parser takes the name for the key: the
  disk of that session is free for it, although the session is live and \<open>session start\<close> would
  refuse it.
\<close>

theorem session_named_disk_unseen:
  assumes "clean_session other" "session_wf other" "s_id other = ''disk''" "session_on_disk other w"
    and "h_listing w (session_dir w 256) = [''disk.json'']"
  shows "run_state (disk_held_by_session d) w = (None, w)"
proof -
  have "h_files w (snprintf 320 (session_dir w 256 @ ''/disk.json'')) = Some (session_text_of other)"
    using assms(3,4) by (simp add: session_on_disk_def session_path_def)
  then have "run_state (held_loop (session_dir w 256) want [''disk.json'']) w = (None, w)" for want
    using session_text_reads [OF assms(1,2)] crude_disk_named_disk [OF assms(1,3)] by (simp add: Let_def)
  then show ?thesis
    using assms(5) by (simp add: disk_held_by_session_def run_real_or_copy opendir_def)
qed

theorem session_named_disk_unseen_witness:
  "\<exists>s w. s_disk s = ''/d.img'' \<and> alive w (s_pid s) \<and> session_on_disk s w \<and>
     run_state (disk_held_by_session ''/d.img'') w = (None, w)"
proof -
  let ?s = "demo_session\<lparr>s_id := ''disk''\<rparr>"
  let ?w = "busy_host\<lparr>h_files := [''/tmp/qemu-connect-sessions/disk.json'' \<mapsto> session_text_of ?s],
                      h_listing := (\<lambda>_. [''disk.json''])\<rparr>"
  have s: "clean_session ?s" "session_wf ?s"
    using demo_session_ok by (simp_all add: clean_session_def session_wf_def clean_text_def)
  have w: "session_on_disk ?s ?w" "alive ?w (s_pid ?s)"
    by (simp_all add: busy_host_def bare_host_def runtime_dir_def session_on_disk_def session_path_def
        session_dir_def snprintf_def demo_session_def alive_def gone_def)
  show ?thesis
    using session_named_disk_unseen [OF s _ w(1)] w
    by (intro exI [of _ ?s] exI [of _ ?w]) (simp add: demo_session_def)
qed

end
