(* ===== verification/Cli_Main.thy ===== *)
theory Cli_Main
  imports Run Server
begin

text \<open>
  cli/main.c: the command line of \<open>qemu-connect\<close>. The options before the command give the
  sockets; the command is looked up in a table, and runs on the host with the arguments after
  it. The result is the exit code; usage texts and other messages go to stderr and are left
  out. The argument list here is without the program's name.
\<close>

section \<open>Arguments\<close>

text \<open>The options before the command: the sockets, and the arguments from the command on.\<close>

fun main_flags :: "string \<Rightarrow> string option \<Rightarrow> string list \<Rightarrow> (string \<times> string option) \<times> string list" where
  "main_flags sock qmp (a # v # as) =
     (if a = ''--socket'' then main_flags v qmp as
      else if a = ''--qmp'' then main_flags sock (Some v) as
      else ((sock, qmp), a # v # as))"
| "main_flags sock qmp as = ((sock, qmp), as)"

fun find_qmp_path :: "string list \<Rightarrow> string option \<Rightarrow> string option" where
  "find_qmp_path (a # v # as) fallback =
     (if a = ''--qmp'' then Some v else find_qmp_path (v # as) fallback)"
| "find_qmp_path as fallback = fallback"

text \<open>The arguments after \<open>get_console\<close>, \<open>expect\<close> and \<open>type\<close>; what is not known is skipped.\<close>

record main_opts =
  m_sock :: string
  m_text_only :: bool
  m_refresh :: bool
  m_timeout :: int
  m_enter :: bool

definition default_main :: "string \<Rightarrow> main_opts" where
  "default_main sock =
     \<lparr>m_sock = sock, m_text_only = False, m_refresh = False, m_timeout = 30000, m_enter = True\<rparr>"

definition sock_val :: "string \<Rightarrow> (string \<Rightarrow> main_opts \<Rightarrow> main_opts) option" where
  "sock_val = map_of [(''--socket'', \<lambda>v r. r\<lparr>m_sock := v\<rparr>)]"

definition main_expect_val :: "string \<Rightarrow> (string \<Rightarrow> main_opts \<Rightarrow> main_opts) option" where
  "main_expect_val = map_of
     [(''--timeout'', \<lambda>v r. r\<lparr>m_timeout := (if atoi v \<le> 0 then 30000 else atoi v)\<rparr>),
      (''--socket'', \<lambda>v r. r\<lparr>m_sock := v\<rparr>)]"

definition main_console_word :: "string \<Rightarrow> main_opts \<Rightarrow> main_opts scanned" where
  "main_console_word a r = Go
     (if a = ''--text-only'' then r\<lparr>m_text_only := True\<rparr>
      else if a = ''--refresh'' then r\<lparr>m_refresh := True\<rparr>
      else r)"

definition main_type_word :: "string \<Rightarrow> main_opts \<Rightarrow> main_opts scanned" where
  "main_type_word a r = Go
     (if a = ''--no-enter'' then r\<lparr>m_enter := False\<rparr>
      else if a = ''--enter'' then r\<lparr>m_enter := True\<rparr>
      else r)"

section \<open>Commands on the plugin's socket\<close>

definition refresh_cmd :: string where
  \<open>refresh_cmd = ''{"cmd":"get_console","refresh":true}''\<close>

definition main_get_console :: "string \<Rightarrow> string list \<Rightarrow> (host, int) state" where
  \<open>main_get_console sock as =
     (let r = scan_all sock_val main_console_word (default_main sock) as;
          line = (if m_refresh r then refresh_cmd else get_console_cmd)
      in if \<not> m_text_only r then request (m_sock r) line
         else do {
           b \<leftarrow> request_buf (m_sock r) line RESP_MAX;
           (case b of
              None \<Rightarrow> give 1
            | Some buf \<Rightarrow>
                if strstr (c_str buf) ''"ok":false'' \<noteq> None then give 1
                else print_text_only (c_str buf)) })\<close>

definition main_expect :: "string \<Rightarrow> string list \<Rightarrow> (host, int) state" where
  "main_expect sock as =
     (case as of
        [] \<Rightarrow> give 2
      | needle # as \<Rightarrow>
          (let r = scan_all main_expect_val (\<lambda>a r. Go r) (default_main sock) as
           in cmd_expect (m_sock r) (Some needle) (m_timeout r)))"

definition main_raw :: "string \<Rightarrow> string list \<Rightarrow> (host, int) state" where
  "main_raw sock as = (case as of [] \<Rightarrow> give 2 | line # _ \<Rightarrow> request sock line)"

section \<open>Commands on QMP\<close>

text \<open>
  The command on the open connection: its result (None: the usage, exit code 2), the text on
  stdout, whether the buffer \<open>out\<close> was read without having been written, and the connection.
  A response line has no newline, so a newline in \<open>out\<close> stands for its initial content.
\<close>

definition query_status_cmd :: string where
  \<open>query_status_cmd = ''{"execute":"query-status"}''\<close>

definition main_qmp_ping :: "qc_qmp option \<Rightarrow> int option \<times> string \<times> bool \<times> qc_qmp option" where
  "main_qmp_ping q =
     (let (rc, out, q) = qc_qmp_execute q query_status_cmd [LF] 2048
      in (Some rc, if rc = 0 then out @ [LF] else [], out = [LF], q))"

definition main_quit :: "qc_qmp option \<Rightarrow> int option \<times> string \<times> bool \<times> qc_qmp option" where
  "main_quit q = (let (rc, q) = qc_qmp_quit q in (Some rc, [], False, q))"

definition main_key :: "string list \<Rightarrow> qc_qmp option \<Rightarrow> int option \<times> string \<times> bool \<times> qc_qmp option" where
  "main_key as q =
     (case as of
        [] \<Rightarrow> (None, [], False, q)
      | qcode # _ \<Rightarrow> (let (rc, q) = qc_qmp_send_key q (Some qcode) in (Some rc, [], False, q)))"

definition main_type :: "string list \<Rightarrow> qc_qmp option \<Rightarrow> int option \<times> string \<times> bool \<times> qc_qmp option" where
  "main_type as q =
     (case as of
        [] \<Rightarrow> (None, [], False, q)
      | line # as \<Rightarrow>
          (let r = scan_all Map.empty main_type_word (default_main []) as;
               (rc, q) = qc_qmp_type_line q (Some line) 20 (m_enter r)
           in (Some rc, [], False, q)))"

text \<open>The connection around it.\<close>

definition main_qmp :: "string option \<Rightarrow> string list \<Rightarrow>
    (qc_qmp option \<Rightarrow> int option \<times> string \<times> bool \<times> qc_qmp option) \<Rightarrow> (host, int) state" where
  "main_qmp qmp as body =
     (case (case qmp of Some p \<Rightarrow> Some p | None \<Rightarrow> find_qmp_path as None) of
        None \<Rightarrow> give 2
      | Some qp \<Rightarrow> do {
          q \<leftarrow> qmp_open qp;
          if q = None then give 1
          else do {
            let (rc, out, unset, q) = body q;
            (if unset then undefined_at Uninitialised else give ());
            print out;
            qc_qmp_close qp q;
            give (case rc of None \<Rightarrow> 2 | Some rc \<Rightarrow> if rc = 0 then 0 else 1) } })"

section \<open>The program\<close>

definition version_cmd :: string where \<open>version_cmd = ''{"cmd":"version"}''\<close>
definition agent_event_cmd :: string where \<open>agent_event_cmd = ''{"cmd":"get_agent_event"}''\<close>

definition main_commands :: "string \<Rightarrow> string option \<Rightarrow> string list \<Rightarrow> (string \<times> (host, int) state) list" where
  "main_commands sock qmp as =
     [(''run'', qc_cmd_run as), (''guest'', qc_cmd_guest as), (''session'', qc_cmd_session as),
      (''ping'', request sock ping_cmd), (''version'', request sock version_cmd),
      (''status'', request sock status_cmd), (''get_agent_event'', request sock agent_event_cmd),
      (''get_console'', main_get_console sock as), (''expect'', main_expect sock as),
      (''raw'', main_raw sock as),
      (''qmp-ping'', main_qmp qmp as main_qmp_ping), (''quit'', main_qmp qmp as main_quit),
      (''key'', main_qmp qmp as (main_key as)), (''type'', main_qmp qmp as (main_type as))]"

text \<open>Anything else, \<open>help\<close> included, is the usage.\<close>

definition client_main :: "string list \<Rightarrow> (host, int) state" where
  "client_main args =
     (case main_flags DEFAULT_SOCK None args of
        (_, []) \<Rightarrow> give 2
      | ((sock, qmp), c # as) \<Rightarrow>
          (case map_of (main_commands sock qmp as) c of Some m \<Rightarrow> m | None \<Rightarrow> give 2))"

end
