(* ===== verification/Cli_Main_Props.thy ===== *)
theory Cli_Main_Props
  imports Cli_Main Session_Input
begin

text \<open>
  What the program as a whole does, from its argument list on: a request given on the
  command line reaches the plugin's server as one line and the plugin's answer comes back to
  stdout as it is; \<open>get_console --text-only\<close> prints the screen, whatever the guest wrote on
  it; \<open>type\<close> types its text; \<open>qmp-ping\<close> prints a buffer that it never filled when QEMU closes
  the connection.
\<close>

section \<open>Requests\<close>

text \<open>The line that the arguments stand for.\<close>

fun request_line :: "string list \<Rightarrow> string option" where
  "request_line [c] = map_of
     [(''ping'', ping_cmd), (''version'', version_cmd), (''status'', status_cmd),
      (''get_agent_event'', agent_event_cmd), (''get_console'', get_console_cmd)] c"
| "request_line [c, a] =
     (if c = ''raw'' then Some a
      else if c = ''get_console'' \<and> a = ''--refresh'' then Some refresh_cmd else None)"
| "request_line _ = None"

lemma client_request:
  assumes "request_line as = Some line"
  shows "client_main (''--socket'' # p # as) = request p line"
  using assms
  by (cases as rule: request_line.cases)
     (auto simp: client_main_def main_commands_def main_get_console_def main_raw_def default_main_def
        sock_val_def main_console_word_def Let_def scan_all_def split: if_splits)

text \<open>A reply of one printable line is printed as it is.\<close>

lemma run_request:
  assumes "h_conns w = Some c # cs" "c_write c" "c_chunks c = ds @ rest" "delivers ds (resp @ [LF])"
    and "plain resp" "length resp + 1 < RESP_MAX"
  shows "run_state (request p line) w =
    (0, w\<lparr>h_conns := cs, h_clock := h_clock w + int (c_time c),
          h_log := h_log w @ [E_request (snprintf SUN_PATH p) (snprintf 4096 (line @ [LF]))],
          h_out := h_out w @ resp @ [LF]\<rparr>)"
proof -
  have "read_reply RESP_MAX (ds @ rest) [] = (resp @ [LF], False)"
    using read_reply_line [OF assms(4), of "[]" resp RESP_MAX rest] assms(5,6) plain_no_LF by simp
  then show ?thesis
    using assms(1-3) c_str_line [OF assms(5)] by (simp add: request_def request_buf_def run_ask print_def)
qed

section \<open>The text of the screen\<close>

text \<open>No text of the screen looks like the mark of a failed request: its quotes are escaped.\<close>

abbreviation (input) failed_mark :: string where
  \<open>failed_mark \<equiv> ''"ok":false''\<close>

lemma esc_char_cases:
  obtains (plain_char) "c \<noteq> DQ" "c \<noteq> BS" "esc_char c = [c]"
    | (quote) "esc_char c = [BS, DQ]"
    | (other) e where "esc_char c = BS # e" "DQ \<notin> set e"
proof (cases "c = DQ \<or> c = BS \<or> c = LF \<or> c = CR \<or> c = TAB")
  case True
  then show thesis using quote other by (auto simp: esc_char_def escape_of_def)
next
  case False
  have "DQ \<notin> set (take 6 (CHR ''u'' # hex4 (ord c)))"
    using hex4_word [of "ord c"] by (fastforce dest!: in_set_takeD)
  then show thesis
    using False plain_char other by (cases "ord c < 32") (auto simp: esc_char_def escape_of_def snprintf_def)
qed

lemma escaped_head:
  assumes "prefix (c # u) (escaped s @ DQ # r)" "c \<noteq> DQ" "c \<noteq> BS"
  obtains s' where "escaped s = c # escaped s'" "prefix u (escaped s' @ DQ # r)"
proof (cases s)
  case Nil
  then show thesis using assms by simp
next
  case (Cons a s')
  then show thesis using assms that by (cases a rule: esc_char_cases) auto
qed

lemma no_mark_at_escaped:
  "\<not> prefix (CHR ''o'' # CHR ''k'' # DQ # CHR '':'' # u) (escaped s @ DQ # ''}}'' @ r)"
proof
  assume "prefix (CHR ''o'' # CHR ''k'' # DQ # CHR '':'' # u) (escaped s @ DQ # ''}}'' @ r)"
  then obtain s1 where "prefix (CHR ''k'' # DQ # CHR '':'' # u) (escaped s1 @ DQ # ''}}'' @ r)"
    by (rule escaped_head) simp_all
  then obtain s2 where last: "prefix (DQ # CHR '':'' # u) (escaped s2 @ DQ # ''}}'' @ r)"
    by (rule escaped_head) simp_all
  show False
  proof (cases s2)
    case Nil
    then show False using last by simp
  next
    case (Cons a s3)
    then show False using last by (cases a rule: esc_char_cases) auto
  qed
qed

lemma escaped_no_mark: "strstr (escaped s @ DQ # ''}}'' @ [LF]) failed_mark = None"
proof (induction s)
  case (Cons c s)
  show ?case
  proof (cases c rule: esc_char_cases)
    case quote
    then show ?thesis using Cons no_mark_at_escaped by (simp add: append_assoc)
  next
    case (other e)
    then have "\<forall>c \<in> set e. c \<noteq> hd failed_mark" by auto
    then have "strstr (e @ r) failed_mark = strstr r failed_mark" for r
      by (rule strstr_skip [rotated]) simp
    then show ?thesis using Cons other(1) by simp
  qed (use Cons in auto)
qed simp

lemma console_no_mark:
  assumes "source = ''refresh'' \<or> source = ''shadow''"
  shows "strstr (console_body source w n st (escaped s) @ [LF]) failed_mark = None"
proof -
  have int: "strstr (dec_int 80 @ x) failed_mark = strstr x failed_mark"
      "strstr (dec_int 25 @ x) failed_mark = strstr x failed_mark" for x
    by (simp_all add: dec_int_def strstr_dec DQ_no_digit)
  show ?thesis
    using assms escaped_no_mark [of s] no_mark_at_escaped [of "''false''" s "[LF]"]
    by (elim disjE) (simp_all add: console_body_def int strstr_dec DQ_no_digit)
qed

section \<open>Properties\<close>

text \<open>
  C8: A request on the command line reaches the plugin and its answer comes back. For
  \<open>ping\<close>, \<open>version\<close>, \<open>status\<close>, \<open>get_agent_event\<close>, \<open>get_console\<close> (with \<open>--refresh\<close>) and \<open>raw\<close>
  with any line of fewer than 4095 characters, the client sends exactly the line of the
  request, the plugin's server turns it into one response line, and whatever pieces that
  comes back in, the client prints exactly it and exits with 0.
\<close>

theorem main_relays_plugin:
  assumes "request_line as = Some line" "LF \<notin> set line" "length line < 4095"
    and "plugin_ok (service srv)" "line_buf srv = []" "client_fd srv \<ge> 0"
  shows "\<exists>resp pl.
    feed_client_bytes serve_line (line @ [LF]) [] srv =
      Inr (srv\<lparr>service := pl, sent := sent srv @ [(client_fd srv, resp @ [LF])]\<rparr>, []) \<and>
    (\<forall>w c cs ds rest. h_conns w = Some c # cs \<longrightarrow> c_write c \<longrightarrow> c_chunks c = ds @ rest \<longrightarrow>
       delivers ds (resp @ [LF]) \<longrightarrow>
       run_state (client_main (''--socket'' # p # as)) w =
         (0, w\<lparr>h_conns := cs, h_clock := h_clock w + int (c_time c),
               h_log := h_log w @ [E_request (snprintf SUN_PATH p) (line @ [LF])],
               h_out := h_out w @ resp @ [LF]\<rparr>))"
proof -
  have "\<forall>l \<in> set [line]. LF \<notin> set l \<and> length l < MAX_LINE" using assms(2,3) by simp
  from proto.feed_lines [OF assms(4-6) order_refl this] obtain rs pl where
    all: "serve_all serve_line [request_of line] (service srv) = Inr (rs, pl)" "length rs = 1"
    and feed: "feed_client_bytes serve_line (line @ [LF]) [] srv =
      Inr (srv\<lparr>service := pl, sent := sent srv @ map (\<lambda>r. (client_fd srv, r @ [LF])) rs\<rparr>, [])"
    by auto
  obtain resp where rs: "rs = [resp]" using all(2) by (cases rs) auto
  obtain r pl' where r: "serve_line (request_of line) (service srv) = Inr (r, pl')" "plain r"
    "length r + 1 < RESP_MAX"
    using serve_line_ok [OF assms(4)] by blast
  have "r = resp" using all(1) r(1) rs by simp
  then show ?thesis
    using feed rs r(2,3) run_request client_request [OF assms(1)] assms(3)
    by (intro exI [of _ resp] exI [of _ pl]) (simp add: snprintf_def [of 4096])
qed

theorem main_relays_plugin_witness:
  "\<exists>resp pl. feed_client_bytes serve_line (ping_cmd @ [LF]) [] demo_server =
      Inr (demo_server\<lparr>service := pl, sent := [(5, resp @ [LF])]\<rparr>, []) \<and>
    h_out (snd (run_state (client_main [''--socket'', ''/tmp/s'', ''ping''])
      (bare_host\<lparr>h_conns := [Some \<lparr>c_time = 2, c_write = True, c_chunks = [K_data (resp @ [LF])]\<rparr>]\<rparr>))) =
    resp @ [LF]"
proof -
  have ping: "LF \<notin> set ping_cmd" "length ping_cmd < 4095" by (simp_all add: ping_cmd_def)
  have sent: "sent demo_server = []" by (simp add: demo_server_def)
  have "request_line [''ping''] = Some ping_cmd" by simp
  from main_relays_plugin [OF this ping demo_server_ok(1,2), of "''/tmp/s''"] obtain resp pl where
    feed: "feed_client_bytes serve_line (ping_cmd @ [LF]) [] demo_server =
      Inr (demo_server\<lparr>service := pl, sent := [(5, resp @ [LF])]\<rparr>, [])"
    and run: "\<forall>w c cs ds rest. h_conns w = Some c # cs \<longrightarrow> c_write c \<longrightarrow> c_chunks c = ds @ rest \<longrightarrow>
       delivers ds (resp @ [LF]) \<longrightarrow>
       run_state (client_main [''--socket'', ''/tmp/s'', ''ping'']) w =
         (0, w\<lparr>h_conns := cs, h_clock := h_clock w + int (c_time c),
               h_log := h_log w @ [E_request (snprintf SUN_PATH ''/tmp/s'') (ping_cmd @ [LF])],
               h_out := h_out w @ resp @ [LF]\<rparr>)"
    unfolding sent demo_server_ok(3) append_Nil by (metis zero_le_numeral)
  let ?c = "\<lparr>c_time = 2, c_write = True, c_chunks = [K_data (resp @ [LF])]\<rparr>"
  have "run_state (client_main [''--socket'', ''/tmp/s'', ''ping'']) (bare_host\<lparr>h_conns := [Some ?c]\<rparr>) =
      (0, bare_host\<lparr>h_conns := [], h_clock := 2,
            h_log := [E_request (snprintf SUN_PATH ''/tmp/s'') (ping_cmd @ [LF])], h_out := resp @ [LF]\<rparr>)"
    using run [rule_format, of "bare_host\<lparr>h_conns := [Some ?c]\<rparr>" ?c "[]" "[K_data (resp @ [LF])]" "[]"]
    by (simp add: bare_host_def)
  then show ?thesis using feed by (intro exI [of _ resp] exI [of _ pl] conjI) simp_all
qed



section \<open>QMP commands\<close>

lemma client_qmp:
  assumes "h_qmps w = (conn, mem) # qs" "qc_qmp_connect (Some qp) conn mem = Some q"
    and "body (Some q) = (Some rc, out, unset, Some q')"
  shows "run_state (main_qmp (Some qp) as body) w =
    (if rc = 0 then 0 else 1,
     w\<lparr>h_qmps := qs, h_ub := (if unset \<and> h_ub w = None then Some Uninitialised else h_ub w),
       h_out := h_out w @ out, h_clock := h_clock w + int (nat (sum_list (q_slept q'))),
       h_log := h_log w @ [E_input qp (q_sent q')]\<rparr>)"
  using assms
  by (simp add: main_qmp_def qmp_open_def qc_qmp_close_def undefined_at_def print_def sleep_def log_event_def)

text \<open>
  \<open>type\<close> types its text. When QEMU accepts the connection and answers every key, the
  client sends after the handshake exactly the keys of the text, in order, and then Enter,
  with 20 ms after each of them, prints nothing and exits with 0.
\<close>

theorem main_type_types:
  assumes "h_qmps w = (conn, mem) # qs" "qc_qmp_connect (Some qp) conn mem = Some q"
    and "q_writes q = []" "q_slept q = []" "\<forall>c \<in> set t. map_char (int (ord c)) 32 \<noteq> None"
    and "good_peer (length t) (q_in q) mid" "good_peer 1 mid rest"
  shows "\<exists>w'. run_state (client_main [''--qmp'', qp, ''type'', t]) w = (0, w') \<and>
    h_log w' = h_log w @ [E_input qp
      (q_sent q @ concat (map (\<lambda>c. char_cmd c @ [LF]) t) @ key_cmd ''ret'' @ [LF])] \<and>
    h_clock w' = h_clock w + 20 * (int (length t) + 1) \<and> h_out w' = h_out w \<and> h_ub w' = h_ub w"
proof -
  let ?q = "q\<lparr>q_in := rest, q_sent := q_sent q @ concat (map (\<lambda>c. char_cmd c @ [LF]) t) @ key_cmd ''ret'' @ [LF],
              q_slept := replicate (length t + 1) 20\<rparr>"
  have "main_type [t] (Some q) = (Some 0, [], False, Some ?q)"
    using type_line_sends [OF assms(3,5-7), of 20] assms(4)
    by (simp add: main_type_def default_main_def scan_all_def)
  from client_qmp [where body = "main_type [t]", OF assms(1,2) this] have
    "run_state (main_qmp (Some qp) [t] (main_type [t])) w =
      (0, w\<lparr>h_qmps := qs, h_ub := h_ub w, h_out := h_out w,
            h_clock := h_clock w + int (nat (sum_list (q_slept ?q))), h_log := h_log w @ [E_input qp (q_sent ?q)]\<rparr>)"
    by simp
  moreover have "client_main [''--qmp'', qp, ''type'', t] = main_qmp (Some qp) [t] (main_type [t])"
    by (simp add: client_main_def main_commands_def)
  ultimately show ?thesis by (simp add: sum_list_replicate)
qed

theorem main_type_types_witness:
  "\<exists>conn q. fst (run_state (client_main [''--qmp'', ''/tmp/q'', ''type'', ''A'']) (bare_host\<lparr>h_qmps := [(Some conn, True)]\<rparr>)) = 0 \<and>
    h_log (snd (run_state (client_main [''--qmp'', ''/tmp/q'', ''type'', ''A'']) (bare_host\<lparr>h_qmps := [(Some conn, True)]\<rparr>))) =
      [E_input ''/tmp/q'' (q @ char_cmd (CHR ''A'') @ LF # key_cmd ''ret'' @ [LF])]"
proof -
  let ?two = "incoming event_msg @ incoming return_msg"
  let ?c = "\<lparr>q_in = incoming greeting_msg @ incoming return_msg @ incoming return_msg @ ?two,
             q_writes = [], q_sent = [], q_slept = []\<rparr>"
  let ?w = "bare_host\<lparr>h_qmps := [(Some ?c, True)]\<rparr>"
  let ?q = "?c\<lparr>q_in := incoming return_msg @ ?two, q_sent := capabilities_cmd @ [LF]\<rparr>"
  have q: "qc_qmp_connect (Some ''/tmp/q'') (Some ?c) True = Some ?q"
    using connect_handshake [of "''/tmp/q''" ?c greeting_msg "[]" return_msg "incoming return_msg @ ?two" 0]
      demo_lines greeting_ok by simp
  have w: "h_qmps ?w = (Some ?c, True) # []" by simp
  have p1: "good_peer (length ''A'') (q_in ?q) ?two" using demo_peer(1) by simp
  show ?thesis
    using main_type_types [OF w q _ _ _ p1 demo_peer(2)]
    by (intro exI [of _ ?c] exI [of _ "capabilities_cmd @ [LF]"])
      (auto simp: map_char_def bare_host_def)
qed

text \<open>
  C38: \<open>qmp-ping\<close> prints what it never wrote. When QEMU closes the connection after the
  handshake, \<open>qc_qmp_execute\<close> fails without touching its output buffer, and the command
  prints the uninitialised array with its error message; the exit code is 1.
\<close>

theorem qmp_ping_uninitialised:
  assumes "h_qmps w = (conn, mem) # qs" "qc_qmp_connect (Some qp) conn mem = Some q"
    and "q_in q = []" "h_ub w = None"
    and "run_state (client_main [''--qmp'', qp, ''qmp-ping'']) w = (rc, w')"
  shows "rc = 1 \<and> h_ub w' = Some Uninitialised"
proof -
  obtain ok q1 where w: "qmp_write_line query_status_cmd q = (ok, q1)" by (rule prod.exhaust)
  have "q_in q1 = []"
    using w assms(3) by (auto simp: qmp_write_line_def write1_def Let_def split: list.splits if_splits prod.splits)
  then have "exec_loop 2048 (q_in q1) [LF] = (- 1, [LF], [])" by (simp add: exec_loop.simps)
  with w have "\<exists>q2. qc_qmp_execute (Some q) query_status_cmd [LF] 2048 = (- 1, [LF], Some q2)"
    by (simp add: qc_qmp_execute_def)
  then obtain q2 where "main_qmp_ping (Some q) = (Some (- 1), [], True, Some q2)"
    by (auto simp: main_qmp_ping_def)
  from client_qmp [where body = main_qmp_ping, OF assms(1,2) this] show ?thesis
    using assms(4,5) by (auto simp: client_main_def main_commands_def)
qed

theorem qmp_ping_uninitialised_witness:
  "\<exists>conn. h_ub (snd (run_state (client_main [''--qmp'', ''/tmp/q'', ''qmp-ping''])
     (bare_host\<lparr>h_qmps := [(Some conn, True)]\<rparr>))) = Some Uninitialised"
proof -
  let ?c = "\<lparr>q_in = incoming greeting_msg @ incoming return_msg, q_writes = [], q_sent = [], q_slept = []\<rparr>"
  have q: "qc_qmp_connect (Some ''/tmp/q'') (Some ?c) True = Some (?c\<lparr>q_in := [], q_sent := capabilities_cmd @ [LF]\<rparr>)"
    using connect_handshake [of "''/tmp/q''" ?c greeting_msg "[]" return_msg "[]" 0] demo_lines greeting_ok by simp
  have w: "h_qmps (bare_host\<lparr>h_qmps := [(Some ?c, True)]\<rparr>) = (Some ?c, True) # []" by simp
  show ?thesis
    using qmp_ping_uninitialised [OF w q _ _ prod.collapse [symmetric]] by (auto simp: bare_host_def)
qed

end
