(* ===== verification/Spec2Isabelle.thy ===== *)
theory Spec2Isabelle
  imports Queue_Sched Cli_Text Agent Run_Disk Cli_Main_Props
begin

text \<open>
  \<^bold>\<open>qemu-connect\<close>: a QEMU TCG plugin (\<open>src/plugin\<close>) that lets a program outside the virtual
  machine see the guest's VGA text screen, read guest memory and receive small messages from
  the guest, over a Unix socket that speaks one JSON object per line; and its command line
  client (\<open>src/cli\<close>), which uses that socket and QEMU's own QMP socket.

  \<^bold>\<open>How the parts interact.\<close> QEMU calls the plugin on the vCPU threads. For every memory
  access \<open>mem.c\<close> feeds two consumers of guest stores: the shadow of the text buffer
  (\<open>vga.c\<close>) and the 16-byte message window (\<open>hypercall.c\<close>). The socket server (\<open>server.c\<close>)
  runs on a thread of its own, or is polled from the translation callback; it cuts the
  client's bytes into lines and answers each with the request handler (\<open>protocol.c\<close>). Guest
  memory can be read on a vCPU thread only, so the handler hands such a request to a work
  queue with one slot (\<open>queue.c\<close>) and waits, up to a timeout, for a vCPU to drain it.
  \<open>agent.c\<close> parses the arguments, owns the state and registers the callbacks.

  The client \<open>qemu-connect\<close> (\<open>main.c\<close>) sends single requests to the plugin and single
  commands to QMP. \<open>run\<close> and \<open>guest\<close> (\<open>run.c\<close>) start QEMU, work off a list of steps (wait for a
  text, type a line) and end QEMU again. \<open>session\<close> (\<open>session.c\<close>) keeps QEMU running between
  commands: a file per session records its process and its sockets, a lock per session
  orders the input. All of them type with \<open>qmp.c\<close>, wait by polling the console over the
  plugin's socket, and find the plugin and the images with \<open>paths.c\<close>.

  \<^bold>\<open>Theories.\<close>
  \<^item> \<open>Prelude\<close>: widths, characters and bytes, C strings (\<open>c_str\<close>, \<open>snprintf\<close>, \<open>strstr\<close>), the
    undefined behaviours (\<open>ub\<close>) and the result type \<open>c_result\<close> of code that can have them.
  \<^item> \<open>CText\<close>: the C library's numbers: \<open>%d\<close>, \<open>%llu\<close>, \<open>%02x\<close>, \<open>strtoull\<close>, \<open>strtol\<close>, \<open>atoi\<close>.
  \<^item> \<open>Interfaces\<close>: the contracts between components, as locales: \<open>store_sink\<close> and
    \<open>tracking_sink\<close> (a consumer of guest stores, interpreted in \<open>Vga\<close> and \<open>Hypercall\<close>),
    \<open>line_service\<close> (what the server needs of the request handler, interpreted in
    \<open>Protocol\<close>, used in \<open>Server\<close>), \<open>text_codec\<close> (the plugin's escaping against a client's
    decoder, interpreted three times in \<open>Cli_Text\<close>).
  \<^item> \<open>Vga\<close> (\<open>vga.c\<close>): \<open>qc_vga_state\<close>, store, refresh, snapshot. The shadow implements an
    abstract video memory; the snapshot is a bounded copy of the screen.
  \<^item> \<open>Hypercall\<close> (\<open>hypercall.c\<close>): the window, the commit of a message and the one-shot event.
  \<^item> \<open>Mem\<close> (\<open>mem.c\<close>): the callback, its counters, instrumentation, discontinuities.
  \<^item> \<open>Queue\<close> (\<open>queue.c\<close>): the slot; a request seen by its caller, with the vCPUs as a list of
    answers with the time each takes (\<open>vcpu_env\<close>).
  \<^item> \<open>Queue_Sched\<close> (\<open>queue.c\<close>): the same stretches of code between lock operations as an
    inductive step relation of one caller and any number of vCPU threads, with every
    interleaving; its reachable states, and an executable scheduler for concrete ones.
  \<^item> \<open>Protocol\<close> (\<open>protocol.c\<close>): field parsing, escaping, every command and every error.
  \<^item> \<open>Server\<close> (\<open>server.c\<close>): accept, read, line assembly, write, start, stop; system calls are
    lists of outcomes, and the bytes written are recorded in \<open>sent\<close>.
  \<^item> \<open>Agent\<close> (\<open>agent.c\<close>): arguments, installation, callbacks, removal.
  \<^item> \<open>Cli_Text\<close> (\<open>main.c\<close>, \<open>run.c\<close>, \<open>session.c\<close>): the text functions of the client.
  \<^item> \<open>Qmp\<close> (\<open>qmp.c\<close>): the line reader, commands, quit, the handshake, typing and the key map.
  \<^item> \<open>Host\<close>: the operating system as the client uses it, one record and the calls on it in the
    library's state monad: files, sockets, processes with zombies and signals, time, locks,
    output, with the rules \<open>does\<close> (what a computation establishes) and \<open>keeps\<close> (what part of
    the world it leaves as it is).
  \<^item> \<open>Paths\<close> (\<open>paths.c\<close>): the settings files, and the search for the root, the plugin and the
    image.
  \<^item> \<open>Client\<close> (\<open>plugin_request\<close>, \<open>wait_expect\<close> of \<open>session.c\<close>; \<open>request\<close>, \<open>cmd_expect\<close> of
    \<open>main.c\<close>): a request over a connection that gives its reply in pieces, and the polling
    loop, over the locale \<open>reply_view\<close> that the views of both programs interpret.
  \<^item> \<open>Session\<close> (\<open>session.c\<close>): the record of a session, its file, the reader of it, the locks.
  \<^item> \<open>Session_Cmd\<close> (\<open>session.c\<close>): the subcommands \<open>start\<close>, \<open>cmd\<close>, \<open>type\<close>, \<open>key\<close>, \<open>expect\<close>,
    \<open>console\<close>, \<open>status\<close>, \<open>stop\<close>. \<open>Session_Safe\<close> has the lock discipline, the one-line
    reports and the end of a session; \<open>Session_Start\<close> what a start leaves behind on each of
    its paths; \<open>Session_Input\<close> what reaches the guest's keyboard.
  \<^item> \<open>Run\<close> (\<open>run.c\<close>): the arguments, the steps, the waits and the teardown of \<open>run\<close> and \<open>guest\<close>.
    \<open>Run_Safe\<close> shows that no process is left and that the report is right, \<open>Run_Props\<close> states
    it for the commands, \<open>Run_Disk\<close> compares \<open>run.c\<close>'s own reader of session files with
    \<open>session.c\<close>'s.
  \<^item> \<open>Cli_Main\<close> (\<open>main.c\<close>): the options, the table of commands and the commands; \<open>Cli_Main_Props\<close>
    follows a request from the argument list through the plugin's server to stdout.
  \<^item> this theory: what spans components, from a guest's store to the client's decoded text.

  \<^bold>\<open>What the lemmas show.\<close> Every operation that can have undefined behaviour returns a
  \<open>c_result\<close>, and the theorems say when it cannot (\<open>mem_run_tracks_guest\<close>,
  \<open>protocol_answers_every_line\<close>, \<open>server_step_defined\<close>, \<open>sched_quiet_exact\<close>) and when it does
  (a vector store, a line of exactly 8192 bytes, a timeout while a vCPU is reading). Refinement: the
  shadow and the window are the guest's memory; the server is the handler mapped over lines,
  independent of how the bytes arrive; the decoders invert the escaping. For the client the
  lemmas say what a whole command does to the world: which processes, files, sockets and
  locks it leaves (\<open>run_leaves_no_qemu\<close>, \<open>stop_ends_session\<close>, \<open>input_under_lock\<close>,
  \<open>start_refuses_held_disk\<close>, \<open>run_refuses_held_disk\<close>), what it sends (\<open>cmd_types_its_words\<close>,
  \<open>main_relays_plugin\<close>) and what it prints (\<open>run_reports_steps\<close>, \<open>session_reports_one_line\<close>).

  \<^bold>\<open>Bounds.\<close> Loops are total functions with measures; there is no fuel. A loop that waits for
  a peer (a read, a write, a lock) runs over the finite list of what the peer does; the end
  of the list is the peer gone (for writes: every further write takes all). The waiting loops
  of the queue end by their timeout. All counters wrap at their C width. The client's bounded
  waits are recursions over their number of turns, which is the one in the code: 100 turns
  of 100 ms for the plugin's socket, 50 for the QMP socket and for the end of a run, 40 for
  the end of a stopped session; \<open>wait_expect\<close> ends because each of its turns moves the clock.

  \<^bold>\<open>Parameters.\<close> QEMU's answers (memory reads, access information, the discontinuity
  constants), \<open>malloc\<close> and the outcomes of system calls are arguments of the definitions. In
  the client's world the outcomes of \<open>fork\<close>, of the connections to the plugin and of those to
  QMP are lists in the record \<open>host\<close>, one element for each call; a started QEMU is described
  by the times at which it opens its sockets and exits, and a process by what it does on
  SIGTERM. Requests of concurrent client processes are not interleaved.

  \<^bold>\<open>Not modelled.\<close> The messages on stderr (usage texts, \<open>--show\<close>, errors), the hint
  \<open>qc_default_cli_hint\<close>, which is a constant text, and \<open>qc_vga_destroy\<close> and its like, which
  only destroy a mutex. \<open>run.c\<close> holds copies of functions of \<open>session.c\<close> (the plugin request,
  \<open>wait_expect\<close>, the text functions), which are modelled once. The MCP server is TypeScript
  around the command line client, and the scripts, the tests and the examples are not
  modelled.
\<close>

section \<open>From the guest to the client\<close>

text \<open>
  The part of the plugin's state that the memory callback works on, and the plugin's state
  after it: the callback on a vCPU thread and the handler on the server's thread share the
  globals of \<open>agent.c\<close>.
\<close>

definition guest_of :: "proto_st \<Rightarrow> guest_side" where
  "guest_of st = \<lparr>ms = pstats st, gvga = (case svga (pq st) of None \<Rightarrow> qc_vga_init | Some s \<Rightarrow> s),
                  ghc = phc st, outs = []\<rparr>"

definition with_guest :: "guest_side \<Rightarrow> proto_st \<Rightarrow> proto_st" where
  "with_guest g st =
     st\<lparr>pq := (pq st)\<lparr>svga := Some (gvga g)\<rparr>, phc := ghc g, pstats := ms g\<rparr>"

text \<open>A run of accesses keeps the handler's invariant and goes to both sinks.\<close>

lemma guest_run:
  assumes "svga (pq st) = Some s" "proto_wf st" "g_hypercall_on (pstats st)" "list_all scalar_access as"
  shows "\<exists>g. run_accesses True as (guest_of st) = Inr g \<and> proto_wf (with_guest g st) \<and>
    (\<forall>mc. vga_view s mc \<longrightarrow>
       vga_view (gvga g) (upd_all (\<lambda>p n. vga_hit p) vga_upd (concat (map access_writes as)) mc)) \<and>
    run_stores hc_note (concat (map access_writes as)) (phc st) = Inr (ghc g)"
proof -
  let ?ws = "concat (map access_writes as)"
  have s: "vga_wf s" "hc_wf (phc st)" using assms(1,2) by (auto simp: proto_wf_def)
  obtain g where g: "run_accesses True as (guest_of st) = Inr g" "cb_step ?ws (length as) (guest_of st) g"
    using run_accesses_step [OF assms(4), of "guest_of st"] assms(1,3) s(1) by (auto simp: guest_of_def)
  note small = writes_small [OF assms(4)]
  from g(2) have v: "run_stores vga_note ?ws s = Inr (gvga g)"
    and h: "run_stores hc_note ?ws (phc st) = Inr (ghc g)"
    using assms(1) by (simp_all add: cb_step_def guest_of_def)
  have wf: "vga_wf (gvga g)" "hc_wf (ghc g)"
    using vga_sink.run_defined [OF s(1) small] hc_sink.run_defined [OF s(2) small] v h by auto
  have view: "vga_view (gvga g) (upd_all (\<lambda>p n. vga_hit p) vga_upd ?ws mc)" if "vga_view s mc" for mc
    using vga_sink.run_tracks [OF s(1) that small] v by auto
  show ?thesis
    using g(1) h wf view assms(2) by (intro exI [of _ g]) (auto simp: with_guest_def proto_wf_def)
qed

lemma request_of_plain:
  assumes "plain l"
  shows "request_of l = l"
proof -
  have "last l \<noteq> CR \<and> last l \<noteq> LF" if "l \<noteq> []"
    using assms last_in_set [OF that] by (fastforce simp: plain_def)
  then have "strip_eol l = l" by (intro strip_eol_id) blast
  then show ?thesis using assms by (simp add: request_of_def c_str_plain)
qed

text \<open>One line through the server, when the handler's answer is known.\<close>

lemma serve_one:
  assumes "plugin_ok pl" "line_buf srv = []" "client_fd srv \<ge> 0" "plain l" "length l < MAX_LINE"
    and "serve_line l pl = Inr (resp, pl')"
  shows "feed_client_bytes serve_line (l @ [LF]) [] (srv\<lparr>service := pl\<rparr>) =
           Inr (srv\<lparr>service := pl', sent := sent srv @ [(client_fd srv, resp @ [LF])]\<rparr>, [])"
proof -
  note plain_no_LF [OF assms(4)]
  with proto.feed_line [of "srv\<lparr>service := pl\<rparr>" l] assms request_of_plain [OF assms(4)]
  obtain r s' where "serve_line l pl = Inr (r, s')"
    and *: "\<forall>data. feed_client_bytes serve_line (l @ LF # data) [] (srv\<lparr>service := pl\<rparr>) =
      feed_client_bytes serve_line data []
          (srv\<lparr>service := s', sent := sent srv @ [(client_fd srv, r @ [LF])]\<rparr>)" by auto
  with assms(6) show ?thesis using * [rule_format, of "[]"] by simp
qed



text \<open>The guest's four stores: command, status, reserved word, magic.\<close>

definition msg_accesses :: "u32 \<Rightarrow> u32 \<Rightarrow> u32 \<Rightarrow> mem_access list" where
  "msg_accesses c stat r =
     map (\<lambda>(k, x). \<lparr>is_store = True, hwaddr = Some (HC_PHYS + k), mem_value = MV_U32 x, size_shift = 2\<rparr>)
       [(4, c), (8, stat), (12, r), (0, HC_MAGIC)]"

text \<open>
  C2: a message of the guest reaches the client. When the guest stores the four words of a
  message with the magic word last, a client that asks for an event is answered by one line
  with exactly that command, its name and its status, counted once more than before.
\<close>

theorem guest_event_reaches_client:
  assumes "plugin_ok (malloc, ctx, env, st)" "svga (pq st) \<noteq> None" "g_hypercall_on (pstats st)"
    and "le32 (g_window (phc st)) 0 \<noteq> HC_MAGIC"
    and "line_buf srv = []" "client_fd srv \<ge> 0"
  shows "\<exists>g pl. run_accesses True (msg_accesses c stat r) (guest_of st) = Inr g
    \<and> feed_client_bytes serve_line (event_line @ [LF]) []
          (srv\<lparr>service := (malloc, ctx, env, with_guest g st)\<rparr>) =
        Inr (srv\<lparr>service := pl,
               sent := sent srv @ [(client_fd srv,
                 event_body \<lparr>count = count (hypercall.g_st (phc st)) + 1, last_cmd = c, last_status = stat,
                              have_event = True, last_name = cmd_name c\<rparr> @ [LF])]\<rparr>, [])"
proof -
  have ok: "malloc_ok malloc" "env_ok env" "proto_wf st" using assms(1) by (simp_all add: plugin_ok_def)
  then have hwf: "hc_wf (phc st)" by (simp add: proto_wf_def)
  obtain s where s: "svga (pq st) = Some s" using assms(2) by auto
  have sc: "list_all scalar_access (msg_accesses c stat r)"
    by (simp add: msg_accesses_def scalar_access_def)
  obtain g where g: "run_accesses True (msg_accesses c stat r) (guest_of st) = Inr g"
      "proto_wf (with_guest g st)"
    and h: "run_stores hc_note (concat (map access_writes (msg_accesses c stat r))) (phc st) = Inr (ghc g)"
    using guest_run [OF s ok(3) assms(3) sc] by blast
  have "ghc g = store_word 0 HC_MAGIC (store_word 12 r (store_word 8 stat (store_word 4 c (phc st))))"
    using h by (simp add: msg_accesses_def access_writes_def hc_note_def store_word_def)
  then have gst: "hypercall.g_st (ghc g) = \<lparr>count = count (hypercall.g_st (phc st)) + 1, last_cmd = c,
      last_status = stat, have_event = True, last_name = cmd_name c\<rparr>"
    using magic_last [OF hwf assms(4)] by simp
  let ?st = "with_guest g st"
  let ?pl = "(malloc, ctx, env, ?st)"
  have hst: "phc ?st = ghc g" "hc_wf (ghc g)" using g(2) by (simp_all add: with_guest_def proto_wf_def)
  obtain pl where pl: "serve_line event_line ?pl = Inr (event_body (hypercall.g_st (ghc g)), pl)"
    using fits_event [OF hst(2)] gst
    by (auto simp: serve_line_def handle_event_line hst(1) qc_hypercall_take_event_def)
  have line: "plain event_line" "length event_line < MAX_LINE" by (simp_all add: event_line_def)
  have "plugin_ok ?pl" using ok g(2) by (simp add: plugin_ok_def)
  from serve_one [OF this assms(5,6) line pl] g(1) show ?thesis unfolding gst by blast
qed

theorem guest_event_reaches_client_witness:
  "\<exists>g pl. run_accesses True (msg_accesses HC_EXIT 7 0) (guest_of fresh_st) = Inr g
    \<and> feed_client_bytes serve_line (event_line @ [LF]) []
          (demo_server\<lparr>service := (slot_malloc, None, [], with_guest g fresh_st)\<rparr>) =
        Inr (demo_server\<lparr>service := pl,
               sent := [(5, event_body \<lparr>count = 1, last_cmd = 2, last_status = 7,
                              have_event = True, last_name = ''EXIT''\<rparr> @ [LF])]\<rparr>, [])"
proof -
  have pl: "plugin_ok (slot_malloc, None, [], fresh_st)"
    by (simp add: plugin_ok_def slot_malloc_ok fresh_st_wf env_ok_def)
  have st: "svga (pq fresh_st) \<noteq> None" "g_hypercall_on (pstats fresh_st)"
      "le32 (g_window (phc fresh_st)) 0 \<noteq> HC_MAGIC"
    by (simp_all add: fresh_st_def guest_side_init_def qc_hypercall_init_def le32_def)
  from guest_event_reaches_client [OF pl st, of demo_server HC_EXIT 7 0] show ?thesis
    by (simp add: demo_server_ok)
       (simp add: demo_server_def fresh_st_def qc_hypercall_init_def cmd_name_def)
qed

end
